theory Spec2Isabelle
  imports Complex_Main "HOL-Library.Word"
begin

section \<open>Broadcast renderer: the recolor transform\<close>

text \<open>
  The effect of \<^verbatim>\<open>BroadcastPage\<close> that draws revealed answers. \<^verbatim>\<open>ImageData.data\<close> is a
  \<^verbatim>\<open>Uint8ClampedArray\<close>: a flat array of bytes, four per pixel (r, g, b, a). A read past
  the end gives \<^verbatim>\<open>undefined\<close>, and \<^verbatim>\<open>undefined < 128\<close> is false; a write past the end is
  ignored, which is what \<open>xs[i := v]\<close> does in HOL.
\<close>

type_synonym byte = "8 word"

record image_data =
  img_width :: nat
  img_height :: nat
  data :: "byte list"

definition rd :: "byte list \<Rightarrow> nat \<Rightarrow> byte option" where
  "rd xs i = (if i < length xs then Some (xs ! i) else None)"

fun below128 :: "byte option \<Rightarrow> bool" where
  "below128 None = False"
| "below128 (Some v) = (v < 128)"

function recolor_loop :: "nat \<Rightarrow> byte list \<Rightarrow> byte list" where
  "recolor_loop i d =
     (if i < length d then
        (let r = rd d i; g = rd d (i + 1); b = rd d (i + 2) in
         if below128 r \<and> below128 g \<and> below128 b
         then recolor_loop (i + 4) (d[i := 255, i + 1 := 255, i + 2 := 255])
         else recolor_loop (i + 4) (d[i + 3 := 0]))
      else d)"
  by pat_completeness auto
termination
  by (relation "measure (\<lambda>(i, d). length d - i)") auto

declare recolor_loop.simps [simp del]

definition recolor :: "image_data \<Rightarrow> image_data" where
  "recolor im = im\<lparr>data := recolor_loop 0 (data im)\<rparr>"

text \<open>
  A canvas element: its backing-store size and its content. What \<^verbatim>\<open>fillRect\<close> and the
  scaling \<^verbatim>\<open>drawImage\<close> do to the content is the browser's (interpolation, source-over
  compositing); they are parameters \<open>fill\<close> and \<open>blit\<close> acting on the content only, since
  no drawing call resizes a canvas.
\<close>

record 'px canvas =
  c_width :: nat
  c_height :: nat
  c_pixels :: 'px

datatype room_status = Waiting | Questioning | Open | Ended

text \<open>
  One iteration of \<^verbatim>\<open>answers.forEach\<close> in the drawing effect, with the image already
  loaded. \<open>cv\<close> is the entry of \<^verbatim>\<open>canvasRefs\<close> (\<open>None\<close> when the card is not mounted),
  \<open>has_ctx\<close> and \<open>has_temp_ctx\<close> say whether \<^verbatim>\<open>getContext('2d')\<close> returned a context,
  \<open>decode\<close> is the browser's image decoder followed by \<^verbatim>\<open>drawImage\<close>/\<^verbatim>\<open>getImageData\<close> on
  the temporary canvas (\<open>None\<close>: \<^verbatim>\<open>onload\<close> never fires). The result is the canvas after
  the effect; \<open>None\<close> stays \<open>None\<close>.
\<close>

definition draw_answer ::
  "(string \<Rightarrow> nat \<Rightarrow> nat \<Rightarrow> 'px \<Rightarrow> 'px) \<Rightarrow> (image_data \<Rightarrow> nat \<Rightarrow> nat \<Rightarrow> 'px \<Rightarrow> 'px) \<Rightarrow>
   (string \<Rightarrow> image_data option) \<Rightarrow> bool \<Rightarrow> bool \<Rightarrow>
   room_status option \<Rightarrow> bool \<Rightarrow> bool \<Rightarrow> string \<Rightarrow> 'px canvas option \<Rightarrow> 'px canvas option" where
  "draw_answer fill blit decode has_ctx has_temp_ctx st revealed correct canvasData cv =
     (if st \<noteq> Some Open \<or> \<not> revealed then cv
      else case cv of
        None \<Rightarrow> None
      | Some canvas \<Rightarrow>
          if canvasData = [] then cv
          else if \<not> has_ctx then cv
          else (case decode canvasData of
              None \<Rightarrow> cv
            | Some img \<Rightarrow>
                let width = c_width canvas; height = c_height canvas;
                    bg = (if correct then ''#dc2626'' else ''#2563eb'');
                    filled = canvas\<lparr>c_pixels := fill bg width height (c_pixels canvas)\<rparr>
                in if has_temp_ctx
                   then Some (filled\<lparr>c_pixels := blit (recolor img) width height (c_pixels filled)\<rparr>)
                   else Some filled))"

text \<open>The canvas element of a revealed card: \<^verbatim>\<open><canvas width={320} height={240}>\<close>.\<close>

definition card_canvas :: "'px \<Rightarrow> 'px canvas" where
  "card_canvas px = \<lparr>c_width = 320, c_height = 240, c_pixels = px\<rparr>"


section \<open>Drawing surface: the undo history\<close>

text \<open>
  The state of one \<^verbatim>\<open>DrawingCanvas\<close>: the raster on the canvas, whether
  \<^verbatim>\<open>contextRef.current\<close> is set, the \<^verbatim>\<open>isDrawing\<close> flag, \<^verbatim>\<open>historyRef.current\<close> and
  \<^verbatim>\<open>historyIndexRef.current\<close>. Rasters are opaque values of a type \<open>'r\<close>; what a stroke
  or \<^verbatim>\<open>fillRect\<close> does to a raster is a parameter. The \<^verbatim>\<open>onChange\<close> callback is not part
  of the state.
\<close>

record 'r surface =
  raster :: 'r
  has_context :: bool
  isDrawing :: bool
  history :: "'r list"
  historyIndex :: int

text \<open>\<^verbatim>\<open>xs.slice(0, e)\<close>: a negative \<open>e\<close> counts from the end.\<close>

definition slice0 :: "int \<Rightarrow> 'a list \<Rightarrow> 'a list" where
  "slice0 e xs = (if e < 0 then take (nat (int (length xs) + e)) xs else take (nat e) xs)"

definition unmounted :: "'r \<Rightarrow> 'r surface" where
  "unmounted r = \<lparr>raster = r, has_context = False, isDrawing = False, history = [], historyIndex = - 1\<rparr>"

text \<open>
  The initialising effect. \<open>canvas\<close> says whether \<^verbatim>\<open>canvasRef.current\<close> is set and
  \<open>ctx\<close> whether \<^verbatim>\<open>getContext('2d')\<close> returned a context; without either the effect
  returns at once and the surface stays as it was. Otherwise it fills the background,
  keeps the context and saves the initial state.
\<close>

definition initialise :: "bool \<Rightarrow> bool \<Rightarrow> ('r \<Rightarrow> 'r) \<Rightarrow> 'r surface \<Rightarrow> 'r surface" where
  "initialise canvas ctx fillBg s =
     (if \<not> canvas then s
      else if \<not> ctx then s
      else let initialState = fillBg (raster s)
           in s\<lparr>raster := initialState, has_context := True, history := [initialState],
                historyIndex := 0\<rparr>)"

definition saveToHistory :: "'r surface \<Rightarrow> 'r surface" where
  "saveToHistory s =
     (if \<not> has_context s then s
      else let imageData = raster s;
               h = slice0 (historyIndex s + 1) (history s) @ [imageData];
               i = int (length h) - 1
           in if length h > 50 then s\<lparr>history := tl h, historyIndex := i - 1\<rparr>
              else s\<lparr>history := h, historyIndex := i\<rparr>)"

definition startDrawing :: "bool \<Rightarrow> 'r surface \<Rightarrow> 'r surface" where
  "startDrawing disabled s = (if disabled \<or> \<not> has_context s then s else s\<lparr>isDrawing := True\<rparr>)"

definition draw :: "bool \<Rightarrow> ('r \<Rightarrow> 'r) \<Rightarrow> 'r surface \<Rightarrow> 'r surface" where
  "draw disabled stroke s =
     (if \<not> isDrawing s \<or> disabled \<or> \<not> has_context s then s else s\<lparr>raster := stroke (raster s)\<rparr>)"

definition stopDrawing :: "'r surface \<Rightarrow> 'r surface" where
  "stopDrawing s = (if \<not> isDrawing s then s else saveToHistory (s\<lparr>isDrawing := False\<rparr>))"

text \<open>
  \<^verbatim>\<open>handleUndo\<close>. When the index points outside the array, \<^verbatim>\<open>putImageData(undefined)\<close>
  throws after the index was decremented: the raster stays.
\<close>

definition handleUndo :: "'r surface \<Rightarrow> 'r surface" where
  "handleUndo s =
     (if \<not> has_context s \<or> historyIndex s \<le> 0 then s
      else let i = historyIndex s - 1
           in if nat i < length (history s)
              then s\<lparr>historyIndex := i, raster := history s ! nat i\<rparr>
              else s\<lparr>historyIndex := i\<rparr>)"

definition handleClear :: "('r \<Rightarrow> 'r) \<Rightarrow> 'r surface \<Rightarrow> 'r surface" where
  "handleClear fillBg s =
     (if \<not> has_context s then s else saveToHistory (s\<lparr>raster := fillBg (raster s)\<rparr>))"

datatype 'r ui_event = StartDrawing | Draw "'r \<Rightarrow> 'r" | StopDrawing | Undo | Clear

fun handle :: "bool \<Rightarrow> ('r \<Rightarrow> 'r) \<Rightarrow> 'r surface \<Rightarrow> 'r ui_event \<Rightarrow> 'r surface" where
  "handle disabled fillBg s StartDrawing = startDrawing disabled s"
| "handle disabled fillBg s (Draw stroke) = draw disabled stroke s"
| "handle disabled fillBg s StopDrawing = stopDrawing s"
| "handle disabled fillBg s Undo = handleUndo s"
| "handle disabled fillBg s Clear = handleClear fillBg s"

text \<open>
  The surface after the mount effect ran on a raster \<open>r\<close> and the events \<open>evs\<close> were
  handled in order. (\<^verbatim>\<open>getCoordinates\<close> returns null only without a canvas, and the
  context is set only when there is one.)
\<close>

definition surface_after ::
  "bool \<Rightarrow> bool \<Rightarrow> bool \<Rightarrow> ('r \<Rightarrow> 'r) \<Rightarrow> 'r \<Rightarrow> 'r ui_event list \<Rightarrow> 'r surface" where
  "surface_after canvas ctx disabled fillBg r evs =
     foldl (handle disabled fillBg) (initialise canvas ctx fillBg (unmounted r)) evs"

text \<open>
  The undo stack the user sees: the entries up to the index. Entries above the index are
  unreachable (there is no redo) and are cut off by the next \<open>saveToHistory\<close>.
\<close>

definition undo_stack :: "'r surface \<Rightarrow> 'r list" where
  "undo_stack s = take (nat (historyIndex s + 1)) (history s)"

text \<open>Appending to a stack bounded at 50: the oldest entry goes when the bound is passed.\<close>

definition push50 :: "'a list \<Rightarrow> 'a \<Rightarrow> 'a list" where
  "push50 xs x = (if length xs < 50 then xs @ [x] else tl xs @ [x])"

section \<open>Room codes\<close>

definition chars :: string where
  "chars = ''ABCDEFGHJKLMNPQRSTUVWXYZ23456789''"

text \<open>\<^verbatim>\<open>s.charAt(k)\<close>: the empty string when \<open>k\<close> is out of range.\<close>

definition charAt :: "string \<Rightarrow> int \<Rightarrow> string" where
  "charAt s k = (if 0 \<le> k \<and> k < int (length s) then [s ! nat k] else [])"

text \<open>
  \<open>rnd i\<close> is the value of the \<open>i\<close>-th call of \<^verbatim>\<open>Math.random()\<close>. A double times 32 is
  exact, so the real product and floor are the ones JavaScript computes.
\<close>

function generateRoomCode_loop :: "(nat \<Rightarrow> real) \<Rightarrow> nat \<Rightarrow> string \<Rightarrow> string" where
  "generateRoomCode_loop rnd i code =
     (if i < 6
      then generateRoomCode_loop rnd (i + 1) (code @ charAt chars \<lfloor>rnd i * real (length chars)\<rfloor>)
      else code)"
  by pat_completeness auto
termination
  by (relation "measure (\<lambda>(rnd, i, code). 6 - i)") auto

declare generateRoomCode_loop.simps [simp del]

definition generateRoomCode :: "(nat \<Rightarrow> real) \<Rightarrow> string" where
  "generateRoomCode rnd = generateRoomCode_loop rnd 0 []"

text \<open>
  \<^verbatim>\<open>toUpperCase\<close> and \<^verbatim>\<open>toLowerCase\<close> on the ASCII letters; every other byte is kept
  (JavaScript also maps letters outside ASCII, which a byte string does not hold as
  single characters).
\<close>

definition upper_char :: "char \<Rightarrow> char" where
  "upper_char c = (let n = (of_char c :: nat) in if 97 \<le> n \<and> n \<le> 122 then char_of (n - 32) else c)"

definition lower_char :: "char \<Rightarrow> char" where
  "lower_char c = (let n = (of_char c :: nat) in if 65 \<le> n \<and> n \<le> 90 then char_of (n + 32) else c)"

definition toUpperCase :: "string \<Rightarrow> string" where
  "toUpperCase s = map upper_char s"

definition toLowerCase :: "string \<Rightarrow> string" where
  "toLowerCase s = map lower_char s"

section \<open>The document database and the blob store\<close>

text \<open>
  The hosted services are outside the repository; the model keeps what the store
  functions rely on. A collection is the list of its documents (id and data) in the
  order a query returns them; a new document is put last (the service orders by id, and
  generated ids are random, so any position is possible; the statements below are about
  arbitrary collections). \<open>addDoc\<close> takes the id the client library generated and
  fails when a document of that id exists (the write carries the precondition that it
  does not); \<open>updateDoc\<close> fails on a missing document; \<open>deleteDoc\<close> of a missing
  document does nothing. Server timestamps are numbers supplied by the caller of the
  model. Calls run one after the other. Network failures of the database are not
  modelled; a failing upload is.
\<close>

type_synonym doc_id = string
type_synonym timestamp = nat
type_synonym 'a collection = "(doc_id \<times> 'a) list"

datatype error =
    NotConfigured
  | StorageNotConfigured
  | BannedFromRoom
  | RoomFull int
  | NotFound
  | AlreadyExists
  | UploadFailed
  | InvalidCharacter

definition addDoc :: "doc_id \<Rightarrow> 'a \<Rightarrow> 'a collection \<Rightarrow> error + 'a collection" where
  "addDoc i d c = (if i \<in> set (map fst c) then Inl AlreadyExists else Inr (c @ [(i, d)]))"

definition getDoc :: "doc_id \<Rightarrow> 'a collection \<Rightarrow> 'a option" where
  "getDoc i c = map_of c i"

definition updateDoc :: "doc_id \<Rightarrow> ('a \<Rightarrow> 'a) \<Rightarrow> 'a collection \<Rightarrow> error + 'a collection" where
  "updateDoc i f c =
     (if i \<in> set (map fst c) then Inr (map (\<lambda>(j, d). if j = i then (j, f d) else (j, d)) c)
      else Inl NotFound)"

definition deleteDoc :: "doc_id \<Rightarrow> 'a collection \<Rightarrow> 'a collection" where
  "deleteDoc i c = filter (\<lambda>(j, d). j \<noteq> i) c"

text \<open>\<^verbatim>\<open>getDocs(query(c, where(...)))\<close> with equality filters: the documents that satisfy them.\<close>

definition getDocs_where :: "('a \<Rightarrow> bool) \<Rightarrow> 'a collection \<Rightarrow> 'a collection" where
  "getDocs_where p c = filter (\<lambda>(j, d). p d) c"

datatype participant_status = Pending | Approved | Rejected

record room_doc =
  hostId :: string
  roomCode :: string
  status :: room_status
  currentQuestionId :: "doc_id option"
  maxParticipants :: int
  createdAt :: timestamp

record participant_doc =
  p_roomId :: doc_id
  p_odId :: string
  p_displayName :: string
  p_photoURL :: "string option"
  p_status :: participant_status
  joinedAt :: timestamp

record banned_doc =
  b_odId :: string
  b_displayName :: string
  b_photoURL :: "string option"
  bannedAt :: timestamp

record question_doc =
  q_roomId :: doc_id
  q_text :: string
  q_imageURL :: "string option"
  q_createdAt :: timestamp

record answer_doc =
  questionId :: doc_id
  a_odId :: string
  a_displayName :: string
  canvasData :: string
  isCorrect :: bool
  isRevealed :: bool
  updatedAt :: timestamp

record game_result_answer =
  gra_odId :: string
  gra_displayName :: string
  gra_photoURL :: "string option"
  gra_imageURL :: string
  gra_isCorrect :: bool

record game_result_doc =
  g_roomId :: doc_id
  g_roomCode :: string
  g_hostId :: string
  questionText :: string
  questionImageURL :: "string option"
  g_answers :: "game_result_answer list"
  g_createdAt :: timestamp

text \<open>
  The collections: \<^verbatim>\<open>rooms\<close> and \<^verbatim>\<open>gameResults\<close> at top level, the others nested under
  a room id (a nested collection exists whether or not the room document does).
\<close>

record firestore =
  rooms :: "room_doc collection"
  participants :: "doc_id \<Rightarrow> participant_doc collection"
  bannedUsers :: "doc_id \<Rightarrow> banned_doc collection"
  questions :: "doc_id \<Rightarrow> question_doc collection"
  answers :: "doc_id \<Rightarrow> answer_doc collection"
  gameResults :: "game_result_doc collection"

record blob =
  mime :: string
  bytes :: string

type_synonym blob_store = "string \<Rightarrow> blob option"

text \<open>
  What the client holds: \<^verbatim>\<open>db\<close> and \<^verbatim>\<open>storage\<close> of \<^verbatim>\<open>./firebase\<close>, each \<open>None\<close> when it is
  not configured. A store function returns its result, or the error it throws, with the
  world it leaves behind.
\<close>

record world =
  db :: "firestore option"
  storage :: "blob_store option"

type_synonym 'a result = "(error + 'a) \<times> world"

text \<open>
  The environment of a call: the browser's \<^verbatim>\<open>atob\<close> (\<open>None\<close> when it throws) and the
  capture group of \<^verbatim>\<open>/:(.*?);/\<close> (\<open>None\<close> when there is no match), whether an upload to a
  path succeeds, the download URL of a path, and the clock read by the \<open>k\<close>-th
  \<^verbatim>\<open>Date.now()\<close> of the call.
\<close>

record env =
  atob :: "string \<Rightarrow> string option"
  match_mime :: "string \<Rightarrow> string option"
  upload_ok :: "string \<Rightarrow> bool"
  url_of :: "string \<Rightarrow> string"
  date_now :: "nat \<Rightarrow> nat"

definition digit_char :: "nat \<Rightarrow> char" where
  "digit_char d = char_of (48 + d)"

fun show_nat :: "nat \<Rightarrow> string" where
  "show_nat n = (if n < 10 then [digit_char n] else show_nat (n div 10) @ [digit_char (n mod 10)])"

declare show_nat.simps [simp del]

section \<open>Store functions\<close>

definition MAX_PARTICIPANTS :: int where
  "MAX_PARTICIPANTS = 15"

definition createRoom :: "(nat \<Rightarrow> real) \<Rightarrow> doc_id \<Rightarrow> timestamp \<Rightarrow> string \<Rightarrow> int \<Rightarrow> world \<Rightarrow>
    (doc_id \<times> room_doc option) result" where
  "createRoom rnd newId now host maxP w =
     (case db w of
        None \<Rightarrow> (Inl NotConfigured, w)
      | Some database \<Rightarrow>
          let code = generateRoomCode rnd;
              room = \<lparr>hostId = host, roomCode = code, status = Waiting, currentQuestionId = None,
                      maxParticipants = maxP, createdAt = now\<rparr>
          in (case addDoc newId room (rooms database) of
                Inl e \<Rightarrow> (Inl e, w)
              | Inr rs \<Rightarrow> (Inr (newId, getDoc newId rs), w\<lparr>db := Some (database\<lparr>rooms := rs\<rparr>)\<rparr>)))"

definition getRoomByCode :: "string \<Rightarrow> world \<Rightarrow> error + (doc_id \<times> room_doc) option" where
  "getRoomByCode code w =
     (case db w of
        None \<Rightarrow> Inl NotConfigured
      | Some database \<Rightarrow>
          (case getDocs_where (\<lambda>r. roomCode r = toUpperCase code) (rooms database) of
             [] \<Rightarrow> Inr None
           | docSnap # _ \<Rightarrow> Inr (Some docSnap)))"

text \<open>The status writes: each is one \<open>updateDoc\<close> of the room document.\<close>

definition update_room :: "doc_id \<Rightarrow> (room_doc \<Rightarrow> room_doc) \<Rightarrow> world \<Rightarrow> unit result" where
  "update_room roomId f w =
     (case db w of
        None \<Rightarrow> (Inl NotConfigured, w)
      | Some database \<Rightarrow>
          (case updateDoc roomId f (rooms database) of
             Inl e \<Rightarrow> (Inl e, w)
           | Inr rs \<Rightarrow> (Inr (), w\<lparr>db := Some (database\<lparr>rooms := rs\<rparr>)\<rparr>)))"

definition updateRoomStatus :: "doc_id \<Rightarrow> room_status \<Rightarrow> world \<Rightarrow> unit result" where
  "updateRoomStatus roomId st w = update_room roomId (\<lambda>r. r\<lparr>status := st\<rparr>) w"

definition resetRoomToWaiting :: "doc_id \<Rightarrow> world \<Rightarrow> unit result" where
  "resetRoomToWaiting roomId w =
     update_room roomId (\<lambda>r. r\<lparr>status := Waiting, currentQuestionId := None\<rparr>) w"

definition endRoom :: "doc_id \<Rightarrow> world \<Rightarrow> unit result" where
  "endRoom roomId w = update_room roomId (\<lambda>r. r\<lparr>status := Ended\<rparr>) w"

definition openAnswers :: "doc_id \<Rightarrow> world \<Rightarrow> unit result" where
  "openAnswers roomId w = update_room roomId (\<lambda>r. r\<lparr>status := Open\<rparr>) w"

definition isUserBanned :: "doc_id \<Rightarrow> string \<Rightarrow> world \<Rightarrow> error + bool" where
  "isUserBanned roomId odId w =
     (case db w of
        None \<Rightarrow> Inl NotConfigured
      | Some database \<Rightarrow>
          Inr (getDocs_where (\<lambda>b. b_odId b = odId) (bannedUsers database roomId) \<noteq> []))"

definition requestJoinRoom :: "doc_id \<Rightarrow> timestamp \<Rightarrow> doc_id \<Rightarrow> string \<Rightarrow> string \<Rightarrow> string option \<Rightarrow>
    world \<Rightarrow> (doc_id \<times> participant_doc option) result" where
  "requestJoinRoom newId now roomId odId displayName photoURL w =
     (case db w of
        None \<Rightarrow> (Inl NotConfigured, w)
      | Some database \<Rightarrow>
          (case isUserBanned roomId odId w of
             Inl e \<Rightarrow> (Inl e, w)
           | Inr banned \<Rightarrow>
               if banned then (Inl BannedFromRoom, w)
               else (case getDocs_where (\<lambda>p. p_odId p = odId) (participants database roomId) of
                   (existingId, existingData) # _ \<Rightarrow> (Inr (existingId, Some existingData), w)
                 | [] \<Rightarrow>
                     let activeCount = int (length (participants database roomId));
                         maxP = (case getDoc roomId (rooms database) of
                                   None \<Rightarrow> MAX_PARTICIPANTS
                                 | Some roomData \<Rightarrow>
                                     if maxParticipants roomData = 0 then MAX_PARTICIPANTS
                                     else maxParticipants roomData)
                     in if activeCount \<ge> maxP then (Inl (RoomFull maxP), w)
                        else (case addDoc newId
                                     \<lparr>p_roomId = roomId, p_odId = odId, p_displayName = displayName,
                                      p_photoURL = photoURL, p_status = Approved, joinedAt = now\<rparr>
                                     (participants database roomId) of
                            Inl e \<Rightarrow> (Inl e, w)
                          | Inr ps \<Rightarrow>
                              (Inr (newId, getDoc newId ps),
                               w\<lparr>db := Some (database\<lparr>participants :=
                                     (participants database)(roomId := ps)\<rparr>)\<rparr>)))))"

definition kickParticipant :: "doc_id \<Rightarrow> timestamp \<Rightarrow> doc_id \<Rightarrow> doc_id \<Rightarrow> string \<Rightarrow> string \<Rightarrow>
    string option \<Rightarrow> world \<Rightarrow> unit result" where
  "kickParticipant newId now roomId participantId odId displayName photoURL w =
     (case db w of
        None \<Rightarrow> (Inl NotConfigured, w)
      | Some database \<Rightarrow>
          (case addDoc newId
                  \<lparr>b_odId = odId, b_displayName = displayName, b_photoURL = photoURL, bannedAt = now\<rparr>
                  (bannedUsers database roomId) of
             Inl e \<Rightarrow> (Inl e, w)
           | Inr bs \<Rightarrow>
               (Inr (),
                w\<lparr>db := Some (database\<lparr>
                      bannedUsers := (bannedUsers database)(roomId := bs),
                      participants := (participants database)
                        (roomId := deleteDoc participantId (participants database roomId))\<rparr>)\<rparr>)))"

definition unbanUser :: "doc_id \<Rightarrow> string \<Rightarrow> world \<Rightarrow> unit result" where
  "unbanUser roomId odId w =
     (case db w of
        None \<Rightarrow> (Inl NotConfigured, w)
      | Some database \<Rightarrow>
          let snapshot = getDocs_where (\<lambda>b. b_odId b = odId) (bannedUsers database roomId);
              bs = foldl (\<lambda>c docSnap. deleteDoc (fst docSnap) c) (bannedUsers database roomId) snapshot
          in (Inr (), w\<lparr>db := Some (database\<lparr>bannedUsers := (bannedUsers database)(roomId := bs)\<rparr>)\<rparr>))"

text \<open>
  \<^verbatim>\<open>createQuestion\<close>. \<open>imageFile\<close> is the name and content of the file, if any. What
  is written before a later step throws stays written.
\<close>

definition upload_question_image :: "env \<Rightarrow> doc_id \<Rightarrow> (string \<times> blob) option \<Rightarrow> world \<Rightarrow>
    string option result" where
  "upload_question_image ev roomId imageFile w =
     (case imageFile of
        None \<Rightarrow> (Inr None, w)
      | Some (name, content) \<Rightarrow>
          (case storage w of
             None \<Rightarrow> (Inl StorageNotConfigured, w)
           | Some st \<Rightarrow>
               let path = ''rooms/'' @ roomId @ ''/questions/'' @ show_nat (date_now ev 0) @ ''_'' @ name
               in if upload_ok ev path
                  then (Inr (Some (url_of ev path)), w\<lparr>storage := Some (st(path \<mapsto> content))\<rparr>)
                  else (Inl UploadFailed, w)))"

definition createQuestion :: "env \<Rightarrow> doc_id \<Rightarrow> timestamp \<Rightarrow> doc_id \<Rightarrow> string \<Rightarrow> (string \<times> blob) option \<Rightarrow>
    world \<Rightarrow> (doc_id \<times> question_doc option) result" where
  "createQuestion ev newId now roomId text imageFile w =
     (case db w of
        None \<Rightarrow> (Inl NotConfigured, w)
      | Some database \<Rightarrow>
          (case upload_question_image ev roomId imageFile w of
             (Inl e, w1) \<Rightarrow> (Inl e, w1)
           | (Inr imageURL, w1) \<Rightarrow>
               (case addDoc newId
                       \<lparr>q_roomId = roomId, q_text = text, q_imageURL = imageURL, q_createdAt = now\<rparr>
                       (questions database roomId) of
                  Inl e \<Rightarrow> (Inl e, w1)
                | Inr qs \<Rightarrow>
                    let d1 = database\<lparr>questions := (questions database)(roomId := qs)\<rparr>;
                        w2 = w1\<lparr>db := Some d1\<rparr>
                    in (case update_room roomId
                              (\<lambda>r. r\<lparr>currentQuestionId := Some newId, status := Questioning\<rparr>) w2 of
                          (Inl e, w3) \<Rightarrow> (Inl e, w3)
                        | (Inr u, w3) \<Rightarrow> (Inr (newId, getDoc newId qs), w3)))))"

definition submitAnswer :: "doc_id \<Rightarrow> timestamp \<Rightarrow> doc_id \<Rightarrow> doc_id \<Rightarrow> string \<Rightarrow> string \<Rightarrow> string \<Rightarrow>
    world \<Rightarrow> (doc_id \<times> answer_doc option) result" where
  "submitAnswer newId now roomId qId odId displayName cData w =
     (case db w of
        None \<Rightarrow> (Inl NotConfigured, w)
      | Some database \<Rightarrow>
          (case getDocs_where (\<lambda>a. questionId a = qId \<and> a_odId a = odId) (answers database roomId) of
             (existingId, existingData) # _ \<Rightarrow>
               (case updateDoc existingId (\<lambda>a. a\<lparr>canvasData := cData, updatedAt := now\<rparr>)
                       (answers database roomId) of
                  Inl e \<Rightarrow> (Inl e, w)
                | Inr as \<Rightarrow>
                    (Inr (existingId, getDoc existingId as),
                     w\<lparr>db := Some (database\<lparr>answers := (answers database)(roomId := as)\<rparr>)\<rparr>))
           | [] \<Rightarrow>
               (case addDoc newId
                       \<lparr>questionId = qId, a_odId = odId, a_displayName = displayName,
                        canvasData = cData, isCorrect = False, isRevealed = False, updatedAt = now\<rparr>
                       (answers database roomId) of
                  Inl e \<Rightarrow> (Inl e, w)
                | Inr as \<Rightarrow>
                    (Inr (newId, getDoc newId as),
                     w\<lparr>db := Some (database\<lparr>answers := (answers database)(roomId := as)\<rparr>)\<rparr>))))"

subsection \<open>Saving a game result\<close>

text \<open>\<^verbatim>\<open>s.split(',')\<close>: always at least one part.\<close>

fun split_comma :: "string \<Rightarrow> string list" where
  "split_comma [] = [[]]"
| "split_comma (c # cs) =
     (if c = CHR '','' then [] # split_comma cs
      else (case split_comma cs of [] \<Rightarrow> [[c]] | p # ps \<Rightarrow> (c # p) # ps))"

text \<open>
  \<^verbatim>\<open>base64ToBlob\<close>; \<open>None\<close> when \<^verbatim>\<open>atob\<close> throws. Without a comma \<^verbatim>\<open>parts[1]\<close> is
  \<^verbatim>\<open>undefined\<close>, which \<^verbatim>\<open>atob\<close> reads as the string "undefined". The byte loop copies
  the decoded string.
\<close>

definition base64ToBlob :: "env \<Rightarrow> string \<Rightarrow> blob option" where
  "base64ToBlob ev base64 =
     (let parts = split_comma base64;
          m = (case match_mime ev (hd parts) of
                 None \<Rightarrow> ''image/png''
               | Some g \<Rightarrow> if g = [] then ''image/png'' else g)
      in case atob ev (if length parts > 1 then parts ! 1 else ''undefined'') of
           None \<Rightarrow> None
         | Some byteString \<Rightarrow> Some \<lparr>mime = m, bytes = byteString\<rparr>)"

definition history_path :: "env \<Rightarrow> nat \<Rightarrow> doc_id \<Rightarrow> doc_id \<Rightarrow> string \<Rightarrow> string" where
  "history_path ev k roomId qid odId =
     ''history/'' @ roomId @ ''/'' @ qid @ ''/'' @ odId @ ''_'' @ show_nat (date_now ev k) @ ''.png''"

text \<open>
  How the promise of one callback of \<^verbatim>\<open>answers.map\<close> settles: with a value, by a throw
  before the first \<^verbatim>\<open>await\<close> (the promise is born rejected), or by a rejection of the
  awaited upload.
\<close>

datatype 'a settled = Fulfilled 'a | Threw error | Rejected error

text \<open>
  The callback for one answer, \<open>k\<close> clock reads having been made before it: its outcome
  and the blob store after it. When \<^verbatim>\<open>atob\<close> throws, the callback ends before it reads
  the clock or starts an upload.
\<close>

definition upload_answer :: "env \<Rightarrow> nat \<Rightarrow> doc_id \<Rightarrow> doc_id \<Rightarrow> (doc_id \<times> answer_doc) \<Rightarrow> blob_store \<Rightarrow>
    game_result_answer settled \<times> blob_store" where
  "upload_answer ev k roomId qid answer st =
     (case base64ToBlob ev (canvasData (snd answer)) of
        None \<Rightarrow> (Threw InvalidCharacter, st)
      | Some b \<Rightarrow>
          let fileName = history_path ev k roomId qid (a_odId (snd answer))
          in if upload_ok ev fileName
             then (Fulfilled \<lparr>gra_odId = a_odId (snd answer), gra_displayName = a_displayName (snd answer),
                        gra_photoURL = None, gra_imageURL = url_of ev fileName,
                        gra_isCorrect = isCorrect (snd answer)\<rparr>,
                   st(fileName \<mapsto> b))
             else (Rejected UploadFailed, st))"

text \<open>
  The callbacks run in list order up to their uploads, so the clock is read in list
  order, once by every callback that did not throw; each upload then runs to its own end
  whatever the others do. The blob store returned is the one after all have settled.
  Uploads to one and the same path are written in list order here; the code leaves their
  order open, and the statements about stored blobs do not depend on it.
\<close>

fun upload_all :: "env \<Rightarrow> nat \<Rightarrow> doc_id \<Rightarrow> doc_id \<Rightarrow> (doc_id \<times> answer_doc) list \<Rightarrow> blob_store \<Rightarrow>
    game_result_answer settled list \<times> blob_store" where
  "upload_all ev k roomId qid [] st = ([], st)"
| "upload_all ev k roomId qid (a # as) st =
     (case upload_answer ev k roomId qid a st of
        (r, st1) \<Rightarrow>
          (case upload_all ev (case r of Threw e \<Rightarrow> k | _ \<Rightarrow> k + 1) roomId qid as st1 of
             (rs, st2) \<Rightarrow> (r # rs, st2)))"

fun first_thrown :: "'a settled list \<Rightarrow> error option" where
  "first_thrown [] = None"
| "first_thrown (Threw e # rs) = Some e"
| "first_thrown (r # rs) = first_thrown rs"

fun first_rejected :: "'a settled list \<Rightarrow> error option" where
  "first_rejected [] = None"
| "first_rejected (Rejected e # rs) = Some e"
| "first_rejected (r # rs) = first_rejected rs"

fun fulfilled :: "'a settled list \<Rightarrow> 'a list" where
  "fulfilled [] = []"
| "fulfilled (Fulfilled x # rs) = x # fulfilled rs"
| "fulfilled (r # rs) = fulfilled rs"

text \<open>
  \<^verbatim>\<open>Promise.all\<close> rejects with the first rejection in time. A promise born rejected is
  handled before any upload settles, so a callback that threw comes first, the earliest
  in the list among several. Otherwise the first upload to fail decides; the failing
  uploads of this model all carry the same error, and the first in the list is taken.
  Without a rejection the result is the list of values.
\<close>

definition promise_all :: "'a settled list \<Rightarrow> error + 'a list" where
  "promise_all rs =
     (case first_thrown rs of
        Some e \<Rightarrow> Inl e
      | None \<Rightarrow> (case first_rejected rs of Some e \<Rightarrow> Inl e | None \<Rightarrow> Inr (fulfilled rs)))"

definition saveGameResult :: "env \<Rightarrow> doc_id \<Rightarrow> timestamp \<Rightarrow> doc_id \<Rightarrow> string \<Rightarrow> string \<Rightarrow>
    (doc_id \<times> question_doc) \<Rightarrow> (doc_id \<times> answer_doc) list \<Rightarrow> world \<Rightarrow>
    (doc_id \<times> game_result_doc option) result" where
  "saveGameResult ev newId now roomId code host question as w =
     (case db w of
        None \<Rightarrow> (Inl NotConfigured, w)
      | Some database \<Rightarrow>
          (case storage w of
             None \<Rightarrow> (Inl StorageNotConfigured, w)
           | Some st \<Rightarrow>
               (case upload_all ev 0 roomId (fst question) as st of
                  (rs, st') \<Rightarrow>
                    let w1 = w\<lparr>storage := Some st'\<rparr>
                    in (case promise_all rs of
                          Inl e \<Rightarrow> (Inl e, w1)
                        | Inr savedAnswers \<Rightarrow>
                            (case addDoc newId
                                    \<lparr>g_roomId = roomId, g_roomCode = code, g_hostId = host,
                                     questionText = q_text (snd question),
                                     questionImageURL = q_imageURL (snd question),
                                     g_answers = savedAnswers, g_createdAt = now\<rparr>
                                    (gameResults database) of
                               Inl e \<Rightarrow> (Inl e, w1)
                             | Inr gs \<Rightarrow>
                                 (Inr (newId, getDoc newId gs),
                                  w1\<lparr>db := Some (database\<lparr>gameResults := gs\<rparr>)\<rparr>))))))"

section \<open>Host page: closing a question\<close>

text \<open>
  The state of \<^verbatim>\<open>HostPage\<close> that \<^verbatim>\<open>handleOpen\<close> reads. The handler catches every error
  and returns nothing, so the model returns the world only.
\<close>

record host_page =
  hp_room :: "(doc_id \<times> room_doc) option"
  hp_currentQuestion :: "(doc_id \<times> question_doc) option"
  hp_user :: "string option"
  hp_answers :: "(doc_id \<times> answer_doc) list"

definition handleOpen :: "env \<Rightarrow> doc_id \<Rightarrow> timestamp \<Rightarrow> doc_id \<Rightarrow> host_page \<Rightarrow> world \<Rightarrow> world" where
  "handleOpen ev newId now roomId hp w =
     (case (hp_room hp, hp_currentQuestion hp, hp_user hp) of
        (Some room, Some currentQuestion, Some uid) \<Rightarrow>
          (case saveGameResult ev newId now roomId (roomCode (snd room)) uid currentQuestion
                  (hp_answers hp) w of
             (Inl e, w1) \<Rightarrow> w1
           | (Inr r, w1) \<Rightarrow> snd (openAnswers roomId w1))
      | _ \<Rightarrow> w)"

section \<open>Sequences of store calls\<close>

text \<open>The five status-writing calls on one room, with the environment each one reads.\<close>

datatype room_op =
    CreateQuestion env doc_id timestamp string "(string \<times> blob) option"
  | OpenAnswers
  | ResetRoomToWaiting
  | EndRoom
  | UpdateRoomStatus room_status

fun apply_room_op :: "doc_id \<Rightarrow> room_op \<Rightarrow> world \<Rightarrow> unit result" where
  "apply_room_op roomId (CreateQuestion ev newId now text imageFile) w =
     (case createQuestion ev newId now roomId text imageFile w of (r, w') \<Rightarrow> (map_sum id (\<lambda>x. ()) r, w'))"
| "apply_room_op roomId OpenAnswers w = openAnswers roomId w"
| "apply_room_op roomId ResetRoomToWaiting w = resetRoomToWaiting roomId w"
| "apply_room_op roomId EndRoom w = endRoom roomId w"
| "apply_room_op roomId (UpdateRoomStatus st) w = updateRoomStatus roomId st w"

definition run_room_ops :: "doc_id \<Rightarrow> room_op list \<Rightarrow> world \<Rightarrow> world" where
  "run_room_ops roomId ops w = foldl (\<lambda>w' op. snd (apply_room_op roomId op w')) w ops"

definition room_status_of :: "doc_id \<Rightarrow> world \<Rightarrow> room_status option" where
  "room_status_of roomId w =
     (case db w of None \<Rightarrow> None | Some database \<Rightarrow> map_option status (getDoc roomId (rooms database)))"

text \<open>The status each call writes.\<close>

fun written_status :: "room_op \<Rightarrow> room_status" where
  "written_status (CreateQuestion ev newId now text imageFile) = Questioning"
| "written_status OpenAnswers = Open"
| "written_status ResetRoomToWaiting = Waiting"
| "written_status EndRoom = Ended"
| "written_status (UpdateRoomStatus st) = st"

text \<open>
  The transitions the specification allows, from its words: forward along
  waiting, questioning, open; back from open to waiting; into ended from anywhere; and
  nothing out of ended. Staying in a status is allowed.
\<close>

definition spec_transition :: "room_status \<Rightarrow> room_status \<Rightarrow> bool" where
  "spec_transition st st' =
     (st = st' \<or> (st \<noteq> Ended \<and> st' = Ended) \<or> (st = Waiting \<and> st' = Questioning) \<or>
      (st = Questioning \<and> st' = Open) \<or> (st = Open \<and> st' = Waiting))"

text \<open>One \<^verbatim>\<open>submitAnswer\<close> call: the generated id, the server time and the arguments.\<close>

record submit_call =
  sc_newId :: doc_id
  sc_now :: timestamp
  sc_questionId :: doc_id
  sc_odId :: string
  sc_displayName :: string
  sc_canvasData :: string

definition submit :: "doc_id \<Rightarrow> submit_call \<Rightarrow> world \<Rightarrow> (doc_id \<times> answer_doc option) result" where
  "submit roomId c w =
     submitAnswer (sc_newId c) (sc_now c) roomId (sc_questionId c) (sc_odId c)
       (sc_displayName c) (sc_canvasData c) w"

definition run_submits :: "doc_id \<Rightarrow> submit_call list \<Rightarrow> world \<Rightarrow> world" where
  "run_submits roomId cs w = foldl (\<lambda>w' c. snd (submit roomId c w')) w cs"

definition answers_of :: "doc_id \<Rightarrow> world \<Rightarrow> answer_doc collection" where
  "answers_of roomId w = (case db w of None \<Rightarrow> [] | Some database \<Rightarrow> answers database roomId)"

definition answers_for :: "doc_id \<Rightarrow> doc_id \<Rightarrow> string \<Rightarrow> world \<Rightarrow> answer_doc collection" where
  "answers_for roomId qId odId w =
     getDocs_where (\<lambda>a. questionId a = qId \<and> a_odId a = odId) (answers_of roomId w)"

definition participants_of :: "doc_id \<Rightarrow> world \<Rightarrow> participant_doc collection" where
  "participants_of roomId w = (case db w of None \<Rightarrow> [] | Some database \<Rightarrow> participants database roomId)"

definition bans_of :: "doc_id \<Rightarrow> world \<Rightarrow> banned_doc collection" where
  "bans_of roomId w = (case db w of None \<Rightarrow> [] | Some database \<Rightarrow> bannedUsers database roomId)"

definition empty_firestore :: firestore where
  "empty_firestore = \<lparr>rooms = [], participants = (\<lambda>r. []), bannedUsers = (\<lambda>r. []),
     questions = (\<lambda>r. []), answers = (\<lambda>r. []), gameResults = []\<rparr>"

definition empty_world :: world where
  "empty_world = \<lparr>db = Some empty_firestore, storage = Some (\<lambda>p. None)\<rparr>"

section \<open>Notions used in the statements\<close>

text \<open>What the loop does to the four bytes that start at \<open>q\<close>.\<close>

definition pixel_ok :: "byte list \<Rightarrow> byte list \<Rightarrow> nat \<Rightarrow> bool" where
  "pixel_ok d out q =
     (if d ! q < 128 \<and> d ! (q + 1) < 128 \<and> d ! (q + 2) < 128
      then out ! q = 255 \<and> out ! (q + 1) = 255 \<and> out ! (q + 2) = 255 \<and> out ! (q + 3) = d ! (q + 3)
      else out ! q = d ! q \<and> out ! (q + 1) = d ! (q + 1) \<and> out ! (q + 2) = d ! (q + 2) \<and> out ! (q + 3) = 0)"

text \<open>The pixel \<open>p\<close> of a flat RGBA array.\<close>

definition pixel_at :: "byte list \<Rightarrow> nat \<Rightarrow> byte \<times> byte \<times> byte \<times> byte" where
  "pixel_at d p = (d ! (4 * p), d ! (4 * p + 1), d ! (4 * p + 2), d ! (4 * p + 3))"

definition recolored_pixel :: "byte \<times> byte \<times> byte \<times> byte \<Rightarrow> byte \<times> byte \<times> byte \<times> byte" where
  "recolored_pixel px =
     (case px of (r, g, b, a) \<Rightarrow>
        if r < 128 \<and> g < 128 \<and> b < 128 then (255, 255, 255, a) else (r, g, b, 0))"

text \<open>The state a mounted surface is always in.\<close>

definition wf_surface :: "'r surface \<Rightarrow> bool" where
  "wf_surface s = (has_context s \<and> 0 \<le> historyIndex s \<and> historyIndex s < int (length (history s))
     \<and> length (history s) \<le> 50)"

text \<open>
  The maximum \<open>requestJoinRoom\<close> compares with: the room's \<open>maxParticipants\<close>, or
  \<open>MAX_PARTICIPANTS\<close> when that is 0 or the room document is missing.
\<close>

definition effective_max :: "firestore \<Rightarrow> doc_id \<Rightarrow> int" where
  "effective_max database roomId =
     (case getDoc roomId (rooms database) of
        None \<Rightarrow> MAX_PARTICIPANTS
      | Some roomData \<Rightarrow>
          if maxParticipants roomData = 0 then MAX_PARTICIPANTS else maxParticipants roomData)"

text \<open>The identity has a ban record in the room.\<close>

definition has_ban :: "doc_id \<Rightarrow> string \<Rightarrow> world \<Rightarrow> bool" where
  "has_ban roomId odId w = (\<exists>ban \<in> set (bans_of roomId w). b_odId (snd ban) = odId)"

text \<open>Concrete worlds: one room \<open>r1\<close> with a maximum, participants and bans.\<close>

definition example_room :: "int \<Rightarrow> room_doc" where
  "example_room m = \<lparr>hostId = ''host'', roomCode = ''SSSSSS'', status = Waiting,
     currentQuestionId = None, maxParticipants = m, createdAt = 0\<rparr>"

definition example_participant :: "string \<Rightarrow> timestamp \<Rightarrow> participant_doc" where
  "example_participant odId t = \<lparr>p_roomId = ''r1'', p_odId = odId, p_displayName = ''Name'',
     p_photoURL = None, p_status = Approved, joinedAt = t\<rparr>"

definition example_ban :: "string \<Rightarrow> banned_doc" where
  "example_ban odId = \<lparr>b_odId = odId, b_displayName = ''Name'', b_photoURL = None, bannedAt = 2\<rparr>"

definition example_db :: "int \<Rightarrow> participant_doc collection \<Rightarrow> banned_doc collection \<Rightarrow> firestore" where
  "example_db m ps bs = empty_firestore\<lparr>rooms := [(''r1'', example_room m)],
     participants := (\<lambda>r. [])(''r1'' := ps), bannedUsers := (\<lambda>r. [])(''r1'' := bs)\<rparr>"

definition example_world :: "int \<Rightarrow> participant_doc collection \<Rightarrow> banned_doc collection \<Rightarrow> world" where
  "example_world m ps bs = \<lparr>db = Some (example_db m ps bs), storage = Some (\<lambda>p. None)\<rparr>"

text \<open>Two worlds reached through the store functions from the empty database.\<close>

definition zero_max_world :: world where
  "zero_max_world = snd (createRoom (\<lambda>k. 1 / 2) ''r1'' 0 ''host'' 0 empty_world)"

definition banned_member_world :: world where
  "banned_member_world =
     snd (kickParticipant ''b1'' 2 ''r1'' ''p9'' ''alice'' ''Name'' None
       (snd (requestJoinRoom ''p1'' 7 ''r1'' ''alice'' ''Name'' None
         (snd (createRoom (\<lambda>k. 1 / 2) ''r1'' 0 ''host'' 1 empty_world)))))"

text \<open>
  The update a resubmission writes, the collection after it, the record a first
  submission creates, and the query filter of \<open>submitAnswer\<close>.
\<close>

definition redraw :: "string \<Rightarrow> timestamp \<Rightarrow> answer_doc \<Rightarrow> answer_doc" where
  "redraw cData now a = a\<lparr>canvasData := cData, updatedAt := now\<rparr>"

definition redraw_at :: "doc_id \<Rightarrow> string \<Rightarrow> timestamp \<Rightarrow> answer_doc collection \<Rightarrow> answer_doc collection" where
  "redraw_at i cData now c = map (\<lambda>(j, d). if j = i then (j, redraw cData now d) else (j, d)) c"

definition new_answer :: "doc_id \<Rightarrow> string \<Rightarrow> string \<Rightarrow> string \<Rightarrow> timestamp \<Rightarrow> answer_doc" where
  "new_answer qId odId displayName cData now =
     \<lparr>questionId = qId, a_odId = odId, a_displayName = displayName, canvasData = cData,
      isCorrect = False, isRevealed = False, updatedAt = now\<rparr>"

definition same_pair :: "doc_id \<Rightarrow> string \<Rightarrow> answer_doc \<Rightarrow> bool" where
  "same_pair qId odId a = (questionId a = qId \<and> a_odId a = odId)"

text \<open>At most one answer per question and identity in the room.\<close>

definition at_most_one :: "doc_id \<Rightarrow> world \<Rightarrow> bool" where
  "at_most_one roomId w = (\<forall>qId odId. length (answers_for roomId qId odId w) \<le> 1)"

text \<open>The fields of an answer that a resubmission must keep, with the record's id.\<close>

definition kept_fields :: "doc_id \<times> answer_doc \<Rightarrow> doc_id \<times> doc_id \<times> string \<times> string \<times> bool \<times> bool" where
  "kept_fields x = (fst x, questionId (snd x), a_odId (snd x), a_displayName (snd x),
     isCorrect (snd x), isRevealed (snd x))"

definition redraw_entry :: "doc_id \<Rightarrow> string \<Rightarrow> timestamp \<Rightarrow> doc_id \<times> answer_doc \<Rightarrow> doc_id \<times> answer_doc" where
  "redraw_entry i cData now x = (if fst x = i then (fst x, redraw cData now (snd x)) else x)"

text \<open>A world with one answer that the host has marked correct and revealed.\<close>

definition marked_answer :: answer_doc where
  "marked_answer = \<lparr>questionId = ''q1'', a_odId = ''alice'', a_displayName = ''Name'',
     canvasData = ''d1'', isCorrect = True, isRevealed = True, updatedAt = 10\<rparr>"

definition marked_world :: world where
  "marked_world = \<lparr>db = Some (empty_firestore\<lparr>answers := (\<lambda>r. [])(''r1'' := [(''a1'', marked_answer)])\<rparr>),
     storage = Some (\<lambda>p. None)\<rparr>"

text \<open>An environment in which every upload succeeds.\<close>

definition example_env :: env where
  "example_env = \<lparr>atob = Some, match_mime = (\<lambda>s. None), upload_ok = (\<lambda>p. True),
     url_of = (\<lambda>p. p), date_now = (\<lambda>k. 0)\<rparr>"

text \<open>A room just created, through \<open>createRoom\<close> on the empty database.\<close>

definition created_world :: world where
  "created_world = snd (createRoom (\<lambda>k. 1 / 2) ''r1'' 0 ''host'' 10 empty_world)"

text \<open>The outcome of a callback after \<open>k\<close> clock reads; it does not depend on the blob store.\<close>

definition outcome :: "env \<Rightarrow> nat \<Rightarrow> doc_id \<Rightarrow> doc_id \<Rightarrow> (doc_id \<times> answer_doc) \<Rightarrow> game_result_answer settled" where
  "outcome ev k roomId qid answer = fst (upload_answer ev k roomId qid answer (\<lambda>p. None))"

text \<open>
  Whether an answer's drawing decodes, how many of a list do (each reads the clock once),
  the path the \<open>j\<close>-th answer of the list is uploaded to when \<open>k\<close> reads came before
  the list, and whether that upload goes through.
\<close>

definition decodes :: "env \<Rightarrow> (doc_id \<times> answer_doc) \<Rightarrow> bool" where
  "decodes ev answer = (base64ToBlob ev (canvasData (snd answer)) \<noteq> None)"

definition clock_reads :: "env \<Rightarrow> (doc_id \<times> answer_doc) list \<Rightarrow> nat" where
  "clock_reads ev as = length (filter (decodes ev) as)"

definition path_from :: "env \<Rightarrow> nat \<Rightarrow> doc_id \<Rightarrow> doc_id \<Rightarrow> (doc_id \<times> answer_doc) list \<Rightarrow> nat \<Rightarrow> string" where
  "path_from ev k roomId qid as j =
     history_path ev (k + clock_reads ev (take j as)) roomId qid (a_odId (snd (as ! j)))"

definition uploaded_from :: "env \<Rightarrow> nat \<Rightarrow> doc_id \<Rightarrow> doc_id \<Rightarrow> (doc_id \<times> answer_doc) list \<Rightarrow> nat \<Rightarrow> bool" where
  "uploaded_from ev k roomId qid as j =
     (decodes ev (as ! j) \<and> upload_ok ev (path_from ev k roomId qid as j))"

definition answer_path :: "env \<Rightarrow> doc_id \<Rightarrow> doc_id \<Rightarrow> (doc_id \<times> answer_doc) list \<Rightarrow> nat \<Rightarrow> string" where
  "answer_path ev roomId qid as j = path_from ev 0 roomId qid as j"

definition uploaded :: "env \<Rightarrow> doc_id \<Rightarrow> doc_id \<Rightarrow> (doc_id \<times> answer_doc) list \<Rightarrow> nat \<Rightarrow> bool" where
  "uploaded ev roomId qid as j = uploaded_from ev 0 roomId qid as j"

text \<open>The blob the store holds at a path, if any.\<close>

definition blob_at :: "world \<Rightarrow> string \<Rightarrow> blob option" where
  "blob_at w path = (case storage w of None \<Rightarrow> None | Some st \<Rightarrow> st path)"

text \<open>
  The decoded drawing of an answer, and that no other answer of the list is uploaded to
  the path of the \<open>j\<close>-th.
\<close>

definition drawing_of :: "env \<Rightarrow> (doc_id \<times> answer_doc) \<Rightarrow> blob option" where
  "drawing_of ev answer = base64ToBlob ev (canvasData (snd answer))"

definition alone :: "env \<Rightarrow> doc_id \<Rightarrow> doc_id \<Rightarrow> (doc_id \<times> answer_doc) list \<Rightarrow> nat \<Rightarrow> bool" where
  "alone ev roomId qid as j =
     (\<forall>i<length as. i \<noteq> j \<and> uploaded ev roomId qid as i
        \<longrightarrow> answer_path ev roomId qid as i \<noteq> answer_path ev roomId qid as j)"

text \<open>The history collection, and whether the blob store holds a blob at a path.\<close>

definition game_results_of :: "world \<Rightarrow> game_result_doc collection" where
  "game_results_of w = (case db w of None \<Rightarrow> [] | Some database \<Rightarrow> gameResults database)"

definition stored :: "world \<Rightarrow> string \<Rightarrow> bool" where
  "stored w path = (case storage w of None \<Rightarrow> False | Some st \<Rightarrow> st path \<noteq> None)"

text \<open>A question, an answer and the host page for the room \<open>r1\<close>.\<close>

definition example_question :: question_doc where
  "example_question = \<lparr>q_roomId = ''r1'', q_text = ''Q?'', q_imageURL = None, q_createdAt = 3\<rparr>"

definition example_answer :: "string \<Rightarrow> answer_doc" where
  "example_answer odId = \<lparr>questionId = ''q1'', a_odId = odId, a_displayName = ''Name'',
     canvasData = ''data:image/png;base64,AAAA'', isCorrect = False, isRevealed = False, updatedAt = 4\<rparr>"

definition example_host_page :: "(doc_id \<times> answer_doc) list \<Rightarrow> host_page" where
  "example_host_page as = \<lparr>hp_room = Some (''r1'', example_room 10),
     hp_currentQuestion = Some (''q1'', example_question), hp_user = Some ''host'', hp_answers = as\<rparr>"

text \<open>An environment in which only the uploads for \<open>alice\<close> succeed.\<close>

definition alice_only_env :: env where
  "alice_only_env = example_env\<lparr>upload_ok :=
     (\<lambda>p. p = history_path example_env 0 ''r1'' ''q1'' ''alice'')\<rparr>"

text \<open>
  An environment in which \<^verbatim>\<open>atob\<close> accepts the string \<open>AAAA\<close> only, the upload for
  \<open>carol\<close> fails, and the clock advances by 100 with each read; and an answer whose
  drawing does not decode there.
\<close>

definition decode_env :: env where
  "decode_env = \<lparr>atob = (\<lambda>s. if s = ''AAAA'' then Some s else None), match_mime = (\<lambda>s. None),
     upload_ok = (\<lambda>p. p \<noteq> ''history/r1/q1/carol_100.png''), url_of = (\<lambda>p. p),
     date_now = (\<lambda>k. 100 * (k + 1))\<rparr>"

definition bad_answer :: "string \<Rightarrow> answer_doc" where
  "bad_answer odId = (example_answer odId)\<lparr>canvasData := ''data:image/png;base64,%%%%''\<rparr>"

section \<open>The recolor transform, pixel by pixel\<close>

lemma length_recolor_loop: "length (recolor_loop i d) = length d"
  by (induction i d rule: recolor_loop.induct)
     (subst recolor_loop.simps, simp add: Let_def)

lemma recolor_loop_below: "j < i \<Longrightarrow> recolor_loop i d ! j = d ! j"
  by (induction i d rule: recolor_loop.induct)
     (subst recolor_loop.simps, simp add: Let_def)

lemma pixel_ok_cong:
  "d' ! q = d ! q \<Longrightarrow> d' ! (q + 1) = d ! (q + 1) \<Longrightarrow> d' ! (q + 2) = d ! (q + 2) \<Longrightarrow>
   d' ! (q + 3) = d ! (q + 3) \<Longrightarrow> pixel_ok d' out q \<Longrightarrow> pixel_ok d out q"
  unfolding pixel_ok_def by presburger

lemma recolor_loop_here:
  "q + 3 < length d \<Longrightarrow> pixel_ok d (recolor_loop q d) q"
  by (subst recolor_loop.simps)
     (simp add: Let_def rd_def pixel_ok_def recolor_loop_below)

lemma recolor_loop_pixel:
  "i \<le> q \<Longrightarrow> (q - i) mod 4 = 0 \<Longrightarrow> q + 3 < length d \<Longrightarrow> pixel_ok d (recolor_loop i d) q"
proof (induction i d rule: recolor_loop.induct)
  case (1 i d)
  have il: "i < length d" using "1.prems" by simp
  show ?case
  proof (cases "q = i")
    case True
    then show ?thesis using "1.prems"(3) recolor_loop_here by simp
  next
    case False
    then have q4: "i + 4 \<le> q" using "1.prems"(1,2) by presburger
    have m: "(q - (i + 4)) mod 4 = 0" using "1.prems"(2) q4 by presburger
    show ?thesis
    proof (cases "below128 (rd d i) \<and> below128 (rd d (i + 1)) \<and> below128 (rd d (i + 2))")
      case True
      define d' where "d' = d[i := 255, i + 1 := 255, i + 2 := 255]"
      have step: "recolor_loop i d = recolor_loop (i + 4) d'"
        using True il by (subst recolor_loop.simps) (simp add: Let_def d'_def)
      have "pixel_ok d' (recolor_loop (i + 4) d') q"
        using "1.IH"(1)[OF il refl refl refl True q4 m] "1.prems"(3) by (simp add: d'_def)
      moreover have "d' ! q = d ! q" "d' ! (q + 1) = d ! (q + 1)"
        "d' ! (q + 2) = d ! (q + 2)" "d' ! (q + 3) = d ! (q + 3)"
        using q4 by (simp_all add: d'_def)
      ultimately show ?thesis unfolding step by (rule pixel_ok_cong[rotated 4])
    next
      case dark: False
      define d' where "d' = d[i + 3 := 0]"
      have step: "recolor_loop i d = recolor_loop (i + 4) d'"
        using dark il by (subst recolor_loop.simps) (auto simp add: Let_def d'_def)
      have "pixel_ok d' (recolor_loop (i + 4) d') q"
        using "1.IH"(2)[OF il refl refl refl dark q4 m] "1.prems"(3) by (simp add: d'_def)
      moreover have "d' ! q = d ! q" "d' ! (q + 1) = d ! (q + 1)"
        "d' ! (q + 2) = d ! (q + 2)" "d' ! (q + 3) = d ! (q + 3)"
        using q4 by (simp_all add: d'_def)
      ultimately show ?thesis unfolding step by (rule pixel_ok_cong[rotated 4])
    qed
  qed
qed

lemma draw_answer_size:
  "draw_answer fill blit decode has_ctx has_temp_ctx st revealed correct cd (Some cv) = Some cv' \<Longrightarrow>
   c_width cv' = c_width cv \<and> c_height cv' = c_height cv"
  by (auto simp: draw_answer_def Let_def split: if_splits option.splits)

lemma draw_answer_Some:
  "\<exists>cv'. draw_answer fill blit decode has_ctx has_temp_ctx st revealed correct cd (Some cv) = Some cv'"
  by (auto simp: draw_answer_def Let_def split: if_splits option.splits)

lemma recolor_pixel_at:
  assumes "4 * p + 3 < length (data im)"
  shows "pixel_at (data (recolor im)) p = recolored_pixel (pixel_at (data im) p)"
proof -
  have ok: "pixel_ok (data im) (recolor_loop 0 (data im)) (4 * p)"
    using assms by (intro recolor_loop_pixel) simp_all
  show ?thesis
  proof (cases "data im ! (4 * p) < 128 \<and> data im ! (4 * p + 1) < 128 \<and> data im ! (4 * p + 2) < 128")
    case True
    with ok show ?thesis
      unfolding pixel_ok_def pixel_at_def recolored_pixel_def recolor_def by simp
  next
    case False
    with ok show ?thesis
      unfolding pixel_ok_def pixel_at_def recolored_pixel_def recolor_def by auto
  qed
qed

text \<open>
  C1 (as the claim states it, refuted). A dark pixel keeps its alpha: the source pixel
  (0, 0, 0, 0), dark and transparent, comes out as (255, 255, 255, 0), which is white but
  not opaque.
\<close>

theorem recolor_dark_transparent_counterexample:
  "pixel_at (data (recolor \<lparr>img_width = 1, img_height = 1, data = [0, 0, 0, 0]\<rparr>)) 0 = (255, 255, 255, 0)
   \<and> (0 :: byte) < 128 \<and> (0 :: byte) \<noteq> 255"
  by (simp add: recolor_def pixel_at_def recolor_loop.simps rd_def)

text \<open>
  C1 (amended). For every complete pixel of the source raster: if r, g and b are all
  below 128 the output pixel is white with the alpha of the source pixel (so opaque white
  exactly when the source pixel is opaque); otherwise the output pixel keeps r, g, b and
  has alpha 0. The raster keeps its length and size. Drawing on a card canvas leaves it
  320 by 240 whatever the size of the source image.
\<close>

theorem recolor_pixels:
  "(4 * p + 3 < length (data im) \<longrightarrow>
      pixel_at (data (recolor im)) p = recolored_pixel (pixel_at (data im) p))
   \<and> (r < 128 \<and> g < 128 \<and> b < 128 \<longrightarrow> recolored_pixel (r, g, b, a) = (255, 255, 255, a))
   \<and> (\<not> (r < 128 \<and> g < 128 \<and> b < 128) \<longrightarrow> recolored_pixel (r, g, b, a) = (r, g, b, 0))
   \<and> length (data (recolor im)) = length (data im)
   \<and> img_width (recolor im) = img_width im \<and> img_height (recolor im) = img_height im
   \<and> (\<exists>cv'. draw_answer fill blit decode has_ctx has_temp_ctx st revealed correct cd
               (Some (card_canvas px)) = Some cv'
             \<and> c_width cv' = 320 \<and> c_height cv' = 240)"
proof -
  obtain cv' where cv': "draw_answer fill blit decode has_ctx has_temp_ctx st revealed correct cd
      (Some (card_canvas px)) = Some cv'"
    using draw_answer_Some by blast
  have size: "c_width cv' = 320 \<and> c_height cv' = 240"
    using draw_answer_size[OF cv'] by (simp add: card_canvas_def)
  have dark: "r < 128 \<and> g < 128 \<and> b < 128 \<longrightarrow> recolored_pixel (r, g, b, a) = (255, 255, 255, a)"
    by (simp add: recolored_pixel_def)
  have light: "\<not> (r < 128 \<and> g < 128 \<and> b < 128) \<longrightarrow> recolored_pixel (r, g, b, a) = (r, g, b, 0)"
    by (simp add: recolored_pixel_def)
  have len: "length (data (recolor im)) = length (data im)"
    by (simp add: recolor_def length_recolor_loop)
  have dims: "img_width (recolor im) = img_width im \<and> img_height (recolor im) = img_height im"
    by (simp add: recolor_def)
  from cv' size dark light len dims recolor_pixel_at show ?thesis by blast
qed

theorem recolor_pixels_witness:
  "4 * 1 + 3 < length (data \<lparr>img_width = 2, img_height = 1, data = [10, 20, 30, 255, 10, 200, 30, 255]\<rparr>)
   \<and> (10 :: byte) < 128 \<and> (20 :: byte) < 128 \<and> (30 :: byte) < 128 \<and> \<not> (200 :: byte) < 128
   \<and> pixel_at (data (recolor \<lparr>img_width = 2, img_height = 1, data = [10, 20, 30, 255, 10, 200, 30, 255]\<rparr>)) 1
       = recolored_pixel (10, 200, 30, 255)
   \<and> recolored_pixel (10, 20, 30, 255) = (255, 255, 255, 255)
   \<and> recolored_pixel (10, 200, 30, 255) = (10, 200, 30, 0)"
proof -
  let ?im = "\<lparr>img_width = 2, img_height = 1, data = [10, 20, 30, 255, 10, 200, 30, 255]\<rparr>"
  have h: "4 * 1 + 3 < length (data ?im)" by simp
  have px: "pixel_at (data (recolor ?im)) 1 = recolored_pixel (pixel_at (data ?im) 1)"
    using recolor_pixels [where p = 1 and im = ?im, THEN conjunct1] h by blast
  have dark: "recolored_pixel (10, 20, 30, 255) = (255, 255, 255, 255)"
    using recolor_pixels [where r = 10 and g = 20 and b = 30 and a = 255,
        THEN conjunct2, THEN conjunct1]
    by simp
  have light: "recolored_pixel (10, 200, 30, 255) = (10, 200, 30, 0)"
    using recolor_pixels [where r = 10 and g = 200 and b = 30 and a = 255,
        THEN conjunct2, THEN conjunct2, THEN conjunct1]
    by simp
  from h px dark light show ?thesis by (simp add: pixel_at_def)
qed

section \<open>The undo history of the drawing surface\<close>

lemma wf_initialise: "wf_surface (initialise True True fillBg s)"
  by (simp add: wf_surface_def initialise_def Let_def)

lemma initialise_failed: "\<not> (canvas \<and> ctx) \<Longrightarrow> initialise canvas ctx fillBg s = s"
  by (auto simp: initialise_def)

lemma slice0_stack: "0 \<le> historyIndex s \<Longrightarrow> slice0 (historyIndex s + 1) (history s) = undo_stack s"
  by (simp add: slice0_def undo_stack_def)

lemma length_undo_stack: "wf_surface s \<Longrightarrow> length (undo_stack s) = nat (historyIndex s + 1)"
  by (auto simp: wf_surface_def undo_stack_def)

lemma saveToHistory_wf: "wf_surface s \<Longrightarrow> wf_surface (saveToHistory s)"
  using length_undo_stack[of s]
  by (auto simp: wf_surface_def saveToHistory_def Let_def slice0_stack)

lemma saveToHistory_stack:
  assumes "wf_surface s"
  shows "undo_stack (saveToHistory s) = push50 (undo_stack s) (raster s)"
proof -
  have len: "length (undo_stack s) = nat (historyIndex s + 1)" "undo_stack s \<noteq> []"
    using length_undo_stack[OF assms] assms by (auto simp: wf_surface_def)
  have le: "length (undo_stack s) \<le> 50" using assms len unfolding wf_surface_def by linarith
  show ?thesis
  proof (cases "length (undo_stack s) < 50")
    case True
    then show ?thesis using assms
      by (simp add: saveToHistory_def Let_def slice0_stack wf_surface_def push50_def undo_stack_def[of "_\<lparr>history := _, historyIndex := _\<rparr>"])
  next
    case False
    then have "length (undo_stack s) = 50" using le by simp
    then show ?thesis using assms len(2)
      by (simp add: saveToHistory_def Let_def slice0_stack wf_surface_def push50_def undo_stack_def[of "_\<lparr>history := _, historyIndex := _\<rparr>"])
  qed
qed

lemma saveToHistory_raster: "raster (saveToHistory s) = raster s"
  by (simp add: saveToHistory_def Let_def)

lemma handleUndo_wf: "wf_surface s \<Longrightarrow> wf_surface (handleUndo s)"
  by (auto simp: wf_surface_def handleUndo_def Let_def)

lemma handleUndo_stack:
  assumes "wf_surface s" "0 < historyIndex s"
  shows "undo_stack (handleUndo s) = butlast (undo_stack s)"
    and "raster (handleUndo s) = last (butlast (undo_stack s))"
proof -
  obtain k where k: "historyIndex s = int (Suc k)"
    using assms(2) by (metis Suc_pred' zero_less_nat_eq int_nat_eq less_imp_le)
  have kl: "Suc k < length (history s)" using assms(1) k by (simp add: wf_surface_def)
  have "nat (historyIndex s + 1) = Suc (Suc k)" using k by linarith
  then have st: "undo_stack s = take (Suc (Suc k)) (history s)"
    by (simp add: undo_stack_def)
  have bl: "butlast (undo_stack s) = take (Suc k) (history s)"
    using kl by (simp add: st butlast_take)
  have un: "handleUndo s = s\<lparr>historyIndex := int k, raster := history s ! k\<rparr>"
    using assms kl k by (simp add: handleUndo_def Let_def wf_surface_def)
  have "nat (int k + 1) = Suc k" by linarith
  then have "undo_stack (handleUndo s) = take (Suc k) (history s)"
    by (simp add: un undo_stack_def)
  then show "undo_stack (handleUndo s) = butlast (undo_stack s)"
    using bl by simp
  have "take (Suc k) (history s) = take k (history s) @ [history s ! k]"
    using kl by (simp add: take_Suc_conv_app_nth)
  then show "raster (handleUndo s) = last (butlast (undo_stack s))"
    by (simp add: un bl)
qed

lemma handle_wf: "wf_surface s \<Longrightarrow> wf_surface (handle disabled fillBg s e)"
proof (cases e)
  case StartDrawing then show "wf_surface s \<Longrightarrow> ?thesis" by (simp add: startDrawing_def wf_surface_def)
next
  case (Draw f) then show "wf_surface s \<Longrightarrow> ?thesis" by (simp add: draw_def wf_surface_def)
next
  case StopDrawing
  assume w: "wf_surface s"
  then have "wf_surface (s\<lparr>isDrawing := False\<rparr>)" by (simp add: wf_surface_def)
  then show ?thesis using StopDrawing w by (auto simp: stopDrawing_def intro: saveToHistory_wf)
next
  case Undo then show "wf_surface s \<Longrightarrow> ?thesis" by (simp add: handleUndo_wf)
next
  case Clear
  assume w: "wf_surface s"
  then have "wf_surface (s\<lparr>raster := fillBg (raster s)\<rparr>)" by (simp add: wf_surface_def)
  then show ?thesis using Clear w by (auto simp: handleClear_def intro: saveToHistory_wf)
qed

lemma foldl_handle_wf: "wf_surface s \<Longrightarrow> wf_surface (foldl (handle disabled fillBg) s evs)"
  by (induction evs arbitrary: s) (simp_all add: handle_wf)

lemma surface_after_wf: "wf_surface (surface_after True True disabled fillBg r evs)"
  by (simp add: surface_after_def foldl_handle_wf wf_initialise)

lemma handle_unmounted: "handle disabled fillBg (unmounted r) e = unmounted r"
  by (cases e)
     (simp_all add: unmounted_def startDrawing_def draw_def stopDrawing_def handleUndo_def
        handleClear_def)

lemma foldl_handle_unmounted: "foldl (handle disabled fillBg) (unmounted r) evs = unmounted r"
  by (induction evs) (simp_all add: handle_unmounted)

lemma surface_after_failed:
  "\<not> (canvas \<and> ctx) \<Longrightarrow> surface_after canvas ctx disabled fillBg r evs = unmounted r"
  by (simp add: surface_after_def initialise_failed foldl_handle_unmounted)

text \<open>
  C8. In every state the surface reaches after the mount effect and any events, the
  history holds at most 50 rasters. The surface has a context exactly when the mount
  found a canvas and got a context. With a context: the undo stack is not empty;
  \<open>stopDrawing\<close> after a stroke appends the current raster to the stack, and so does
  \<open>handleClear\<close> with the cleared raster (at the bound the oldest entry is dropped);
  \<open>handleUndo\<close> removes the top of the stack and puts the entry below it on the canvas,
  and with a single entry it does nothing. Without a context the surface stays as
  it was before mounting (empty history) and every handler returns at once.
\<close>

theorem undo_history:
  "length (history (surface_after canvas ctx disabled fillBg r evs)) \<le> 50
   \<and> length (undo_stack (surface_after canvas ctx disabled fillBg r evs)) \<le> 50
   \<and> (\<forall>s. s = surface_after canvas ctx disabled fillBg r evs \<longrightarrow>
         has_context s = (canvas \<and> ctx)
       \<and> (has_context s \<longrightarrow>
             undo_stack s \<noteq> []
           \<and> (isDrawing s \<longrightarrow> undo_stack (stopDrawing s) = push50 (undo_stack s) (raster s))
           \<and> undo_stack (handleClear fillBg s) = push50 (undo_stack s) (fillBg (raster s))
           \<and> (0 < historyIndex s \<longrightarrow>
                undo_stack (handleUndo s) = butlast (undo_stack s)
              \<and> raster (handleUndo s) = last (butlast (undo_stack s))))
       \<and> (\<not> has_context s \<longrightarrow>
             s = unmounted r \<and> history s = [] \<and> stopDrawing s = s
           \<and> handleClear fillBg s = s \<and> handleUndo s = s)
       \<and> (\<not> isDrawing s \<longrightarrow> stopDrawing s = s)
       \<and> (historyIndex s \<le> 0 \<longrightarrow> handleUndo s = s))"
proof (cases "canvas \<and> ctx")
  case True
  define s where "s = surface_after canvas ctx disabled fillBg r evs"
  have wf: "wf_surface s" unfolding s_def using True surface_after_wf by simp
  have hc: "has_context s" using wf by (simp add: wf_surface_def)
  have a: "length (history s) \<le> 50" using wf by (simp add: wf_surface_def)
  have b: "undo_stack s \<noteq> []" using wf by (auto simp: wf_surface_def undo_stack_def)
  have c: "length (undo_stack s) \<le> 50" using a by (simp add: undo_stack_def)
  have wf1: "wf_surface (s\<lparr>isDrawing := False\<rparr>)" using wf by (simp add: wf_surface_def)
  have d: "isDrawing s \<longrightarrow> undo_stack (stopDrawing s) = push50 (undo_stack s) (raster s)"
    using saveToHistory_stack[OF wf1] by (simp add: stopDrawing_def undo_stack_def)
  have e: "\<not> isDrawing s \<longrightarrow> stopDrawing s = s" by (simp add: stopDrawing_def)
  have wf2: "wf_surface (s\<lparr>raster := fillBg (raster s)\<rparr>)" using wf by (simp add: wf_surface_def)
  have f: "undo_stack (handleClear fillBg s) = push50 (undo_stack s) (fillBg (raster s))"
    using saveToHistory_stack[OF wf2] wf by (simp add: handleClear_def undo_stack_def wf_surface_def)
  have g: "0 < historyIndex s \<longrightarrow>
            undo_stack (handleUndo s) = butlast (undo_stack s)
          \<and> raster (handleUndo s) = last (butlast (undo_stack s))"
    using handleUndo_stack[OF wf] by blast
  have h: "historyIndex s \<le> 0 \<longrightarrow> handleUndo s = s" by (simp add: handleUndo_def)
  from True hc a b c d e f g h show ?thesis unfolding s_def by blast
next
  case False
  have s: "surface_after canvas ctx disabled fillBg r evs = unmounted r"
    using False by (rule surface_after_failed)
  have u: "\<not> has_context (unmounted r)" "history (unmounted r) = []"
    "stopDrawing (unmounted r) = unmounted r" "handleClear fillBg (unmounted r) = unmounted r"
    "handleUndo (unmounted r) = unmounted r" "\<not> isDrawing (unmounted r)"
    "undo_stack (unmounted r) = []"
    by (simp_all add: unmounted_def stopDrawing_def handleClear_def handleUndo_def undo_stack_def)
  from False u show ?thesis unfolding s by simp
qed

theorem undo_history_witness:
  "has_context (surface_after True True False (\<lambda>x. 0) (7 :: nat) [StartDrawing, Draw Suc])
   \<and> isDrawing (surface_after True True False (\<lambda>x. 0) (7 :: nat) [StartDrawing, Draw Suc])
   \<and> undo_stack (stopDrawing (surface_after True True False (\<lambda>x. 0) (7 :: nat) [StartDrawing, Draw Suc]))
       = [0, 1]
   \<and> 0 < historyIndex (surface_after True True False (\<lambda>x. 0) (7 :: nat) [StartDrawing, Draw Suc, StopDrawing])
   \<and> undo_stack (handleUndo (surface_after True True False (\<lambda>x. 0) (7 :: nat)
         [StartDrawing, Draw Suc, StopDrawing])) = [0]
   \<and> raster (handleUndo (surface_after True True False (\<lambda>x. 0) (7 :: nat)
         [StartDrawing, Draw Suc, StopDrawing])) = 0
   \<and> raster (surface_after True True False (\<lambda>x. 0) (7 :: nat) [StartDrawing, Draw Suc, StopDrawing]) = 1
   \<and> \<not> has_context (surface_after True False False (\<lambda>x. 0) (7 :: nat) [StartDrawing, Clear])
   \<and> surface_after True False False (\<lambda>x. 0) (7 :: nat) [StartDrawing, Clear] = unmounted 7"
proof -
  let ?s1 = "surface_after True True False (\<lambda>x. 0) (7 :: nat) [StartDrawing, Draw Suc]"
  let ?s2 = "surface_after True True False (\<lambda>x. 0) (7 :: nat) [StartDrawing, Draw Suc, StopDrawing]"
  let ?s3 = "surface_after True False False (\<lambda>x. 0) (7 :: nat) [StartDrawing, Clear]"
  have s1: "?s1 = \<lparr>raster = 1, has_context = True, isDrawing = True, history = [0], historyIndex = 0\<rparr>"
    by (simp add: surface_after_def initialise_def unmounted_def startDrawing_def draw_def)
  have s2: "?s2 = \<lparr>raster = 1, has_context = True, isDrawing = False, history = [0, 1], historyIndex = 1\<rparr>"
    by (simp add: surface_after_def initialise_def unmounted_def startDrawing_def draw_def
        stopDrawing_def saveToHistory_def slice0_def)
  have c1: "has_context ?s1" and d1: "isDrawing ?s1" by (simp_all add: s1)
  have c2: "has_context ?s2" and i2: "0 < historyIndex ?s2" by (simp_all add: s2)
  have "undo_stack (stopDrawing ?s1) = push50 (undo_stack ?s1) (raster ?s1)"
    using undo_history [of True True False "\<lambda>x. 0" "7 :: nat" "[StartDrawing, Draw Suc]"] c1 d1 by blast
  then have r1: "undo_stack (stopDrawing ?s1) = [0, 1]"
    by (simp add: s1 push50_def undo_stack_def)
  have "undo_stack (handleUndo ?s2) = butlast (undo_stack ?s2)
      \<and> raster (handleUndo ?s2) = last (butlast (undo_stack ?s2))"
    using undo_history [of True True False "\<lambda>x. 0" "7 :: nat" "[StartDrawing, Draw Suc, StopDrawing]"] c2 i2
    by blast
  then have r2: "undo_stack (handleUndo ?s2) = [0] \<and> raster (handleUndo ?s2) = 0"
    by (simp add: s2 undo_stack_def)
  have r3: "raster ?s2 = 1" by (simp add: s2)
  have c3: "\<not> has_context ?s3"
    using undo_history [of True False False "\<lambda>x. 0" "7 :: nat" "[StartDrawing, Clear]"] by simp
  then have r4: "?s3 = unmounted 7"
    using undo_history [of True False False "\<lambda>x. 0" "7 :: nat" "[StartDrawing, Clear]"] by blast
  from c1 d1 i2 r1 r2 r3 c3 r4 show ?thesis by blast
qed

section \<open>Room codes and the lookup by code\<close>

lemma length_chars: "length chars = 32"
  by (simp add: chars_def)

lemma charAt_chars:
  assumes "0 \<le> x" "x < 1"
  shows "\<exists>c. charAt chars \<lfloor>x * real (length chars)\<rfloor> = [c] \<and> c \<in> set chars"
proof -
  define k where "k = \<lfloor>x * real (length chars)\<rfloor>"
  have lo: "0 \<le> k" using assms(1) by (simp add: k_def)
  have "x * real (length chars) < 32" using assms(2) by (simp add: length_chars)
  then have hi: "k < 32" by (simp add: k_def floor_less_iff)
  have "nat k < length chars" using lo hi by (simp add: length_chars)
  then have "chars ! nat k \<in> set chars" by (rule nth_mem)
  moreover have "charAt chars k = [chars ! nat k]"
    using lo hi by (simp add: charAt_def length_chars)
  ultimately show ?thesis unfolding k_def by blast
qed

lemma generateRoomCode_loop_inv:
  "\<forall>k<6. 0 \<le> rnd k \<and> rnd k < 1 \<Longrightarrow> i \<le> 6 \<Longrightarrow>
   length (generateRoomCode_loop rnd i code) = length code + (6 - i)
   \<and> set (generateRoomCode_loop rnd i code) \<subseteq> set code \<union> set chars"
proof (induction rnd i code rule: generateRoomCode_loop.induct)
  case (1 rnd i code)
  show ?case
  proof (cases "i < 6")
    case True
    obtain c where c: "charAt chars \<lfloor>rnd i * real (length chars)\<rfloor> = [c]" "c \<in> set chars"
      using charAt_chars "1.prems"(1) True by blast
    have "length (generateRoomCode_loop rnd (i + 1) (code @ [c])) = length (code @ [c]) + (6 - (i + 1))
      \<and> set (generateRoomCode_loop rnd (i + 1) (code @ [c])) \<subseteq> set (code @ [c]) \<union> set chars"
      using "1.IH"[OF True] "1.prems"(1) True c(1) by simp
    then show ?thesis using True c
      by (subst (1 2) generateRoomCode_loop.simps) auto
  next
    case False
    then show ?thesis using "1.prems"(2)
      by (subst (1 2) generateRoomCode_loop.simps) simp
  qed
qed

lemma generateRoomCode_shape:
  "\<forall>k<6. 0 \<le> rnd k \<and> rnd k < 1 \<Longrightarrow>
   length (generateRoomCode rnd) = 6 \<and> set (generateRoomCode rnd) \<subseteq> set chars"
  using generateRoomCode_loop_inv[of rnd 0 "[]"] by (simp add: generateRoomCode_def)

lemma upper_char_idem: "upper_char (upper_char c) = upper_char c"
proof (cases "97 \<le> (of_char c :: nat) \<and> (of_char c :: nat) \<le> 122")
  case True
  then have "(of_char c :: nat) - 32 < 256" by linarith
  then have "(of_char (char_of (of_char c - 32 :: nat)) :: nat) = of_char c - 32"
    by simp
  moreover have "\<not> (97 \<le> (of_char c :: nat) - 32 \<and> (of_char c :: nat) - 32 \<le> 122)"
    using True by linarith
  ultimately show ?thesis using True by (auto simp add: upper_char_def Let_def)
next
  case False
  then have "upper_char c = c" by (auto simp: upper_char_def Let_def)
  then show ?thesis by simp
qed

lemma toUpperCase_idem: "toUpperCase (toUpperCase s) = toUpperCase s"
  by (simp add: toUpperCase_def upper_char_idem)

lemma upper_lower_chars: "c \<in> set chars \<Longrightarrow> upper_char (lower_char c) = c"
  by (auto simp: chars_def upper_char_def lower_char_def Let_def)

lemma toUpperCase_toLowerCase: "set s \<subseteq> set chars \<Longrightarrow> toUpperCase (toLowerCase s) = s"
  by (induction s) (simp_all add: toUpperCase_def toLowerCase_def upper_lower_chars)

lemma excluded: "CHR ''I'' \<notin> set chars \<and> CHR ''O'' \<notin> set chars \<and> CHR ''0'' \<notin> set chars \<and> CHR ''1'' \<notin> set chars"
  by (simp add: chars_def)

lemma getRoomByCode_upper: "getRoomByCode (toUpperCase code) w = getRoomByCode code w"
  by (simp add: getRoomByCode_def toUpperCase_idem split: option.splits)

lemma map_of_snoc_fresh: "i \<notin> fst ` set c \<Longrightarrow> map_of (c @ [(i, d)]) i = Some d"
  by (induction c) auto

lemma addDoc_Inr:
  "addDoc i d c = Inr c' \<longleftrightarrow> i \<notin> fst ` set c \<and> c' = c @ [(i, d)]"
  by (auto simp: addDoc_def)

lemma getDoc_added: "i \<notin> fst ` set c \<Longrightarrow> getDoc i (c @ [(i, d)]) = Some d"
  unfolding getDoc_def by (rule map_of_snoc_fresh)

lemma createRoom_Inr:
  assumes "createRoom rnd newId now host maxP w = (Inr (rid, r), w')"
  shows "\<exists>database room. db w = Some database \<and> rid = newId \<and> r = Some room
     \<and> roomCode room = generateRoomCode rnd \<and> status room = Waiting
     \<and> db w' = Some (database\<lparr>rooms := rooms database @ [(newId, room)]\<rparr>)"
  using assms
  by (auto simp: createRoom_def Let_def addDoc_Inr getDoc_added split: option.splits sum.splits)

lemma getDocs_where_last: "p d \<Longrightarrow> getDocs_where p (c @ [(i, d)]) \<noteq> []"
  by (simp add: getDocs_where_def)

lemma getDocs_where_hd:
  "getDocs_where p c = x # xs \<Longrightarrow> p (snd x)"
proof -
  assume a: "getDocs_where p c = x # xs"
  have "x \<in> set (getDocs_where p c)" by (simp add: a)
  then show ?thesis by (auto simp: getDocs_where_def)
qed

text \<open>
  C10. When the six draws of \<^verbatim>\<open>Math.random()\<close> lie in [0, 1), the room that \<open>createRoom\<close>
  returns has a code of exactly 6 characters, each from the 32-character alphabet, and
  looking the code up in lower case finds a room of that code. The alphabet has 32
  characters and holds none of I, O, 0, 1. \<open>getRoomByCode\<close> gives the same answer for an
  argument and for its upper-case form, hence for any two arguments that differ in case
  only.
\<close>

theorem room_code:
  "((\<forall>k<6. 0 \<le> rnd k \<and> rnd k < 1) \<and> createRoom rnd newId now host maxP w = (Inr (rid, r), w') \<longrightarrow>
      (\<exists>room. r = Some room \<and> length (roomCode room) = 6 \<and> set (roomCode room) \<subseteq> set chars
         \<and> (\<exists>j room'. getRoomByCode (toLowerCase (roomCode room)) w' = Inr (Some (j, room'))
               \<and> roomCode room' = roomCode room)))
   \<and> length chars = 32
   \<and> CHR ''I'' \<notin> set chars \<and> CHR ''O'' \<notin> set chars \<and> CHR ''0'' \<notin> set chars \<and> CHR ''1'' \<notin> set chars
   \<and> getRoomByCode code w = getRoomByCode (toUpperCase code) w
   \<and> (toUpperCase ca = toUpperCase cb \<longrightarrow> getRoomByCode ca w = getRoomByCode cb w)"
proof -
  have created: "\<exists>room. r = Some room \<and> length (roomCode room) = 6 \<and> set (roomCode room) \<subseteq> set chars
         \<and> (\<exists>j room'. getRoomByCode (toLowerCase (roomCode room)) w' = Inr (Some (j, room'))
               \<and> roomCode room' = roomCode room)"
    if rnd: "\<forall>k<6. 0 \<le> rnd k \<and> rnd k < 1"
      and cr: "createRoom rnd newId now host maxP w = (Inr (rid, r), w')"
  proof -
    obtain database room where dr: "db w = Some database" "r = Some room"
      "roomCode room = generateRoomCode rnd"
      "db w' = Some (database\<lparr>rooms := rooms database @ [(newId, room)]\<rparr>)"
      using createRoom_Inr[OF cr] by blast
    have shape: "length (roomCode room) = 6" "set (roomCode room) \<subseteq> set chars"
      using generateRoomCode_shape[OF rnd] dr(3) by simp_all
    have up: "toUpperCase (toLowerCase (roomCode room)) = roomCode room"
      using shape(2) by (rule toUpperCase_toLowerCase)
    let ?q = "getDocs_where (\<lambda>x. roomCode x = roomCode room) (rooms database @ [(newId, room)])"
    have "?q \<noteq> []" by (rule getDocs_where_last) simp
    then obtain x xs where q: "?q = x # xs" by (cases ?q) auto
    have "roomCode (snd x) = roomCode room" using getDocs_where_hd[OF q] .
    moreover have "getRoomByCode (toLowerCase (roomCode room)) w' = Inr (Some x)"
      using dr(4) q by (simp add: getRoomByCode_def up)
    ultimately have "\<exists>j room'. getRoomByCode (toLowerCase (roomCode room)) w' = Inr (Some (j, room'))
               \<and> roomCode room' = roomCode room"
      by (cases x) auto
    with dr(2) shape show ?thesis by blast
  qed
  have up: "getRoomByCode code w = getRoomByCode (toUpperCase code) w"
    by (simp add: getRoomByCode_upper)
  have insens: "toUpperCase ca = toUpperCase cb \<longrightarrow> getRoomByCode ca w = getRoomByCode cb w"
    using getRoomByCode_upper[of ca w] getRoomByCode_upper[of cb w] by auto
  from created length_chars excluded up insens show ?thesis by blast
qed

theorem room_code_witness:
  "(0 :: real) \<le> 1 / 2 \<and> (1 :: real) / 2 < 1
   \<and> fst (createRoom (\<lambda>k. 1 / 2) ''r1'' 0 ''host'' 10 empty_world)
       = Inr (''r1'', Some \<lparr>hostId = ''host'', roomCode = ''SSSSSS'', status = Waiting,
            currentQuestionId = None, maxParticipants = 10, createdAt = 0\<rparr>)
   \<and> (\<exists>j room'. getRoomByCode ''ssssss'' (snd (createRoom (\<lambda>k. 1 / 2) ''r1'' 0 ''host'' 10 empty_world))
         = Inr (Some (j, room')) \<and> roomCode room' = ''SSSSSS'')
   \<and> toUpperCase ''abc234'' = toUpperCase ''AbC234''
   \<and> getRoomByCode ''abc234'' empty_world = getRoomByCode ''AbC234'' empty_world"
proof -
  let ?rnd = "\<lambda>k :: nat. 1 / 2 :: real"
  let ?room = "\<lparr>hostId = ''host'', roomCode = ''SSSSSS'', status = Waiting,
            currentQuestionId = None, maxParticipants = 10, createdAt = 0\<rparr>"
  have code: "generateRoomCode ?rnd = ''SSSSSS''"
    by (simp add: generateRoomCode_def generateRoomCode_loop.simps charAt_def chars_def)
  have low: "toLowerCase ''SSSSSS'' = ''ssssss''"
    by code_simp
  obtain w' where cr: "createRoom ?rnd ''r1'' 0 ''host'' 10 empty_world = (Inr (''r1'', Some ?room), w')"
    by (simp add: createRoom_def empty_world_def empty_firestore_def addDoc_def getDoc_def code Let_def)
  have rnd: "\<forall>k<6. (0 :: real) \<le> ?rnd k \<and> ?rnd k < 1" by simp
  have "\<exists>room. Some ?room = Some room \<and> length (roomCode room) = 6 \<and> set (roomCode room) \<subseteq> set chars
         \<and> (\<exists>j room'. getRoomByCode (toLowerCase (roomCode room)) w' = Inr (Some (j, room'))
               \<and> roomCode room' = roomCode room)"
    using room_code [where rnd = ?rnd and newId = "''r1''" and now = 0 and host = "''host''"
        and maxP = 10 and w = empty_world and rid = "''r1''" and r = "Some ?room" and w' = w',
        THEN conjunct1] rnd cr
    by blast
  then have look: "\<exists>j room'. getRoomByCode ''ssssss'' w' = Inr (Some (j, room')) \<and> roomCode room' = ''SSSSSS''"
    by (simp add: low)
  have eq: "toUpperCase ''abc234'' = toUpperCase ''AbC234''"
    by code_simp
  have "getRoomByCode ''abc234'' empty_world = getRoomByCode ''AbC234'' empty_world"
    using room_code [where ca = "''abc234''" and cb = "''AbC234''" and w = empty_world] eq by blast
  with cr look eq show ?thesis by simp
qed

section \<open>Joining, kicking and unbanning\<close>

lemma getDocs_where_empty: "getDocs_where p c = [] \<longleftrightarrow> (\<forall>x \<in> set c. \<not> p (snd x))"
  by (auto simp: getDocs_where_def filter_empty_conv)

lemma isUserBanned_has_ban:
  "db w = Some database \<Longrightarrow> isUserBanned roomId odId w = Inr (has_ban roomId odId w)"
  by (auto simp: isUserBanned_def has_ban_def bans_of_def getDocs_where_empty)

lemma has_ban_configured: "has_ban roomId odId w \<Longrightarrow> \<exists>database. db w = Some database"
  by (cases "db w") (auto simp: has_ban_def bans_of_def)

text \<open>
  C4. When the identity has a ban record in the room, \<open>isUserBanned\<close> is true and
  \<open>requestJoinRoom\<close> throws the ban error and leaves the world as it was: no participant
  is counted or created, whatever the number of participants and the maximum.
\<close>

theorem banned_rejected_first:
  "has_ban roomId odId w \<longrightarrow>
     isUserBanned roomId odId w = Inr True
   \<and> requestJoinRoom newId now roomId odId displayName photoURL w = (Inl BannedFromRoom, w)"
proof
  assume b: "has_ban roomId odId w"
  then obtain database where d: "db w = Some database" using has_ban_configured by blast
  have ib: "isUserBanned roomId odId w = Inr True"
    using isUserBanned_has_ban[OF d] b by simp
  then show "isUserBanned roomId odId w = Inr True
   \<and> requestJoinRoom newId now roomId odId displayName photoURL w = (Inl BannedFromRoom, w)"
    using d by (simp add: requestJoinRoom_def)
qed

lemma requestJoinRoom_not_banned:
  assumes "db w = Some database" "\<not> has_ban roomId odId w"
  shows "requestJoinRoom newId now roomId odId displayName photoURL w =
     (case getDocs_where (\<lambda>p. p_odId p = odId) (participants database roomId) of
        (existingId, existingData) # _ \<Rightarrow> (Inr (existingId, Some existingData), w)
      | [] \<Rightarrow>
          if int (length (participants database roomId)) \<ge> effective_max database roomId
          then (Inl (RoomFull (effective_max database roomId)), w)
          else (case addDoc newId
                       \<lparr>p_roomId = roomId, p_odId = odId, p_displayName = displayName,
                        p_photoURL = photoURL, p_status = Approved, joinedAt = now\<rparr>
                       (participants database roomId) of
                  Inl e \<Rightarrow> (Inl e, w)
                | Inr ps \<Rightarrow>
                    (Inr (newId, getDoc newId ps),
                     w\<lparr>db := Some (database\<lparr>participants := (participants database)(roomId := ps)\<rparr>)\<rparr>)))"
  using assms isUserBanned_has_ban[OF assms(1), of roomId odId]
  by (simp add: requestJoinRoom_def effective_max_def Let_def split: list.splits)

text \<open>
  C5 (amended). On a room whose participant count has reached the effective maximum
  (the room's \<open>maxParticipants\<close> when it is not 0): an identity without a participant
  record is rejected with an error and the world is unchanged, the error being the
  capacity error when the identity is not banned; an identity that has a participant
  record and is not banned gets back its first record, the world unchanged.
\<close>

theorem join_at_capacity:
  "(getDoc roomId (rooms database) = Some room \<and> maxParticipants room \<noteq> 0 \<longrightarrow>
      effective_max database roomId = maxParticipants room)
   \<and> (db w = Some database
        \<and> int (length (participants database roomId)) \<ge> effective_max database roomId \<longrightarrow>
       (getDocs_where (\<lambda>p. p_odId p = odId) (participants database roomId) = [] \<longrightarrow>
          (\<exists>e. requestJoinRoom newId now roomId odId displayName photoURL w = (Inl e, w))
        \<and> (\<not> has_ban roomId odId w \<longrightarrow>
             requestJoinRoom newId now roomId odId displayName photoURL w
               = (Inl (RoomFull (effective_max database roomId)), w)))
     \<and> (getDocs_where (\<lambda>p. p_odId p = odId) (participants database roomId) = (i, p) # rest
          \<and> \<not> has_ban roomId odId w \<longrightarrow>
            requestJoinRoom newId now roomId odId displayName photoURL w = (Inr (i, Some p), w)))"
proof (intro conjI impI)
  assume "getDoc roomId (rooms database) = Some room \<and> maxParticipants room \<noteq> 0"
  then show "effective_max database roomId = maxParticipants room"
    by (simp add: effective_max_def)
next
  assume a: "db w = Some database
    \<and> int (length (participants database roomId)) \<ge> effective_max database roomId"
    and q: "getDocs_where (\<lambda>p. p_odId p = odId) (participants database roomId) = []"
  then have d: "db w = Some database" by simp
  show "\<exists>e. requestJoinRoom newId now roomId odId displayName photoURL w = (Inl e, w)"
  proof (cases "has_ban roomId odId w")
    case True
    then show ?thesis
      using d isUserBanned_has_ban[OF d, of roomId odId] by (simp add: requestJoinRoom_def)
  next
    case False
    then show ?thesis using a q by (simp add: requestJoinRoom_not_banned[OF d])
  qed
next
  assume a: "db w = Some database
    \<and> int (length (participants database roomId)) \<ge> effective_max database roomId"
    and q: "getDocs_where (\<lambda>p. p_odId p = odId) (participants database roomId) = []"
    and nb: "\<not> has_ban roomId odId w"
  then have d: "db w = Some database" by simp
  show "requestJoinRoom newId now roomId odId displayName photoURL w
      = (Inl (RoomFull (effective_max database roomId)), w)"
    using a q nb by (simp add: requestJoinRoom_not_banned[OF d])
next
  assume a: "db w = Some database
    \<and> int (length (participants database roomId)) \<ge> effective_max database roomId"
    and q: "getDocs_where (\<lambda>p. p_odId p = odId) (participants database roomId) = (i, p) # rest
          \<and> \<not> has_ban roomId odId w"
  then have d: "db w = Some database" by simp
  show "requestJoinRoom newId now roomId odId displayName photoURL w = (Inr (i, Some p), w)"
    using q by (simp add: requestJoinRoom_not_banned[OF d])
qed

lemmas example_defs = example_room_def example_participant_def example_ban_def example_db_def
  example_world_def empty_firestore_def

theorem banned_rejected_first_witness:
  "has_ban ''r1'' ''bob'' (example_world 1 [(''p1'', example_participant ''alice'' 7)] [(''b1'', example_ban ''bob'')])
   \<and> int (length (participants_of ''r1''
         (example_world 1 [(''p1'', example_participant ''alice'' 7)] [(''b1'', example_ban ''bob'')]))) \<ge> 1
   \<and> requestJoinRoom ''p2'' 5 ''r1'' ''bob'' ''Name'' None
         (example_world 1 [(''p1'', example_participant ''alice'' 7)] [(''b1'', example_ban ''bob'')])
       = (Inl BannedFromRoom,
          example_world 1 [(''p1'', example_participant ''alice'' 7)] [(''b1'', example_ban ''bob'')])"
proof -
  let ?w = "example_world 1 [(''p1'', example_participant ''alice'' 7)] [(''b1'', example_ban ''bob'')]"
  have b: "has_ban ''r1'' ''bob'' ?w"
    by (simp add: has_ban_def bans_of_def example_defs)
  have c: "int (length (participants_of ''r1'' ?w)) \<ge> 1"
    by (simp add: participants_of_def example_defs)
  from banned_rejected_first [of "''r1''" "''bob''" ?w "''p2''" 5 "''Name''" None] b c
  show ?thesis by blast
qed

theorem join_at_capacity_witness:
  "db (example_world 1 [(''p1'', example_participant ''alice'' 7)] [])
     = Some (example_db 1 [(''p1'', example_participant ''alice'' 7)] [])
   \<and> effective_max (example_db 1 [(''p1'', example_participant ''alice'' 7)] []) ''r1'' = 1
   \<and> int (length (participants (example_db 1 [(''p1'', example_participant ''alice'' 7)] []) ''r1'')) \<ge> 1
   \<and> \<not> has_ban ''r1'' ''bob'' (example_world 1 [(''p1'', example_participant ''alice'' 7)] [])
   \<and> \<not> has_ban ''r1'' ''alice'' (example_world 1 [(''p1'', example_participant ''alice'' 7)] [])
   \<and> requestJoinRoom ''p2'' 5 ''r1'' ''bob'' ''Name'' None
         (example_world 1 [(''p1'', example_participant ''alice'' 7)] [])
       = (Inl (RoomFull 1), example_world 1 [(''p1'', example_participant ''alice'' 7)] [])
   \<and> requestJoinRoom ''p2'' 5 ''r1'' ''alice'' ''Name'' None
         (example_world 1 [(''p1'', example_participant ''alice'' 7)] [])
       = (Inr (''p1'', Some (example_participant ''alice'' 7)),
          example_world 1 [(''p1'', example_participant ''alice'' 7)] [])"
proof -
  let ?ps = "[(''p1'', example_participant ''alice'' 7)]"
  let ?d = "example_db 1 ?ps []"
  let ?w = "example_world 1 ?ps []"
  have d: "db ?w = Some ?d" by (simp add: example_world_def)
  have room: "getDoc ''r1'' (rooms ?d) = Some (example_room 1)" "maxParticipants (example_room 1) \<noteq> 0"
    by (simp_all add: getDoc_def example_defs)
  have ps: "participants ?d ''r1'' = ?ps" by (simp add: example_defs)
  have m: "effective_max ?d ''r1'' = 1"
    using join_at_capacity [where w = ?w and database = ?d and roomId = "''r1''" and odId = "''bob''"
        and i = "''p1''" and p = "example_participant ''alice'' 7" and rest = "[]" and newId = "''p2''"
        and now = 5 and displayName = "''Name''" and photoURL = None and room = "example_room 1"] room d
    by (simp add: ps example_room_def)
  have full: "int (length (participants ?d ''r1'')) \<ge> effective_max ?d ''r1''"
    by (simp add: m ps)
  have nb: "\<not> has_ban ''r1'' ''bob'' ?w" "\<not> has_ban ''r1'' ''alice'' ?w"
    by (simp_all add: has_ban_def bans_of_def example_defs)
  have q1: "getDocs_where (\<lambda>p. p_odId p = ''bob'') (participants ?d ''r1'') = []"
    by (simp add: getDocs_where_def example_defs)
  have q2: "getDocs_where (\<lambda>p. p_odId p = ''alice'') (participants ?d ''r1'')
      = (''p1'', example_participant ''alice'' 7) # []"
    by (simp add: getDocs_where_def example_defs)
  have r1: "requestJoinRoom ''p2'' 5 ''r1'' ''bob'' ''Name'' None ?w = (Inl (RoomFull 1), ?w)"
    using join_at_capacity [where w = ?w and database = ?d and roomId = "''r1''" and odId = "''bob''"
        and i = "''p1''" and p = "example_participant ''alice'' 7" and rest = "[]" and newId = "''p2''"
        and now = 5 and displayName = "''Name''" and photoURL = None and room = "example_room 1"] d full nb(1) q1
    by (simp add: m)
  have r2: "requestJoinRoom ''p2'' 5 ''r1'' ''alice'' ''Name'' None ?w
      = (Inr (''p1'', Some (example_participant ''alice'' 7)), ?w)"
    using join_at_capacity [where w = ?w and database = ?d and roomId = "''r1''" and odId = "''alice''"
        and i = "''p1''" and p = "example_participant ''alice'' 7" and rest = "[]" and newId = "''p2''"
        and now = 5 and displayName = "''Name''" and photoURL = None and room = "example_room 1"] d full nb(2) q2
    by blast
  from d m full nb r1 r2 show ?thesis by (simp add: m)
qed

lemma code_half: "generateRoomCode (\<lambda>k. 1 / 2) = ''SSSSSS''"
  by (simp add: generateRoomCode_def generateRoomCode_loop.simps charAt_def chars_def)

lemma zero_max_world_eq: "zero_max_world = example_world 0 [] []"
  by (simp add: zero_max_world_def createRoom_def empty_world_def addDoc_def getDoc_def code_half
      Let_def example_defs fun_eq_iff)

lemma banned_member_world_eq:
  "banned_member_world =
     example_world 1 [(''p1'', example_participant ''alice'' 7)] [(''b1'', example_ban ''alice'')]"
  by (simp add: banned_member_world_def createRoom_def empty_world_def addDoc_def getDoc_def code_half
      Let_def example_defs requestJoinRoom_def isUserBanned_def getDocs_where_def MAX_PARTICIPANTS_def
      kickParticipant_def deleteDoc_def)

text \<open>
  C5 (as the claim states it, refuted). In a room created with maximum 0 the count 0 has
  reached the configured maximum, yet a new identity joins and its record is created (the
  code falls back to 15). In a room of maximum 1 whose only participant is also on the
  ban list, that participant gets the ban error, not its record.
\<close>

theorem join_at_capacity_counterexample:
  "map_option maxParticipants (getDoc ''r1'' (rooms (the (db zero_max_world)))) = Some 0
   \<and> int (length (participants_of ''r1'' zero_max_world)) \<ge> 0
   \<and> fst (requestJoinRoom ''p1'' 7 ''r1'' ''alice'' ''Name'' None zero_max_world)
       = Inr (''p1'', Some (example_participant ''alice'' 7))
   \<and> participants_of ''r1'' (snd (requestJoinRoom ''p1'' 7 ''r1'' ''alice'' ''Name'' None zero_max_world))
       = [(''p1'', example_participant ''alice'' 7)]
   \<and> map_option maxParticipants (getDoc ''r1'' (rooms (the (db banned_member_world)))) = Some 1
   \<and> participants_of ''r1'' banned_member_world = [(''p1'', example_participant ''alice'' 7)]
   \<and> fst (requestJoinRoom ''p2'' 3 ''r1'' ''alice'' ''Name'' None banned_member_world) = Inl BannedFromRoom"
  unfolding zero_max_world_eq banned_member_world_eq
  by (simp add: example_defs requestJoinRoom_def isUserBanned_def getDocs_where_def
      MAX_PARTICIPANTS_def addDoc_def getDoc_def participants_of_def Let_def)

lemma foldl_deleteDoc:
  "foldl (\<lambda>c docSnap. deleteDoc (fst docSnap) c) c snap = filter (\<lambda>x. fst x \<notin> fst ` set snap) c"
proof (induction snap arbitrary: c)
  case Nil
  show ?case by simp
next
  case (Cons a snap)
  have "filter (\<lambda>x. fst x \<notin> fst ` set snap) (deleteDoc (fst a) c)
      = filter (\<lambda>x. fst x \<notin> fst ` set (a # snap)) c"
    by (induction c) (auto simp: deleteDoc_def)
  then show ?case using Cons.IH[of "deleteDoc (fst a) c"] by simp
qed

lemma getDocs_where_after_delete:
  "getDocs_where p (filter (\<lambda>x. fst x \<notin> fst ` set (getDocs_where p c)) c) = []"
proof -
  have "\<not> p (snd x)" if "x \<in> set c" "fst x \<notin> fst ` set (getDocs_where p c)" for x
  proof
    assume "p (snd x)"
    then have "x \<in> set (getDocs_where p c)" using that(1) by (auto simp: getDocs_where_def)
    then show False using that(2) by blast
  qed
  then show ?thesis unfolding getDocs_where_empty by simp
qed

lemma unbanUser_effect:
  assumes "db w = Some database"
  shows "unbanUser roomId odId w =
     (Inr (), w\<lparr>db := Some (database\<lparr>bannedUsers := (bannedUsers database)
        (roomId := filter (\<lambda>x. fst x \<notin> fst ` set (getDocs_where (\<lambda>b. b_odId b = odId)
              (bannedUsers database roomId))) (bannedUsers database roomId))\<rparr>)\<rparr>)"
  using assms by (simp add: unbanUser_def Let_def foldl_deleteDoc)

lemma kickParticipant_effect:
  assumes "kickParticipant newId now roomId participantId odId displayName photoURL w = (Inr u, w1)"
  shows "\<exists>database. db w = Some database \<and> newId \<notin> fst ` set (bannedUsers database roomId)
     \<and> w1 = w\<lparr>db := Some (database\<lparr>
           bannedUsers := (bannedUsers database)(roomId := bannedUsers database roomId @
              [(newId, \<lparr>b_odId = odId, b_displayName = displayName, b_photoURL = photoURL,
                        bannedAt = now\<rparr>)]),
           participants := (participants database)
              (roomId := deleteDoc participantId (participants database roomId))\<rparr>)\<rparr>"
  using assms
  by (auto simp: kickParticipant_def addDoc_Inr split: option.splits sum.splits)

text \<open>
  C6. After a successful \<open>kickParticipant\<close> no participant record has the given id (the
  other records are untouched) and \<open>isUserBanned\<close> is true for the identity; the call
  succeeds whenever the database is configured and the generated id is new. After
  \<open>unbanUser\<close> on a configured database the identity has no ban record, \<open>isUserBanned\<close>
  is false, and the participants of every room are what they were.
\<close>

theorem kick_then_unban:
  "(kickParticipant newId now roomId participantId odId displayName photoURL w = (Inr u, w1) \<longrightarrow>
      participantId \<notin> fst ` set (participants_of roomId w1)
    \<and> participants_of roomId w1 = deleteDoc participantId (participants_of roomId w)
    \<and> isUserBanned roomId odId w1 = Inr True)
   \<and> (db w = Some database \<and> newId \<notin> fst ` set (bannedUsers database roomId) \<longrightarrow>
        (\<exists>w1. kickParticipant newId now roomId participantId odId displayName photoURL w = (Inr (), w1)))
   \<and> (db v = Some vdb \<and> unbanUser roomId odId v = (r, v') \<longrightarrow>
        r = Inr () \<and> isUserBanned roomId odId v' = Inr False \<and> \<not> has_ban roomId odId v'
      \<and> (\<forall>room. participants_of room v' = participants_of room v))"
proof (intro conjI impI)
  assume k: "kickParticipant newId now roomId participantId odId displayName photoURL w = (Inr u, w1)"
  from kickParticipant_effect[OF k] obtain database where
    d: "db w = Some database" and
    w1: "w1 = w\<lparr>db := Some (database\<lparr>
           bannedUsers := (bannedUsers database)(roomId := bannedUsers database roomId @
              [(newId, \<lparr>b_odId = odId, b_displayName = displayName, b_photoURL = photoURL,
                        bannedAt = now\<rparr>)]),
           participants := (participants database)
              (roomId := deleteDoc participantId (participants database roomId))\<rparr>)\<rparr>"
    by blast
  show "participantId \<notin> fst ` set (participants_of roomId w1)"
    by (auto simp: w1 participants_of_def deleteDoc_def)
  show "participants_of roomId w1 = deleteDoc participantId (participants_of roomId w)"
    by (simp add: w1 d participants_of_def)
  show "isUserBanned roomId odId w1 = Inr True"
    by (simp add: w1 isUserBanned_def getDocs_where_def)
next
  assume "db w = Some database \<and> newId \<notin> fst ` set (bannedUsers database roomId)"
  then show "\<exists>w1. kickParticipant newId now roomId participantId odId displayName photoURL w = (Inr (), w1)"
    by (simp add: kickParticipant_def addDoc_def)
next
  assume a: "db v = Some vdb \<and> unbanUser roomId odId v = (r, v')"
  then have d: "db v = Some vdb" by simp
  have r: "r = Inr ()" and v': "v' = v\<lparr>db := Some (vdb\<lparr>bannedUsers := (bannedUsers vdb)
        (roomId := filter (\<lambda>x. fst x \<notin> fst ` set (getDocs_where (\<lambda>b. b_odId b = odId)
              (bannedUsers vdb roomId))) (bannedUsers vdb roomId))\<rparr>)\<rparr>"
    using a unbanUser_effect[OF d, of roomId odId] by simp_all
  show "r = Inr ()" by (rule r)
  show ib: "isUserBanned roomId odId v' = Inr False"
    by (simp add: v' isUserBanned_def getDocs_where_after_delete)
  have "db v' \<noteq> None" by (simp add: v')
  then obtain d' where "db v' = Some d'" by blast
  from isUserBanned_has_ban[OF this, of roomId odId] ib
  show "\<not> has_ban roomId odId v'" by simp
  show "\<forall>room. participants_of room v' = participants_of room v"
    by (simp add: v' d participants_of_def)
qed

theorem kick_then_unban_witness:
  "fst (kickParticipant ''b1'' 2 ''r1'' ''p1'' ''alice'' ''Name'' None
         (example_world 3 [(''p1'', example_participant ''alice'' 7)] [])) = Inr ()
   \<and> participants_of ''r1'' (snd (kickParticipant ''b1'' 2 ''r1'' ''p1'' ''alice'' ''Name'' None
         (example_world 3 [(''p1'', example_participant ''alice'' 7)] []))) = []
   \<and> isUserBanned ''r1'' ''alice'' (snd (kickParticipant ''b1'' 2 ''r1'' ''p1'' ''alice'' ''Name'' None
         (example_world 3 [(''p1'', example_participant ''alice'' 7)] []))) = Inr True
   \<and> fst (unbanUser ''r1'' ''alice'' (example_world 3 [] [(''b1'', example_ban ''alice'')])) = Inr ()
   \<and> isUserBanned ''r1'' ''alice''
        (snd (unbanUser ''r1'' ''alice'' (example_world 3 [] [(''b1'', example_ban ''alice'')]))) = Inr False
   \<and> participants_of ''r1''
        (snd (unbanUser ''r1'' ''alice'' (example_world 3 [] [(''b1'', example_ban ''alice'')]))) = []"
proof -
  let ?w = "example_world 3 [(''p1'', example_participant ''alice'' 7)] []"
  let ?v = "example_world 3 [] [(''b1'', example_ban ''alice'')]"
  obtain u w1 where k: "kickParticipant ''b1'' 2 ''r1'' ''p1'' ''alice'' ''Name'' None ?w = (Inr u, w1)"
    by (simp add: kickParticipant_def addDoc_def example_defs)
  have p: "participants_of ''r1'' ?w = [(''p1'', example_participant ''alice'' 7)]"
    by (simp add: participants_of_def example_defs)
  have k1: "participants_of ''r1'' w1 = deleteDoc ''p1'' (participants_of ''r1'' ?w)
      \<and> isUserBanned ''r1'' ''alice'' w1 = Inr True"
    using kick_then_unban [where newId = "''b1''" and now = 2 and roomId = "''r1''"
        and participantId = "''p1''" and odId = "''alice''" and displayName = "''Name''"
        and photoURL = None and w = ?w and u = u and ?w1.0 = w1, THEN conjunct1] k
    by blast
  then have k2: "participants_of ''r1'' w1 = []" by (simp add: p deleteDoc_def)
  obtain r v' where un: "unbanUser ''r1'' ''alice'' ?v = (r, v')" by (cases "unbanUser ''r1'' ''alice'' ?v")
  have dv: "db ?v = Some (example_db 3 [] [(''b1'', example_ban ''alice'')])"
    by (simp add: example_world_def)
  have pv: "participants_of ''r1'' ?v = []" by (simp add: participants_of_def example_defs)
  have u1: "r = Inr () \<and> isUserBanned ''r1'' ''alice'' v' = Inr False
      \<and> (\<forall>room. participants_of room v' = participants_of room ?v)"
    using kick_then_unban [where roomId = "''r1''" and odId = "''alice''" and v = ?v
        and vdb = "example_db 3 [] [(''b1'', example_ban ''alice'')]" and r = r and v' = v',
        THEN conjunct2, THEN conjunct2] dv un
    by blast
  then have u2: "participants_of ''r1'' v' = []" using pv by simp
  from k k1 k2 un u1 u2 show ?thesis by simp
qed

section \<open>Submitting answers\<close>

lemma same_pair_redraw [simp]: "same_pair q odId (redraw cData now a) = same_pair q odId a"
  by (simp add: same_pair_def redraw_def)

lemma map_fst_redraw_at [simp]: "map fst (redraw_at i cData now c) = map fst c"
  by (induction c) (auto simp: redraw_at_def)

lemma getDocs_where_redraw_at:
  "getDocs_where (same_pair q odId) (redraw_at i cData now c)
     = redraw_at i cData now (getDocs_where (same_pair q odId) c)"
  by (induction c) (auto simp: redraw_at_def getDocs_where_def split: if_splits)

lemma length_redraw_at [simp]: "length (redraw_at i cData now c) = length c"
  by (simp add: redraw_at_def)

lemma getDocs_where_append:
  "getDocs_where p (c @ c') = getDocs_where p c @ getDocs_where p c'"
  by (simp add: getDocs_where_def)

lemma getDocs_where_fst_mem: "getDocs_where p c = x # xs \<Longrightarrow> fst x \<in> set (map fst c)"
proof -
  assume a: "getDocs_where p c = x # xs"
  have "x \<in> set (getDocs_where p c)" by (simp add: a)
  then show ?thesis by (auto simp: getDocs_where_def)
qed

lemma submitAnswer_cases:
  assumes d: "db w = Some database"
  shows "submitAnswer newId now roomId qId odId displayName cData w =
     (case getDocs_where (same_pair qId odId) (answers database roomId) of
        (existingId, existingData) # _ \<Rightarrow>
          (Inr (existingId, getDoc existingId (redraw_at existingId cData now (answers database roomId))),
           w\<lparr>db := Some (database\<lparr>answers := (answers database)
                (roomId := redraw_at existingId cData now (answers database roomId))\<rparr>)\<rparr>)
      | [] \<Rightarrow>
          if newId \<in> set (map fst (answers database roomId)) then (Inl AlreadyExists, w)
          else (Inr (newId, Some (new_answer qId odId displayName cData now)),
                w\<lparr>db := Some (database\<lparr>answers := (answers database)
                  (roomId := answers database roomId @
                     [(newId, new_answer qId odId displayName cData now)])\<rparr>)\<rparr>))"
proof (cases "getDocs_where (same_pair qId odId) (answers database roomId)")
  case Nil
  then have n: "getDocs_where (\<lambda>a. questionId a = qId \<and> a_odId a = odId) (answers database roomId) = []"
    by (simp add: same_pair_def[abs_def])
  show ?thesis
    using d by (simp add: submitAnswer_def n Nil addDoc_def new_answer_def getDoc_added)
next
  case (Cons x xs)
  obtain eid ed where x: "x = (eid, ed)" by (cases x)
  have c: "getDocs_where (\<lambda>a. questionId a = qId \<and> a_odId a = odId) (answers database roomId) = (eid, ed) # xs"
    using Cons x by (simp add: same_pair_def[abs_def])
  have mem: "eid \<in> set (map fst (answers database roomId))"
    using getDocs_where_fst_mem[OF Cons] x by simp
  have rd: "(\<lambda>a. a\<lparr>canvasData := cData, updatedAt := now\<rparr>) = redraw cData now"
    by (rule ext) (simp add: redraw_def)
  show ?thesis
    using d mem unfolding submitAnswer_def rd
    by (simp add: c Cons x updateDoc_def redraw_at_def)
qed

lemma answers_for_same_pair:
  "answers_for roomId qId odId w = getDocs_where (same_pair qId odId) (answers_of roomId w)"
  by (simp add: answers_for_def same_pair_def[abs_def])

lemma submitAnswer_not_configured:
  "db w = None \<Longrightarrow> submitAnswer newId now roomId qId odId displayName cData w = (Inl NotConfigured, w)"
  by (simp add: submitAnswer_def)

lemma answers_of_upd [simp]:
  "answers_of roomId (w\<lparr>db := Some (database\<lparr>answers := (answers database)(roomId := c)\<rparr>)\<rparr>) = c"
  by (simp add: answers_of_def)

text \<open>What a call leaves in the room's answers: untouched, one record redrawn, or one record added.\<close>

lemma submitAnswer_answers:
  assumes "submitAnswer newId now roomId qId odId displayName cData w = (res, w')"
  shows "(\<exists>e. res = Inl e \<and> w' = w)
    \<or> (\<exists>eid ed rest a. answers_for roomId qId odId w = (eid, ed) # rest \<and> res = Inr (eid, a)
          \<and> answers_of roomId w' = redraw_at eid cData now (answers_of roomId w))
    \<or> (answers_for roomId qId odId w = [] \<and> newId \<notin> set (map fst (answers_of roomId w))
          \<and> res = Inr (newId, Some (new_answer qId odId displayName cData now))
          \<and> answers_of roomId w' = answers_of roomId w @ [(newId, new_answer qId odId displayName cData now)])"
proof (cases "db w")
  case None
  then show ?thesis using assms by (auto simp add: submitAnswer_not_configured)
next
  case (Some database)
  have ao: "answers_of roomId w = answers database roomId" by (simp add: answers_of_def Some)
  show ?thesis
  proof (cases "getDocs_where (same_pair qId odId) (answers database roomId)")
    case Nil
    then show ?thesis
      using assms unfolding submitAnswer_cases[OF Some] answers_for_same_pair ao
      by (auto split: if_splits)
  next
    case (Cons x xs)
    obtain eid ed where x: "x = (eid, ed)" by (cases x)
    show ?thesis
      using assms Cons x unfolding submitAnswer_cases[OF Some] answers_for_same_pair ao
      by auto
  qed
qed

lemma at_most_one_step:
  assumes inv: "at_most_one roomId w"
    and sub: "submitAnswer newId now roomId qId odId displayName cData w = (res, w')"
  shows "at_most_one roomId w'"
proof -
  from submitAnswer_answers[OF sub] consider
    (err) "w' = w"
    | (upd) eid where "answers_of roomId w' = redraw_at eid cData now (answers_of roomId w)"
    | (new) "answers_for roomId qId odId w = []"
        "answers_of roomId w' = answers_of roomId w @ [(newId, new_answer qId odId displayName cData now)]"
    by blast
  then show ?thesis
  proof cases
    case err
    then show ?thesis using inv by simp
  next
    case upd
    then show ?thesis using inv
      by (simp add: at_most_one_def answers_for_same_pair getDocs_where_redraw_at)
  next
    case new
    show ?thesis unfolding at_most_one_def
    proof (intro allI)
      fix q odI
      show "length (answers_for roomId q odI w') \<le> 1"
      proof (cases "q = qId \<and> odI = odId")
        case True
        then show ?thesis using new
          by (simp add: answers_for_same_pair getDocs_where_append getDocs_where_def)
      next
        case False
        then have "\<not> same_pair q odI (new_answer qId odId displayName cData now)"
          by (auto simp: same_pair_def new_answer_def)
        then have "answers_for roomId q odI w' = answers_for roomId q odI w"
          using new(2) by (simp add: answers_for_same_pair getDocs_where_append getDocs_where_def)
        then show ?thesis using inv by (simp add: at_most_one_def)
      qed
    qed
  qed
qed

lemma at_most_one_run:
  "at_most_one roomId w \<Longrightarrow> at_most_one roomId (run_submits roomId cs w)"
proof (induction cs arbitrary: w)
  case Nil
  then show ?case by (simp add: run_submits_def)
next
  case (Cons c cs)
  have "at_most_one roomId (snd (submit roomId c w))"
    using at_most_one_step[OF Cons.prems, of "sc_newId c" "sc_now c" "sc_questionId c" "sc_odId c"
        "sc_displayName c" "sc_canvasData c" "fst (submit roomId c w)" "snd (submit roomId c w)"]
    by (simp add: submit_def)
  from Cons.IH[OF this] show ?case by (simp add: run_submits_def)
qed

lemma at_most_one_empty: "at_most_one roomId empty_world"
  by (simp add: at_most_one_def answers_for_def answers_of_def empty_world_def empty_firestore_def
      getDocs_where_def)

lemma submitted_is_first:
  assumes "submitAnswer newId now roomId qId odId displayName cData w = (Inr (rid, a), w')"
  shows "\<exists>ed rest. answers_for roomId qId odId w' = (rid, ed) # rest"
proof -
  from submitAnswer_answers[OF assms] consider
    (upd) ed rest where "answers_for roomId qId odId w = (rid, ed) # rest"
        "answers_of roomId w' = redraw_at rid cData now (answers_of roomId w)"
    | (new) "answers_for roomId qId odId w = []" "rid = newId"
        "answers_of roomId w' = answers_of roomId w @ [(newId, new_answer qId odId displayName cData now)]"
    by auto
  then show ?thesis
  proof cases
    case upd
    have "answers_for roomId qId odId w' = redraw_at rid cData now ((rid, ed) # rest)"
      using upd by (simp add: answers_for_same_pair getDocs_where_redraw_at)
    then show ?thesis by (simp add: redraw_at_def)
  next
    case new
    have "same_pair qId odId (new_answer qId odId displayName cData now)"
      by (simp add: same_pair_def new_answer_def)
    then show ?thesis using new
      by (simp add: answers_for_same_pair getDocs_where_append) (simp add: getDocs_where_def)
  qed
qed

lemma redraw_at_map: "redraw_at i cData now c = map (redraw_entry i cData now) c"
  unfolding redraw_at_def by (rule map_cong) (auto simp: redraw_entry_def)

lemma fst_redraw_entry [simp]: "fst (redraw_entry i cData now x) = fst x"
  by (simp add: redraw_entry_def)

lemma kept_fields_redraw_entry [simp]: "kept_fields (redraw_entry i cData now x) = kept_fields x"
  by (simp add: redraw_entry_def kept_fields_def redraw_def)

lemma redraw_entry_other [simp]: "fst x \<noteq> i \<Longrightarrow> redraw_entry i cData now x = x"
  by (simp add: redraw_entry_def)

lemma kept_fields_redraw_at: "map kept_fields (redraw_at i cData now c) = map kept_fields c"
  by (simp add: redraw_at_map)

lemma others_redraw_at:
  "filter (\<lambda>x. fst x \<noteq> i) (redraw_at i cData now c) = filter (\<lambda>x. fst x \<noteq> i) c"
  unfolding redraw_at_map by (induction c) simp_all

lemma redrawn_redraw_at:
  assumes "x \<in> set (redraw_at i cData now c)" "fst x = i"
  shows "canvasData (snd x) = cData \<and> updatedAt (snd x) = now"
proof -
  obtain y where y: "y \<in> set c" "x = redraw_entry i cData now y"
    using assms(1) unfolding redraw_at_map by auto
  then have "fst y = i" using assms(2) by simp
  then show ?thesis using y(2) by (simp add: redraw_entry_def redraw_def)
qed

lemma getDoc_redraw_at:
  "distinct (map fst c) \<Longrightarrow> (i, d) \<in> set c \<Longrightarrow> getDoc i (redraw_at i cData now c) = Some (redraw cData now d)"
proof (induction c)
  case Nil
  then show ?case by simp
next
  case (Cons x c)
  show ?case
  proof (cases "fst x = i")
    case True
    have "(i, d) \<notin> set c"
    proof
      assume "(i, d) \<in> set c"
      then have "i \<in> fst ` set c" by (rule image_eqI[rotated]) simp
      then show False using Cons.prems(1) True by simp
    qed
    then have "x = (i, d)" using Cons.prems(2) by simp
    then show ?thesis by (simp add: getDoc_def redraw_at_map redraw_entry_def)
  next
    case False
    then have "(i, d) \<in> set c" using Cons.prems by auto
    then have "getDoc i (redraw_at i cData now c) = Some (redraw cData now d)"
      using Cons.IH Cons.prems by simp
    then show ?thesis using False by (simp add: getDoc_def redraw_at_map)
  qed
qed

lemma getDocs_where_hd_mem: "getDocs_where p c = x # xs \<Longrightarrow> x \<in> set c"
proof -
  assume a: "getDocs_where p c = x # xs"
  have "x \<in> set (getDocs_where p c)" by (simp add: a)
  then show ?thesis by (simp add: getDocs_where_def)
qed

text \<open>
  C3. When a \<open>submitAnswer\<close> call has returned a record, the next call for the same
  question and identity in the room returns a record of the same id and updates it: the
  ids of the room's answers are what they were (nothing is created), the record of that
  id is there and holds the drawing and time of the second call, and the records of
  other ids are unchanged. A call keeps the invariant that there is at most one answer
  per question and identity, and so does any sequence of calls, in particular from the
  empty database.
\<close>

theorem resubmission_same_record:
  "(submitAnswer n t roomId qId odId dn cd w = (Inr (rid, a), w')
      \<and> submitAnswer n' t' roomId qId odId dn' cd' w' = (res, w'') \<longrightarrow>
        (\<exists>a'. res = Inr (rid, a'))
      \<and> map fst (answers_of roomId w'') = map fst (answers_of roomId w')
      \<and> rid \<in> set (map fst (answers_of roomId w''))
      \<and> (\<forall>x \<in> set (answers_of roomId w''). fst x = rid \<longrightarrow>
            canvasData (snd x) = cd' \<and> updatedAt (snd x) = t')
      \<and> map kept_fields (answers_of roomId w'') = map kept_fields (answers_of roomId w')
      \<and> filter (\<lambda>x. fst x \<noteq> rid) (answers_of roomId w'')
          = filter (\<lambda>x. fst x \<noteq> rid) (answers_of roomId w'))
   \<and> (at_most_one roomId w \<longrightarrow> at_most_one roomId (snd (submitAnswer n t roomId qId odId dn cd w)))
   \<and> (at_most_one roomId w \<longrightarrow> at_most_one roomId (run_submits roomId cs w))
   \<and> at_most_one roomId (run_submits roomId cs empty_world)"
proof (intro conjI impI)
  assume a: "submitAnswer n t roomId qId odId dn cd w = (Inr (rid, a), w')
      \<and> submitAnswer n' t' roomId qId odId dn' cd' w' = (res, w'')"
  then obtain ed rest where first: "answers_for roomId qId odId w' = (rid, ed) # rest"
    using submitted_is_first by blast
  from a have second: "submitAnswer n' t' roomId qId odId dn' cd' w' = (res, w'')" by simp
  from submitAnswer_answers[OF second] first
  have "\<exists>a'. res = Inr (rid, a') \<and> answers_of roomId w'' = redraw_at rid cd' t' (answers_of roomId w')
      \<or> (\<exists>e. res = Inl e \<and> w'' = w')"
    by auto
  moreover have "\<not> (\<exists>e. res = Inl e)"
  proof (cases "db w'")
    case None
    then show ?thesis using first by (simp add: answers_for_def answers_of_def getDocs_where_def)
  next
    case (Some database)
    have "getDocs_where (same_pair qId odId) (answers database roomId) = (rid, ed) # rest"
      using first by (simp add: answers_for_same_pair answers_of_def Some)
    then show ?thesis using second unfolding submitAnswer_cases[OF Some] by auto
  qed
  ultimately have r: "\<exists>a'. res = Inr (rid, a') \<and> answers_of roomId w'' = redraw_at rid cd' t' (answers_of roomId w')"
    by blast
  then have w'': "answers_of roomId w'' = redraw_at rid cd' t' (answers_of roomId w')" by blast
  from r show "\<exists>a'. res = Inr (rid, a')" by blast
  show ids: "map fst (answers_of roomId w'') = map fst (answers_of roomId w')" by (simp add: w'')
  have "rid \<in> set (map fst (answers_of roomId w'))"
    using getDocs_where_fst_mem[of "same_pair qId odId" "answers_of roomId w'" "(rid, ed)" rest] first
    by (simp add: answers_for_same_pair)
  then show "rid \<in> set (map fst (answers_of roomId w''))" using ids by simp
  show "\<forall>x \<in> set (answers_of roomId w''). fst x = rid \<longrightarrow>
            canvasData (snd x) = cd' \<and> updatedAt (snd x) = t'"
    using redrawn_redraw_at by (auto simp: w'')
  show "map kept_fields (answers_of roomId w'') = map kept_fields (answers_of roomId w')"
    by (simp add: w'' kept_fields_redraw_at)
  show "filter (\<lambda>x. fst x \<noteq> rid) (answers_of roomId w'')
          = filter (\<lambda>x. fst x \<noteq> rid) (answers_of roomId w')"
    by (simp add: w'' others_redraw_at)
next
  assume "at_most_one roomId w"
  then show "at_most_one roomId (snd (submitAnswer n t roomId qId odId dn cd w))"
    using at_most_one_step[of roomId w n t qId odId dn cd "fst (submitAnswer n t roomId qId odId dn cd w)"
        "snd (submitAnswer n t roomId qId odId dn cd w)"] by simp
next
  assume "at_most_one roomId w"
  then show "at_most_one roomId (run_submits roomId cs w)" by (rule at_most_one_run)
next
  show "at_most_one roomId (run_submits roomId cs empty_world)"
    by (rule at_most_one_run[OF at_most_one_empty])
qed

theorem resubmission_same_record_witness:
  "fst (submitAnswer ''a1'' 10 ''r1'' ''q1'' ''alice'' ''Name'' ''d1'' empty_world)
     = Inr (''a1'', Some (new_answer ''q1'' ''alice'' ''Name'' ''d1'' 10))
   \<and> (\<exists>a'. fst (submitAnswer ''a2'' 20 ''r1'' ''q1'' ''alice'' ''Name'' ''d2''
          (snd (submitAnswer ''a1'' 10 ''r1'' ''q1'' ''alice'' ''Name'' ''d1'' empty_world)))
        = Inr (''a1'', a'))
   \<and> map (\<lambda>x. (fst x, canvasData (snd x), updatedAt (snd x)))
        (answers_of ''r1'' (snd (submitAnswer ''a2'' 20 ''r1'' ''q1'' ''alice'' ''Name'' ''d2''
          (snd (submitAnswer ''a1'' 10 ''r1'' ''q1'' ''alice'' ''Name'' ''d1'' empty_world)))))
       = [(''a1'', ''d2'', 20)]
   \<and> at_most_one ''r1'' empty_world
   \<and> at_most_one ''r1'' (snd (submitAnswer ''a1'' 10 ''r1'' ''q1'' ''alice'' ''Name'' ''d1'' empty_world))"
proof -
  let ?s1 = "submitAnswer ''a1'' 10 ''r1'' ''q1'' ''alice'' ''Name'' ''d1'' empty_world"
  let ?s2 = "submitAnswer ''a2'' 20 ''r1'' ''q1'' ''alice'' ''Name'' ''d2'' (snd ?s1)"
  have f1: "fst ?s1 = Inr (''a1'', Some (new_answer ''q1'' ''alice'' ''Name'' ''d1'' 10))"
    by (simp add: submitAnswer_def empty_world_def empty_firestore_def getDocs_where_def
        addDoc_def getDoc_def new_answer_def)
  have ids1: "map fst (answers_of ''r1'' (snd ?s1)) = [''a1'']"
    by (simp add: submitAnswer_def empty_world_def empty_firestore_def getDocs_where_def
        addDoc_def getDoc_def answers_of_def)
  have h1: "?s1 = (Inr (''a1'', Some (new_answer ''q1'' ''alice'' ''Name'' ''d1'' 10)), snd ?s1)"
    using f1 by (simp add: prod_eq_iff)
  have h2: "?s2 = (fst ?s2, snd ?s2)" by simp
  have e: "at_most_one ''r1'' empty_world"
    using resubmission_same_record [where roomId = "''r1''" and cs = "[]"]
    by (simp add: run_submits_def)
  from resubmission_same_record [where n = "''a1''" and t = 10 and roomId = "''r1''" and qId = "''q1''"
      and odId = "''alice''" and dn = "''Name''" and cd = "''d1''" and w = empty_world
      and rid = "''a1''" and a = "Some (new_answer ''q1'' ''alice'' ''Name'' ''d1'' 10)"
      and w' = "snd ?s1" and n' = "''a2''" and t' = 20 and dn' = "''Name''" and cd' = "''d2''"
      and res = "fst ?s2" and w'' = "snd ?s2"] h1 h2 e
  have t: "(\<exists>a'. fst ?s2 = Inr (''a1'', a'))
      \<and> map fst (answers_of ''r1'' (snd ?s2)) = map fst (answers_of ''r1'' (snd ?s1))
      \<and> (\<forall>x \<in> set (answers_of ''r1'' (snd ?s2)). fst x = ''a1'' \<longrightarrow>
            canvasData (snd x) = ''d2'' \<and> updatedAt (snd x) = 20)
      \<and> at_most_one ''r1'' (snd ?s1)"
    by blast
  then have "map fst (answers_of ''r1'' (snd ?s2)) = [''a1'']" using ids1 by simp
  then obtain x where x: "answers_of ''r1'' (snd ?s2) = [x]" "fst x = ''a1''" by auto
  then have "canvasData (snd x) = ''d2'' \<and> updatedAt (snd x) = 20" using t by simp
  then have "map (\<lambda>x. (fst x, canvasData (snd x), updatedAt (snd x))) (answers_of ''r1'' (snd ?s2))
      = [(''a1'', ''d2'', 20)]"
    using x by simp
  with f1 t e show ?thesis by blast
qed

text \<open>
  C9. When an answer for the question and identity exists, \<open>submitAnswer\<close> returns the id
  of the first one; every record of the room keeps its id, question, identity, display
  name and its \<open>isCorrect\<close> and \<open>isRevealed\<close> flags; the records of other ids are
  unchanged; the record of that id has the new drawing and time (and is what the call
  returns, ids being unique). When no such answer exists and the call returns, the new
  record has \<open>isCorrect = False\<close> and \<open>isRevealed = False\<close> and is appended.
\<close>

theorem resubmission_frame:
  "(submitAnswer newId now roomId qId odId displayName cData w = (res, w')
      \<and> answers_for roomId qId odId w = (eid, ed) # rest \<longrightarrow>
        (\<exists>a. res = Inr (eid, a)
            \<and> (distinct (map fst (answers_of roomId w)) \<longrightarrow>
                 a = Some (ed\<lparr>canvasData := cData, updatedAt := now\<rparr>)))
      \<and> map kept_fields (answers_of roomId w') = map kept_fields (answers_of roomId w)
      \<and> filter (\<lambda>x. fst x \<noteq> eid) (answers_of roomId w') = filter (\<lambda>x. fst x \<noteq> eid) (answers_of roomId w)
      \<and> (\<forall>x \<in> set (answers_of roomId w'). fst x = eid \<longrightarrow>
            canvasData (snd x) = cData \<and> updatedAt (snd x) = now))
   \<and> (submitAnswer newId now roomId qId odId displayName cData w = (Inr (rid, a), w')
      \<and> answers_for roomId qId odId w = [] \<longrightarrow>
        rid = newId
      \<and> a = Some \<lparr>questionId = qId, a_odId = odId, a_displayName = displayName, canvasData = cData,
                  isCorrect = False, isRevealed = False, updatedAt = now\<rparr>
      \<and> answers_of roomId w' = answers_of roomId w @
           [(newId, \<lparr>questionId = qId, a_odId = odId, a_displayName = displayName, canvasData = cData,
                     isCorrect = False, isRevealed = False, updatedAt = now\<rparr>)])"
proof (intro conjI impI)
  assume a: "submitAnswer newId now roomId qId odId displayName cData w = (res, w')
      \<and> answers_for roomId qId odId w = (eid, ed) # rest"
  then have sub: "submitAnswer newId now roomId qId odId displayName cData w = (res, w')"
    and ex: "answers_for roomId qId odId w = (eid, ed) # rest" by simp_all
  obtain database where d: "db w = Some database"
    using ex by (cases "db w") (auto simp: answers_for_def answers_of_def getDocs_where_def)
  have ao: "answers_of roomId w = answers database roomId" by (simp add: answers_of_def d)
  have q: "getDocs_where (same_pair qId odId) (answers database roomId) = (eid, ed) # rest"
    using ex by (simp add: answers_for_same_pair ao)
  have res: "res = Inr (eid, getDoc eid (redraw_at eid cData now (answers database roomId)))"
    and w': "answers_of roomId w' = redraw_at eid cData now (answers database roomId)"
    using sub unfolding submitAnswer_cases[OF d] q by auto
  have mem: "(eid, ed) \<in> set (answers database roomId)" using getDocs_where_hd_mem[OF q] .
  have "distinct (map fst (answers_of roomId w)) \<longrightarrow>
      getDoc eid (redraw_at eid cData now (answers database roomId))
        = Some (ed\<lparr>canvasData := cData, updatedAt := now\<rparr>)"
    using getDoc_redraw_at[OF _ mem] by (simp add: ao redraw_def)
  then show "\<exists>a. res = Inr (eid, a)
            \<and> (distinct (map fst (answers_of roomId w)) \<longrightarrow>
                 a = Some (ed\<lparr>canvasData := cData, updatedAt := now\<rparr>))"
    using res by simp
  show "map kept_fields (answers_of roomId w') = map kept_fields (answers_of roomId w)"
    by (simp add: w' ao kept_fields_redraw_at)
  show "filter (\<lambda>x. fst x \<noteq> eid) (answers_of roomId w') = filter (\<lambda>x. fst x \<noteq> eid) (answers_of roomId w)"
    by (simp add: w' ao others_redraw_at)
  show "\<forall>x \<in> set (answers_of roomId w'). fst x = eid \<longrightarrow>
            canvasData (snd x) = cData \<and> updatedAt (snd x) = now"
    using redrawn_redraw_at by (auto simp: w')
next
  assume a: "submitAnswer newId now roomId qId odId displayName cData w = (Inr (rid, a), w')
      \<and> answers_for roomId qId odId w = []"
  then have sub: "submitAnswer newId now roomId qId odId displayName cData w = (Inr (rid, a), w')"
    and ex: "answers_for roomId qId odId w = []" by simp_all
  from submitAnswer_answers[OF sub] ex
  have r: "Inr (rid, a) = Inr (newId, Some (new_answer qId odId displayName cData now))
      \<and> answers_of roomId w' = answers_of roomId w @ [(newId, new_answer qId odId displayName cData now)]"
    by auto
  from r show "rid = newId" by simp
  from r show "a = Some \<lparr>questionId = qId, a_odId = odId, a_displayName = displayName, canvasData = cData,
                  isCorrect = False, isRevealed = False, updatedAt = now\<rparr>"
    by (simp add: new_answer_def)
  from r show "answers_of roomId w' = answers_of roomId w @
           [(newId, \<lparr>questionId = qId, a_odId = odId, a_displayName = displayName, canvasData = cData,
                     isCorrect = False, isRevealed = False, updatedAt = now\<rparr>)]"
    by (simp add: new_answer_def)
qed

theorem resubmission_frame_witness:
  "answers_for ''r1'' ''q1'' ''alice'' marked_world = [(''a1'', marked_answer)]
   \<and> distinct (map fst (answers_of ''r1'' marked_world))
   \<and> fst (submitAnswer ''a2'' 20 ''r1'' ''q1'' ''alice'' ''Other'' ''d2'' marked_world)
       = Inr (''a1'', Some (marked_answer\<lparr>canvasData := ''d2'', updatedAt := 20\<rparr>))
   \<and> map kept_fields (answers_of ''r1''
         (snd (submitAnswer ''a2'' 20 ''r1'' ''q1'' ''alice'' ''Other'' ''d2'' marked_world)))
       = [(''a1'', ''q1'', ''alice'', ''Name'', True, True)]
   \<and> answers_for ''r1'' ''q1'' ''bob'' marked_world = []
   \<and> fst (submitAnswer ''a2'' 20 ''r1'' ''q1'' ''bob'' ''Bob'' ''d3'' marked_world)
       = Inr (''a2'', Some \<lparr>questionId = ''q1'', a_odId = ''bob'', a_displayName = ''Bob'',
            canvasData = ''d3'', isCorrect = False, isRevealed = False, updatedAt = 20\<rparr>)"
proof -
  let ?s = "submitAnswer ''a2'' 20 ''r1'' ''q1'' ''alice'' ''Other'' ''d2'' marked_world"
  let ?b = "submitAnswer ''a2'' 20 ''r1'' ''q1'' ''bob'' ''Bob'' ''d3'' marked_world"
  have ao: "answers_of ''r1'' marked_world = [(''a1'', marked_answer)]"
    by (simp add: answers_of_def marked_world_def empty_firestore_def)
  have q: "answers_for ''r1'' ''q1'' ''alice'' marked_world = (''a1'', marked_answer) # []"
    by (simp add: answers_for_def ao getDocs_where_def marked_answer_def)
  have dist: "distinct (map fst (answers_of ''r1'' marked_world))" by (simp add: ao)
  have kf: "map kept_fields (answers_of ''r1'' marked_world) = [(''a1'', ''q1'', ''alice'', ''Name'', True, True)]"
    by (simp add: ao kept_fields_def marked_answer_def)
  have hs: "?s = (fst ?s, snd ?s)" by simp
  from resubmission_frame [where newId = "''a2''" and now = 20 and roomId = "''r1''" and qId = "''q1''"
      and odId = "''alice''" and displayName = "''Other''" and cData = "''d2''" and w = marked_world
      and res = "fst ?s" and w' = "snd ?s" and eid = "''a1''" and ed = marked_answer and rest = "[]",
      THEN conjunct1] hs q dist
  have r1: "fst ?s = Inr (''a1'', Some (marked_answer\<lparr>canvasData := ''d2'', updatedAt := 20\<rparr>))
      \<and> map kept_fields (answers_of ''r1'' (snd ?s)) = map kept_fields (answers_of ''r1'' marked_world)"
    by blast
  have qb: "answers_for ''r1'' ''q1'' ''bob'' marked_world = []"
    by (simp add: answers_for_def ao getDocs_where_def marked_answer_def)
  obtain a wb where hb: "?b = (Inr (''a2'', a), wb)"
    by (simp add: submitAnswer_def marked_world_def empty_firestore_def getDocs_where_def
        marked_answer_def addDoc_def)
  from resubmission_frame [where newId = "''a2''" and now = 20 and roomId = "''r1''" and qId = "''q1''"
      and odId = "''bob''" and displayName = "''Bob''" and cData = "''d3''" and w = marked_world
      and rid = "''a2''" and a = a and w' = wb, THEN conjunct2] hb qb
  have r2: "a = Some \<lparr>questionId = ''q1'', a_odId = ''bob'', a_displayName = ''Bob'',
            canvasData = ''d3'', isCorrect = False, isRevealed = False, updatedAt = 20\<rparr>"
    by blast
  from q dist r1 kf qb hb r2 show ?thesis by simp
qed

section \<open>The room status\<close>

lemma map_of_updated:
  "map_of (map (\<lambda>(j, d). if j = i then (j, f d) else (j, d)) c) i = map_option f (map_of c i)"
  by (induction c) auto

lemma update_room_Inr:
  assumes "update_room roomId f w = (Inr u, w')"
  shows "\<exists>database. db w = Some database \<and> roomId \<in> set (map fst (rooms database))
     \<and> w' = w\<lparr>db := Some (database\<lparr>rooms :=
          map (\<lambda>(j, d). if j = roomId then (j, f d) else (j, d)) (rooms database)\<rparr>)\<rparr>"
  using assms by (auto simp: update_room_def updateDoc_def split: option.splits if_splits)

lemma update_room_Inl: "update_room roomId f w = (Inl e, w') \<Longrightarrow> w' = w"
  by (auto simp: update_room_def split: option.splits sum.splits)

lemma update_room_status:
  assumes "update_room roomId f w = (Inr u, w')" "\<And>r. status (f r) = st"
  shows "room_status_of roomId w' = Some st"
proof -
  obtain database where d: "db w = Some database" "roomId \<in> set (map fst (rooms database))"
    "w' = w\<lparr>db := Some (database\<lparr>rooms :=
          map (\<lambda>(j, d). if j = roomId then (j, f d) else (j, d)) (rooms database)\<rparr>)\<rparr>"
    using update_room_Inr[OF assms(1)] by blast
  obtain r where r: "map_of (rooms database) roomId = Some r"
    using d(2) by (metis domD dom_map_of_conv_image_fst list.set_map)
  show ?thesis
    by (simp add: room_status_of_def d(3) getDoc_def map_of_updated r assms(2))
qed

lemma update_room_exists:
  assumes "room_status_of roomId w = Some st0"
  shows "\<exists>w'. update_room roomId f w = (Inr (), w')"
proof -
  obtain database where d: "db w = Some database"
    using assms by (cases "db w") (auto simp: room_status_of_def)
  have "map_of (rooms database) roomId \<noteq> None"
    using assms by (auto simp: room_status_of_def d getDoc_def)
  then have "roomId \<in> set (map fst (rooms database))"
    by (metis domIff dom_map_of_conv_image_fst list.set_map)
  then show ?thesis by (simp add: update_room_def d updateDoc_def)
qed

lemma upload_question_image_db:
  "upload_question_image ev roomId imageFile w = (r, w1) \<Longrightarrow> db w1 = db w"
  by (auto simp: upload_question_image_def Let_def split: option.splits if_splits prod.splits)

lemma room_status_of_questions [simp]:
  "room_status_of roomId (w\<lparr>db := Some (database\<lparr>questions := qs\<rparr>)\<rparr>) =
   room_status_of roomId (w\<lparr>db := Some database\<rparr>)"
  by (simp add: room_status_of_def)

lemma room_status_of_db_cong: "db w1 = db w \<Longrightarrow> room_status_of roomId w1 = room_status_of roomId w"
  by (simp add: room_status_of_def)

lemma createQuestion_status:
  assumes "createQuestion ev newId now roomId text imageFile w = (res, w')"
  shows "(\<forall>x. res = Inr x \<longrightarrow> room_status_of roomId w' = Some Questioning)
       \<and> (\<forall>e. res = Inl e \<longrightarrow> room_status_of roomId w' = room_status_of roomId w)"
proof (cases "db w")
  case None
  then show ?thesis using assms by (auto simp: createQuestion_def)
next
  case (Some database)
  obtain r1 w1 where up: "upload_question_image ev roomId imageFile w = (r1, w1)"
    by (cases "upload_question_image ev roomId imageFile w")
  have d1: "db w1 = Some database" using upload_question_image_db[OF up] Some by simp
  show ?thesis
  proof (cases r1)
    case (Inl e)
    then show ?thesis using assms Some up room_status_of_db_cong[of w1 w roomId] d1
      by (auto simp: createQuestion_def)
  next
    case (Inr imageURL)
    let ?doc = "\<lparr>q_roomId = roomId, q_text = text, q_imageURL = imageURL, q_createdAt = now\<rparr>"
    show ?thesis
    proof (cases "addDoc newId ?doc (questions database roomId)")
      case (Inl e)
      then show ?thesis using assms Some up Inr room_status_of_db_cong[of w1 w roomId] d1
        by (auto simp: createQuestion_def)
    next
      case qs: (Inr qs)
      let ?w2 = "w1\<lparr>db := Some (database\<lparr>questions := (questions database)(roomId := qs)\<rparr>)\<rparr>"
      let ?f = "\<lambda>r. r\<lparr>currentQuestionId := Some newId, status := Questioning\<rparr>"
      have s2: "room_status_of roomId ?w2 = room_status_of roomId w"
        using d1 Some by (simp add: room_status_of_def)
      obtain r3 w3 where ur: "update_room roomId ?f ?w2 = (r3, w3)"
        by (cases "update_room roomId ?f ?w2")
      show ?thesis
      proof (cases r3)
        case (Inl e)
        have "w3 = ?w2" using update_room_Inl ur Inl by blast
        then show ?thesis using assms Some up Inr qs ur Inl s2
          by (auto simp: createQuestion_def Let_def)
      next
        case u: (Inr u)
        have "room_status_of roomId w3 = Some Questioning"
          using update_room_status[of roomId ?f ?w2 u w3 Questioning] ur u by simp
        then show ?thesis using assms Some up Inr qs ur u
          by (auto simp: createQuestion_def Let_def)
      qed
    qed
  qed
qed

lemma apply_room_op_status:
  assumes "apply_room_op roomId op w = (res, w')"
  shows "(\<forall>u. res = Inr u \<longrightarrow> room_status_of roomId w' = Some (written_status op))
       \<and> (\<forall>e. res = Inl e \<longrightarrow> room_status_of roomId w' = room_status_of roomId w)"
proof (cases op)
  case (CreateQuestion ev newId now qtext imageFile)
  obtain r0 where r0: "createQuestion ev newId now roomId qtext imageFile w = (r0, w')"
    and res: "res = map_sum id (\<lambda>x. ()) r0"
    using assms CreateQuestion by (auto split: prod.splits)
  from createQuestion_status[OF r0] res CreateQuestion show ?thesis
    by (cases r0) auto
next
  case OpenAnswers
  then show ?thesis using assms update_room_status[of roomId _ w _ w' Open] update_room_Inl[of roomId _ w _ w']
    by (auto simp: openAnswers_def)
next
  case ResetRoomToWaiting
  then show ?thesis using assms update_room_status[of roomId _ w _ w' Waiting] update_room_Inl[of roomId _ w _ w']
    by (auto simp: resetRoomToWaiting_def)
next
  case EndRoom
  then show ?thesis using assms update_room_status[of roomId _ w _ w' Ended] update_room_Inl[of roomId _ w _ w']
    by (auto simp: endRoom_def)
next
  case (UpdateRoomStatus st)
  then show ?thesis using assms update_room_status[of roomId _ w _ w' st] update_room_Inl[of roomId _ w _ w']
    by (auto simp: updateRoomStatus_def)
qed

lemma run_room_ops_status:
  "room_status_of roomId (run_room_ops roomId ops w)
     \<in> insert (room_status_of roomId w) (Some ` written_status ` set ops)"
proof (induction ops arbitrary: w)
  case Nil
  show ?case by (simp add: run_room_ops_def)
next
  case (Cons op ops)
  obtain res w1 where st: "apply_room_op roomId op w = (res, w1)"
    by (cases "apply_room_op roomId op w")
  have one: "room_status_of roomId w1 \<in> {room_status_of roomId w, Some (written_status op)}"
    using apply_room_op_status[OF st] by (cases res) auto
  have "run_room_ops roomId (op # ops) w = run_room_ops roomId ops w1"
    using st by (simp add: run_room_ops_def)
  then show ?case using Cons.IH[of w1] one by auto
qed

text \<open>
  C2 (amended). Each of the five store calls, when it succeeds, leaves the room in the
  status it writes, whatever the status was before (\<open>createQuestion\<close>: questioning,
  \<open>openAnswers\<close>: open, \<open>resetRoomToWaiting\<close>: waiting, \<open>endRoom\<close>: ended,
  \<open>updateRoomStatus s\<close>: \<open>s\<close>); a call that throws leaves the status. So after any
  sequence of calls the status is the initial one or one a call of the sequence writes.
  \<open>endRoom\<close> succeeds on every existing room, so ended is reachable from any status. A
  room is created in status waiting.
\<close>

theorem room_status_written:
  "(apply_room_op roomId op w = (Inr u, w') \<longrightarrow> room_status_of roomId w' = Some (written_status op))
   \<and> (apply_room_op roomId op w = (Inl e, w') \<longrightarrow> room_status_of roomId w' = room_status_of roomId w)
   \<and> room_status_of roomId (run_room_ops roomId ops w)
        \<in> insert (room_status_of roomId w) (Some ` written_status ` set ops)
   \<and> (room_status_of roomId w = Some st \<longrightarrow>
        (\<exists>v. endRoom roomId w = (Inr (), v) \<and> room_status_of roomId v = Some Ended))
   \<and> (createRoom rnd newId now host maxP w = (Inr (rid, r), w') \<longrightarrow> room_status_of rid w' = Some Waiting)"
proof (intro conjI impI)
  assume "apply_room_op roomId op w = (Inr u, w')"
  then show "room_status_of roomId w' = Some (written_status op)"
    using apply_room_op_status by blast
next
  assume "apply_room_op roomId op w = (Inl e, w')"
  then show "room_status_of roomId w' = room_status_of roomId w"
    using apply_room_op_status by blast
next
  show "room_status_of roomId (run_room_ops roomId ops w)
        \<in> insert (room_status_of roomId w) (Some ` written_status ` set ops)"
    by (rule run_room_ops_status)
next
  assume s: "room_status_of roomId w = Some st"
  obtain v where v: "endRoom roomId w = (Inr (), v)"
    using update_room_exists[OF s] unfolding endRoom_def by blast
  have "room_status_of roomId v = Some Ended"
    using update_room_status[of roomId "\<lambda>r. r\<lparr>status := Ended\<rparr>" w "()" v Ended] v
    by (simp add: endRoom_def)
  with v show "\<exists>v. endRoom roomId w = (Inr (), v) \<and> room_status_of roomId v = Some Ended" by blast
next
  assume c: "createRoom rnd newId now host maxP w = (Inr (rid, r), w')"
  from createRoom_Inr[OF c] obtain database room where
    d: "db w = Some database" "rid = newId" "status room = Waiting"
      "db w' = Some (database\<lparr>rooms := rooms database @ [(newId, room)]\<rparr>)"
    by blast
  have fresh: "newId \<notin> fst ` set (rooms database)"
    using c d(1) by (auto simp: createRoom_def Let_def addDoc_Inr split: sum.splits)
  show "room_status_of rid w' = Some Waiting"
    using getDoc_added[OF fresh] by (simp add: room_status_of_def d)
qed

lemma created_world_eq: "created_world = example_world 10 [] []"
  by (simp add: created_world_def createRoom_def empty_world_def addDoc_def getDoc_def code_half
      Let_def example_defs fun_eq_iff)

lemmas room_op_defs = run_room_ops_def endRoom_def openAnswers_def resetRoomToWaiting_def
  updateRoomStatus_def update_room_def updateDoc_def room_status_of_def getDoc_def
  createQuestion_def upload_question_image_def addDoc_def

text \<open>
  C2 (as the claim states it, refuted). On a room created in status waiting, \<open>endRoom\<close>
  followed by \<open>createQuestion\<close> leaves the status questioning: ended is not terminal.
  \<open>openAnswers\<close> alone takes the room from waiting to open, past questioning.
\<close>

theorem room_status_counterexample:
  "room_status_of ''r1'' created_world = Some Waiting
   \<and> room_status_of ''r1'' (run_room_ops ''r1'' [EndRoom] created_world) = Some Ended
   \<and> room_status_of ''r1''
        (run_room_ops ''r1'' [EndRoom, CreateQuestion example_env ''q1'' 5 ''Q?'' None] created_world)
       = Some Questioning
   \<and> \<not> spec_transition Ended Questioning
   \<and> room_status_of ''r1'' (run_room_ops ''r1'' [OpenAnswers] created_world) = Some Open
   \<and> \<not> spec_transition Waiting Open"
  unfolding created_world_eq
  by (simp add: room_op_defs example_defs spec_transition_def Let_def)

theorem room_status_written_witness:
  "fst (apply_room_op ''r1'' EndRoom created_world) = Inr ()
   \<and> room_status_of ''r1'' (snd (apply_room_op ''r1'' EndRoom created_world)) = Some Ended
   \<and> fst (apply_room_op ''r2'' OpenAnswers created_world) = Inl NotFound
   \<and> room_status_of ''r2'' (snd (apply_room_op ''r2'' OpenAnswers created_world)) = None
   \<and> room_status_of ''r1'' created_world = Some Waiting
   \<and> (\<exists>v. endRoom ''r1'' created_world = (Inr (), v) \<and> room_status_of ''r1'' v = Some Ended)"
proof -
  let ?a = "apply_room_op ''r1'' EndRoom created_world"
  let ?b = "apply_room_op ''r2'' OpenAnswers created_world"
  have fa: "fst ?a = Inr ()"
    unfolding created_world_eq by (simp add: room_op_defs example_defs)
  have fb: "fst ?b = Inl NotFound"
    unfolding created_world_eq by (simp add: room_op_defs example_defs)
  have s0: "room_status_of ''r1'' created_world = Some Waiting"
    unfolding created_world_eq by (simp add: room_op_defs example_defs)
  have s2: "room_status_of ''r2'' created_world = None"
    unfolding created_world_eq by (simp add: room_op_defs example_defs)
  have ha: "?a = (Inr (), snd ?a)" using fa by (simp add: prod_eq_iff)
  have hb: "?b = (Inl NotFound, snd ?b)" using fb by (simp add: prod_eq_iff)
  have r1: "room_status_of ''r1'' (snd ?a) = Some (written_status EndRoom)"
    using room_status_written [where roomId = "''r1''" and op = EndRoom and w = created_world
        and u = "()" and w' = "snd ?a", THEN conjunct1] ha by blast
  have r2: "room_status_of ''r2'' (snd ?b) = room_status_of ''r2'' created_world"
    using room_status_written [where roomId = "''r2''" and op = OpenAnswers and w = created_world
        and e = NotFound and w' = "snd ?b", THEN conjunct2, THEN conjunct1] hb by blast
  have r3: "\<exists>v. endRoom ''r1'' created_world = (Inr (), v) \<and> room_status_of ''r1'' v = Some Ended"
    using room_status_written [where roomId = "''r1''" and w = created_world and st = Waiting,
        THEN conjunct2, THEN conjunct2, THEN conjunct2, THEN conjunct1] s0 by blast
  from fa fb s0 s2 r1 r2 r3 show ?thesis by simp
qed

section \<open>Closing a question\<close>

lemma outcome_cases:
  "outcome ev k roomId qid a =
     (if \<not> decodes ev a then Threw InvalidCharacter
      else if upload_ok ev (history_path ev k roomId qid (a_odId (snd a)))
      then Fulfilled \<lparr>gra_odId = a_odId (snd a), gra_displayName = a_displayName (snd a),
             gra_photoURL = None, gra_imageURL = url_of ev (history_path ev k roomId qid (a_odId (snd a))),
             gra_isCorrect = isCorrect (snd a)\<rparr>
      else Rejected UploadFailed)"
  by (auto simp: outcome_def decodes_def upload_answer_def Let_def split: option.splits)

lemma fst_upload_answer: "fst (upload_answer ev k roomId qid a st) = outcome ev k roomId qid a"
  by (simp add: outcome_def upload_answer_def Let_def split: option.splits)

lemma snd_upload_answer:
  "snd (upload_answer ev k roomId qid a st) =
     (if decodes ev a \<and> upload_ok ev (history_path ev k roomId qid (a_odId (snd a)))
      then st(history_path ev k roomId qid (a_odId (snd a)) := base64ToBlob ev (canvasData (snd a)))
      else st)"
  by (auto simp: decodes_def upload_answer_def Let_def split: option.splits)

lemma next_read:
  "(case outcome ev k roomId qid a of Threw e \<Rightarrow> k | _ \<Rightarrow> k + 1) = k + clock_reads ev [a]"
  by (simp add: outcome_cases clock_reads_def)

lemma upload_all_Cons:
  "upload_all ev k roomId qid (a # as) st =
     (case upload_all ev (k + clock_reads ev [a]) roomId qid as (snd (upload_answer ev k roomId qid a st)) of
        (rs, st2) \<Rightarrow> (outcome ev k roomId qid a # rs, st2))"
proof -
  obtain r st1 where one: "upload_answer ev k roomId qid a st = (r, st1)"
    by (cases "upload_answer ev k roomId qid a st")
  have r: "r = outcome ev k roomId qid a"
    using fst_upload_answer[of ev k roomId qid a st] one by simp
  show ?thesis
    by (simp add: one) (simp add: r next_read)
qed

lemma path_from_0:
  "path_from ev k roomId qid (a # as) 0 = history_path ev k roomId qid (a_odId (snd a))"
  by (simp add: path_from_def clock_reads_def)

lemma path_from_Suc:
  "path_from ev k roomId qid (a # as) (Suc i) = path_from ev (k + clock_reads ev [a]) roomId qid as i"
  by (simp add: path_from_def clock_reads_def add.assoc)

lemma uploaded_from_0:
  "uploaded_from ev k roomId qid (a # as) 0
     = (decodes ev a \<and> upload_ok ev (history_path ev k roomId qid (a_odId (snd a))))"
  by (simp add: uploaded_from_def path_from_0)

lemma uploaded_from_Suc:
  "uploaded_from ev k roomId qid (a # as) (Suc i) = uploaded_from ev (k + clock_reads ev [a]) roomId qid as i"
  by (simp add: uploaded_from_def path_from_Suc)

lemma upload_all_results:
  "upload_all ev k roomId qid as st = (rs, st') \<Longrightarrow>
     length rs = length as
   \<and> (\<forall>j<length as. rs ! j = outcome ev (k + clock_reads ev (take j as)) roomId qid (as ! j))"
proof (induction as arbitrary: k st rs st')
  case Nil
  then show ?case by simp
next
  case (Cons a as)
  let ?st1 = "snd (upload_answer ev k roomId qid a st)"
  obtain rs1 st2 where rest: "upload_all ev (k + clock_reads ev [a]) roomId qid as ?st1 = (rs1, st2)"
    by (cases "upload_all ev (k + clock_reads ev [a]) roomId qid as ?st1")
  have eq: "rs = outcome ev k roomId qid a # rs1" "st' = st2"
    using Cons.prems rest unfolding upload_all_Cons by simp_all
  note ih = Cons.IH[OF rest]
  have len: "length rs = length (a # as)" using ih eq by simp
  have res: "rs ! j = outcome ev (k + clock_reads ev (take j (a # as))) roomId qid ((a # as) ! j)"
    if j: "j < length (a # as)" for j
  proof (cases j)
    case 0
    then show ?thesis using eq by (simp add: clock_reads_def)
  next
    case (Suc i)
    then have "rs ! j = outcome ev (k + clock_reads ev [a] + clock_reads ev (take i as)) roomId qid (as ! i)"
      using eq ih j by simp
    then show ?thesis using Suc by (simp add: clock_reads_def add.assoc)
  qed
  from len res show ?case by blast
qed

lemma upload_all_store:
  "upload_all ev k roomId qid as st = (rs, st') \<Longrightarrow>
     (\<forall>p. (\<forall>j<length as. uploaded_from ev k roomId qid as j \<longrightarrow> path_from ev k roomId qid as j \<noteq> p)
          \<longrightarrow> st' p = st p)
   \<and> (\<forall>p. (\<exists>j<length as. uploaded_from ev k roomId qid as j \<and> path_from ev k roomId qid as j = p)
          \<longrightarrow> (\<exists>i<length as. uploaded_from ev k roomId qid as i \<and> path_from ev k roomId qid as i = p
                 \<and> st' p = base64ToBlob ev (canvasData (snd (as ! i)))))"
proof (induction as arbitrary: k st rs st')
  case Nil
  then show ?case by simp
next
  case (Cons a as)
  let ?st1 = "snd (upload_answer ev k roomId qid a st)"
  let ?k1 = "k + clock_reads ev [a]"
  let ?p0 = "history_path ev k roomId qid (a_odId (snd a))"
  obtain rs1 st2 where rest: "upload_all ev ?k1 roomId qid as ?st1 = (rs1, st2)"
    by (cases "upload_all ev ?k1 roomId qid as ?st1")
  have eq: "st' = st2"
    using Cons.prems rest unfolding upload_all_Cons by simp
  note ih = Cons.IH[OF rest]
  have A: "st' p = st p"
    if h: "\<forall>j<length (a # as). uploaded_from ev k roomId qid (a # as) j
              \<longrightarrow> path_from ev k roomId qid (a # as) j \<noteq> p" for p
  proof -
    have "\<forall>i<length as. uploaded_from ev ?k1 roomId qid as i \<longrightarrow> path_from ev ?k1 roomId qid as i \<noteq> p"
    proof (intro allI impI)
      fix i assume "i < length as" "uploaded_from ev ?k1 roomId qid as i"
      then show "path_from ev ?k1 roomId qid as i \<noteq> p"
        using h[rule_format, of "Suc i"] by (simp add: uploaded_from_Suc path_from_Suc)
    qed
    then have "st' p = ?st1 p" using ih eq by blast
    moreover have "?st1 p = st p"
      using h[rule_format, of 0] by (auto simp: snd_upload_answer uploaded_from_0 path_from_0)
    ultimately show ?thesis by simp
  qed
  have B: "\<exists>i<length (a # as). uploaded_from ev k roomId qid (a # as) i
             \<and> path_from ev k roomId qid (a # as) i = p
             \<and> st' p = base64ToBlob ev (canvasData (snd ((a # as) ! i)))"
    if h: "\<exists>j<length (a # as). uploaded_from ev k roomId qid (a # as) j
              \<and> path_from ev k roomId qid (a # as) j = p" for p
  proof (cases "\<exists>i<length as. uploaded_from ev ?k1 roomId qid as i \<and> path_from ev ?k1 roomId qid as i = p")
    case True
    then obtain i where i: "i < length as" "uploaded_from ev ?k1 roomId qid as i"
        "path_from ev ?k1 roomId qid as i = p" "st' p = base64ToBlob ev (canvasData (snd (as ! i)))"
      using ih eq by blast
    show ?thesis
      by (rule exI[of _ "Suc i"]) (use i in \<open>simp add: uploaded_from_Suc path_from_Suc\<close>)
  next
    case False
    from h obtain j where j: "j < length (a # as)" "uploaded_from ev k roomId qid (a # as) j"
        "path_from ev k roomId qid (a # as) j = p"
      by blast
    have j0: "j = 0"
    proof (cases j)
      case 0
      then show ?thesis .
    next
      case (Suc i)
      then show ?thesis using j False by (auto simp: uploaded_from_Suc path_from_Suc)
    qed
    have up0: "decodes ev a" "upload_ok ev ?p0" "p = ?p0"
      using j j0 by (simp_all add: uploaded_from_0 path_from_0)
    have "st' p = ?st1 p" using ih eq False by blast
    also have "\<dots> = base64ToBlob ev (canvasData (snd a))"
      using up0 by (simp add: snd_upload_answer)
    finally show ?thesis
      using j j0 by (intro exI[of _ 0]) simp
  qed
  from A B show ?case by blast
qed

lemma upload_all_kept:
  assumes "upload_all ev k roomId qid as st = (rs, st')" "st p \<noteq> None"
  shows "st' p \<noteq> None"
proof (cases "\<exists>j<length as. uploaded_from ev k roomId qid as j \<and> path_from ev k roomId qid as j = p")
  case True
  then obtain i where "i < length as" "uploaded_from ev k roomId qid as i"
      "st' p = base64ToBlob ev (canvasData (snd (as ! i)))"
    using upload_all_store[OF assms(1)] by blast
  then show ?thesis by (simp add: uploaded_from_def decodes_def)
next
  case False
  then have "st' p = st p" using upload_all_store[OF assms(1)] by blast
  then show ?thesis using assms(2) by simp
qed

lemma first_thrown_set:
  "(first_thrown rs = None \<longrightarrow> (\<forall>e. Threw e \<notin> set rs))
   \<and> (\<forall>e. first_thrown rs = Some e \<longrightarrow> Threw e \<in> set rs)"
proof (induction rs)
  case Nil
  then show ?case by simp
next
  case (Cons r rs)
  then show ?case by (cases r) auto
qed

lemma first_rejected_set:
  "(first_rejected rs = None \<longrightarrow> (\<forall>e. Rejected e \<notin> set rs))
   \<and> (\<forall>e. first_rejected rs = Some e \<longrightarrow> Rejected e \<in> set rs)"
proof (induction rs)
  case Nil
  then show ?case by simp
next
  case (Cons r rs)
  then show ?case by (cases r) auto
qed

lemma fulfilled_all:
  "first_thrown rs = None \<Longrightarrow> first_rejected rs = None \<Longrightarrow> rs = map Fulfilled (fulfilled rs)"
proof (induction rs)
  case Nil
  then show ?case by simp
next
  case (Cons r rs)
  then show ?case by (cases r) auto
qed

lemma promise_all_Inr: "promise_all rs = Inr xs \<Longrightarrow> rs = map Fulfilled xs"
  using fulfilled_all[of rs] by (auto simp: promise_all_def split: option.splits)

lemma promise_all_thrown:
  assumes "Threw e \<in> set rs" "\<forall>e'. Threw e' \<in> set rs \<longrightarrow> e' = e"
  shows "promise_all rs = Inl e"
proof -
  obtain e' where e': "first_thrown rs = Some e'"
    using first_thrown_set[of rs] assms(1) by (cases "first_thrown rs") auto
  then have "e' = e" using first_thrown_set[of rs] assms(2) by blast
  then show ?thesis using e' by (simp add: promise_all_def)
qed

lemma promise_all_rejected:
  assumes "\<forall>e'. Threw e' \<notin> set rs" "Rejected e \<in> set rs" "\<forall>e'. Rejected e' \<in> set rs \<longrightarrow> e' = e"
  shows "promise_all rs = Inl e"
proof -
  have n: "first_thrown rs = None"
    using first_thrown_set[of rs] assms(1) by (cases "first_thrown rs") auto
  obtain e' where e': "first_rejected rs = Some e'"
    using first_rejected_set[of rs] assms(2) by (cases "first_rejected rs") auto
  then have "e' = e" using first_rejected_set[of rs] assms(3) by blast
  then show ?thesis using e' n by (simp add: promise_all_def)
qed

lemma promise_all_fulfilled:
  assumes "\<forall>e. Threw e \<notin> set rs" "\<forall>e. Rejected e \<notin> set rs"
  shows "promise_all rs = Inr (fulfilled rs)"
proof -
  have "first_thrown rs = None"
    using first_thrown_set[of rs] assms(1) by (cases "first_thrown rs") auto
  moreover have "first_rejected rs = None"
    using first_rejected_set[of rs] assms(2) by (cases "first_rejected rs") auto
  ultimately show ?thesis by (simp add: promise_all_def)
qed


lemma outcome_at:
  assumes "upload_all ev 0 roomId qid as st = (rs, st')" "j < length as"
  shows "rs ! j =
     (if \<not> decodes ev (as ! j) then Threw InvalidCharacter
      else if upload_ok ev (answer_path ev roomId qid as j)
      then Fulfilled \<lparr>gra_odId = a_odId (snd (as ! j)), gra_displayName = a_displayName (snd (as ! j)),
             gra_photoURL = None, gra_imageURL = url_of ev (answer_path ev roomId qid as j),
             gra_isCorrect = isCorrect (snd (as ! j))\<rparr>
      else Rejected UploadFailed)"
proof -
  have "rs ! j = outcome ev (0 + clock_reads ev (take j as)) roomId qid (as ! j)"
    using upload_all_results[OF assms(1)] assms(2) by blast
  then show ?thesis
    by (simp only: outcome_cases answer_path_def path_from_def)
qed

lemma outcomes_thrown:
  assumes "upload_all ev 0 roomId qid as st = (rs, st')"
  shows "Threw e \<in> set rs \<longleftrightarrow> e = InvalidCharacter \<and> (\<exists>j<length as. \<not> decodes ev (as ! j))"
proof -
  have len: "length rs = length as" using upload_all_results[OF assms] by simp
  have "Threw e \<in> set rs \<longleftrightarrow> (\<exists>j<length as. rs ! j = Threw e)"
    using len by (auto simp: in_set_conv_nth)
  also have "\<dots> \<longleftrightarrow> e = InvalidCharacter \<and> (\<exists>j<length as. \<not> decodes ev (as ! j))"
    using outcome_at[OF assms] by (auto split: if_splits)
  finally show ?thesis .
qed

lemma outcomes_rejected:
  assumes "upload_all ev 0 roomId qid as st = (rs, st')"
  shows "Rejected e \<in> set rs \<longleftrightarrow>
     e = UploadFailed \<and> (\<exists>j<length as. decodes ev (as ! j) \<and> \<not> upload_ok ev (answer_path ev roomId qid as j))"
proof -
  have len: "length rs = length as" using upload_all_results[OF assms] by simp
  have "Rejected e \<in> set rs \<longleftrightarrow> (\<exists>j<length as. rs ! j = Rejected e)"
    using len by (auto simp: in_set_conv_nth)
  also have "\<dots> \<longleftrightarrow> e = UploadFailed
      \<and> (\<exists>j<length as. decodes ev (as ! j) \<and> \<not> upload_ok ev (answer_path ev roomId qid as j))"
    using outcome_at[OF assms] by (auto split: if_splits)
  finally show ?thesis .
qed

lemma saveGameResult_Inl:
  "saveGameResult ev newId now roomId code host question as w = (Inl e, w1) \<Longrightarrow> db w1 = db w"
  by (auto simp: saveGameResult_def Let_def split: option.splits prod.splits sum.splits)

lemma saveGameResult_storage:
  assumes "db w = Some database" "storage w = Some st"
    "upload_all ev 0 roomId (fst question) as st = (rs, st')"
    "saveGameResult ev newId now roomId code host question as w = (res, w1)"
  shows "storage w1 = Some st'"
  using assms by (auto simp: saveGameResult_def Let_def split: sum.splits)

lemma saveGameResult_rejects:
  assumes "db w = Some database" "storage w = Some st"
    "upload_all ev 0 roomId (fst question) as st = (rs, st')"
    "saveGameResult ev newId now roomId code host question as w = (res, w1)"
    "promise_all rs = Inl e"
  shows "res = Inl e"
  using assms by (auto simp: saveGameResult_def Let_def)

lemma saveGameResult_returns:
  assumes "db w = Some database" "storage w = Some st"
    "upload_all ev 0 roomId (fst question) as st = (rs, st')"
    "saveGameResult ev newId now roomId code host question as w = (res, w1)"
    "promise_all rs = Inr saved" "newId \<notin> fst ` set (gameResults database)"
  shows "\<exists>r. res = Inr r"
  using assms by (auto simp: saveGameResult_def Let_def addDoc_def)

lemma saveGameResult_Inr:
  assumes "saveGameResult ev newId now roomId code host question as w = (Inr r, w1)"
  shows "\<exists>database st st' doc. db w = Some database \<and> storage w = Some st
     \<and> upload_all ev 0 roomId (fst question) as st = (map Fulfilled (g_answers doc), st')
     \<and> newId \<notin> fst ` set (gameResults database)
     \<and> r = (newId, Some doc)
     \<and> g_roomId doc = roomId \<and> g_roomCode doc = code \<and> g_hostId doc = host
     \<and> questionText doc = q_text (snd question)
     \<and> db w1 = Some (database\<lparr>gameResults := gameResults database @ [(newId, doc)]\<rparr>)
     \<and> storage w1 = Some st'"
proof -
  obtain database where d: "db w = Some database"
    using assms by (cases "db w") (auto simp: saveGameResult_def)
  obtain st where st: "storage w = Some st"
    using assms d by (cases "storage w") (auto simp: saveGameResult_def)
  obtain rs st' where up: "upload_all ev 0 roomId (fst question) as st = (rs, st')"
    by (cases "upload_all ev 0 roomId (fst question) as st")
  obtain saved where sv: "promise_all rs = Inr saved"
    using assms d st up by (cases "promise_all rs") (auto simp: saveGameResult_def Let_def)
  have rs: "rs = map Fulfilled saved"
    using promise_all_Inr[OF sv] .
  let ?doc = "\<lparr>g_roomId = roomId, g_roomCode = code, g_hostId = host,
      questionText = q_text (snd question), questionImageURL = q_imageURL (snd question),
      g_answers = saved, g_createdAt = now\<rparr>"
  have fresh: "newId \<notin> fst ` set (gameResults database)"
    using assms d st up sv by (auto simp: saveGameResult_def Let_def addDoc_def split: if_splits)
  have "r = (newId, Some ?doc)
     \<and> db w1 = Some (database\<lparr>gameResults := gameResults database @ [(newId, ?doc)]\<rparr>)
     \<and> storage w1 = Some st'"
    using assms d st up sv fresh getDoc_added[OF fresh]
    by (auto simp: saveGameResult_def Let_def addDoc_def)
  then show ?thesis using d st up rs fresh
    by (intro exI[of _ database] exI[of _ st] exI[of _ st'] exI[of _ ?doc]) simp
qed

lemma saveGameResult_unconfigured:
  assumes "saveGameResult ev newId now roomId code host question as w = (res, w1)"
  shows "db w = None \<longrightarrow> res = Inl NotConfigured \<and> w1 = w"
    and "db w \<noteq> None \<and> storage w = None \<longrightarrow> res = Inl StorageNotConfigured \<and> w1 = w"
  using assms by (auto simp: saveGameResult_def)

lemma saveGameResult_errors:
  assumes d: "db w \<noteq> None" and s: "storage w \<noteq> None"
    and sg: "saveGameResult ev newId now roomId code host question as w = (res, w1)"
  shows "(\<exists>j<length as. \<not> decodes ev (as ! j)) \<longrightarrow> res = Inl InvalidCharacter"
    and "(\<forall>j<length as. decodes ev (as ! j))
         \<and> (\<exists>j<length as. \<not> upload_ok ev (answer_path ev roomId (fst question) as j))
         \<longrightarrow> res = Inl UploadFailed"
    and "(\<forall>j<length as. uploaded ev roomId (fst question) as j)
         \<and> newId \<notin> fst ` set (game_results_of w) \<longrightarrow> (\<exists>r. res = Inr r)"
proof -
  obtain database st where ds: "db w = Some database" "storage w = Some st"
    using d s by auto
  obtain rs st' where up: "upload_all ev 0 roomId (fst question) as st = (rs, st')"
    by (cases "upload_all ev 0 roomId (fst question) as st")
  note th = outcomes_thrown[OF up]
  note rj = outcomes_rejected[OF up]
  show "(\<exists>j<length as. \<not> decodes ev (as ! j)) \<longrightarrow> res = Inl InvalidCharacter"
  proof
    assume "\<exists>j<length as. \<not> decodes ev (as ! j)"
    then have "Threw InvalidCharacter \<in> set rs" "\<forall>e'. Threw e' \<in> set rs \<longrightarrow> e' = InvalidCharacter"
      using th by blast+
    then have "promise_all rs = Inl InvalidCharacter" by (rule promise_all_thrown)
    then show "res = Inl InvalidCharacter" using saveGameResult_rejects[OF ds up sg] by blast
  qed
  show "(\<forall>j<length as. decodes ev (as ! j))
         \<and> (\<exists>j<length as. \<not> upload_ok ev (answer_path ev roomId (fst question) as j))
         \<longrightarrow> res = Inl UploadFailed"
  proof
    assume a: "(\<forall>j<length as. decodes ev (as ! j))
         \<and> (\<exists>j<length as. \<not> upload_ok ev (answer_path ev roomId (fst question) as j))"
    then have "\<forall>e'. Threw e' \<notin> set rs" using th by blast
    moreover have "Rejected UploadFailed \<in> set rs" using a rj by blast
    moreover have "\<forall>e'. Rejected e' \<in> set rs \<longrightarrow> e' = UploadFailed" using rj by blast
    ultimately have "promise_all rs = Inl UploadFailed" by (rule promise_all_rejected)
    then show "res = Inl UploadFailed" using saveGameResult_rejects[OF ds up sg] by blast
  qed
  show "(\<forall>j<length as. uploaded ev roomId (fst question) as j)
         \<and> newId \<notin> fst ` set (game_results_of w) \<longrightarrow> (\<exists>r. res = Inr r)"
  proof
    assume a: "(\<forall>j<length as. uploaded ev roomId (fst question) as j)
         \<and> newId \<notin> fst ` set (game_results_of w)"
    then have all: "\<forall>j<length as. decodes ev (as ! j) \<and> upload_ok ev (answer_path ev roomId (fst question) as j)"
      by (simp add: uploaded_def uploaded_from_def answer_path_def)
    have "\<forall>e. Threw e \<notin> set rs" using th all by blast
    moreover have "\<forall>e. Rejected e \<notin> set rs" using rj all by blast
    ultimately have "promise_all rs = Inr (fulfilled rs)" by (rule promise_all_fulfilled)
    moreover have "newId \<notin> fst ` set (gameResults database)"
      using a ds by (simp add: game_results_of_def)
    ultimately show "\<exists>r. res = Inr r" using saveGameResult_returns[OF ds up sg] by blast
  qed
qed

lemma saveGameResult_not_uploaded:
  assumes sg: "saveGameResult ev newId now roomId code host question as w = (res, w1)"
    and j: "j < length as" "\<not> uploaded ev roomId (fst question) as j"
  shows "\<exists>e. res = Inl e"
proof (cases "db w \<noteq> None \<and> storage w \<noteq> None")
  case False
  then show ?thesis using saveGameResult_unconfigured[OF sg] by auto
next
  case True
  note er = saveGameResult_errors[OF True[THEN conjunct1] True[THEN conjunct2] sg]
  show ?thesis
  proof (cases "\<exists>i<length as. \<not> decodes ev (as ! i)")
    case True
    then show ?thesis using er(1) by blast
  next
    case False
    then have "\<not> upload_ok ev (answer_path ev roomId (fst question) as j)"
      using j by (auto simp: uploaded_def uploaded_from_def answer_path_def)
    then show ?thesis using er(2) False j by blast
  qed
qed

lemma saveGameResult_blobs:
  assumes d: "db w \<noteq> None" and s: "storage w \<noteq> None"
    and sg: "saveGameResult ev newId now roomId code host question as w = (res, w1)"
  shows "\<forall>j<length as. uploaded ev roomId (fst question) as j \<longrightarrow>
           stored w1 (answer_path ev roomId (fst question) as j)
         \<and> (\<exists>i<length as. uploaded ev roomId (fst question) as i
               \<and> answer_path ev roomId (fst question) as i = answer_path ev roomId (fst question) as j
               \<and> blob_at w1 (answer_path ev roomId (fst question) as j) = drawing_of ev (as ! i))"
    and "\<forall>j<length as. uploaded ev roomId (fst question) as j \<and> alone ev roomId (fst question) as j \<longrightarrow>
           blob_at w1 (answer_path ev roomId (fst question) as j) = drawing_of ev (as ! j)"
proof -
  obtain database st where ds: "db w = Some database" "storage w = Some st"
    using d s by auto
  obtain rs st' where up: "upload_all ev 0 roomId (fst question) as st = (rs, st')"
    by (cases "upload_all ev 0 roomId (fst question) as st")
  have w1: "storage w1 = Some st'" using saveGameResult_storage[OF ds up sg] .
  have some: "\<exists>i<length as. uploaded ev roomId (fst question) as i
               \<and> answer_path ev roomId (fst question) as i = answer_path ev roomId (fst question) as j
               \<and> blob_at w1 (answer_path ev roomId (fst question) as j) = drawing_of ev (as ! i)"
    if j: "j < length as" "uploaded ev roomId (fst question) as j" for j
  proof -
    have "\<exists>i<length as. uploaded_from ev 0 roomId (fst question) as i
        \<and> path_from ev 0 roomId (fst question) as i = path_from ev 0 roomId (fst question) as j
        \<and> st' (path_from ev 0 roomId (fst question) as j) = base64ToBlob ev (canvasData (snd (as ! i)))"
      using upload_all_store[OF up] j unfolding uploaded_def by blast
    then show ?thesis
      by (simp add: uploaded_def answer_path_def blob_at_def w1 drawing_of_def)
  qed
  show "\<forall>j<length as. uploaded ev roomId (fst question) as j \<longrightarrow>
           stored w1 (answer_path ev roomId (fst question) as j)
         \<and> (\<exists>i<length as. uploaded ev roomId (fst question) as i
               \<and> answer_path ev roomId (fst question) as i = answer_path ev roomId (fst question) as j
               \<and> blob_at w1 (answer_path ev roomId (fst question) as j) = drawing_of ev (as ! i))"
  proof (intro allI impI conjI)
    fix j assume j: "j < length as" "uploaded ev roomId (fst question) as j"
    from some[OF j] obtain i where i: "i < length as" "uploaded ev roomId (fst question) as i"
        "blob_at w1 (answer_path ev roomId (fst question) as j) = drawing_of ev (as ! i)"
      by blast
    have "drawing_of ev (as ! i) \<noteq> None"
      using i(2) by (simp add: uploaded_def uploaded_from_def decodes_def drawing_of_def)
    then show "stored w1 (answer_path ev roomId (fst question) as j)"
      using i(3) by (simp add: stored_def blob_at_def w1)
    show "\<exists>i<length as. uploaded ev roomId (fst question) as i
               \<and> answer_path ev roomId (fst question) as i = answer_path ev roomId (fst question) as j
               \<and> blob_at w1 (answer_path ev roomId (fst question) as j) = drawing_of ev (as ! i)"
      using some[OF j] .
  qed
  show "\<forall>j<length as. uploaded ev roomId (fst question) as j \<and> alone ev roomId (fst question) as j \<longrightarrow>
           blob_at w1 (answer_path ev roomId (fst question) as j) = drawing_of ev (as ! j)"
  proof (intro allI impI)
    fix j assume j: "j < length as"
      and a: "uploaded ev roomId (fst question) as j \<and> alone ev roomId (fst question) as j"
    from some[OF j a[THEN conjunct1]] obtain i where i: "i < length as"
        "uploaded ev roomId (fst question) as i"
        "answer_path ev roomId (fst question) as i = answer_path ev roomId (fst question) as j"
        "blob_at w1 (answer_path ev roomId (fst question) as j) = drawing_of ev (as ! i)"
      by blast
    have "i = j" using a i(1,2,3) unfolding alone_def by blast
    then show "blob_at w1 (answer_path ev roomId (fst question) as j) = drawing_of ev (as ! j)"
      using i(4) by simp
  qed
qed

lemma saveGameResult_frame:
  assumes sg: "saveGameResult ev newId now roomId code host question as w = (res, w1)"
    and p: "\<forall>j<length as. uploaded ev roomId (fst question) as j
              \<longrightarrow> answer_path ev roomId (fst question) as j \<noteq> p"
  shows "blob_at w1 p = blob_at w p"
proof (cases "db w \<noteq> None \<and> storage w \<noteq> None")
  case False
  then show ?thesis using saveGameResult_unconfigured[OF sg] by auto
next
  case True
  then obtain database st where ds: "db w = Some database" "storage w = Some st"
    by auto
  obtain rs st' where up: "upload_all ev 0 roomId (fst question) as st = (rs, st')"
    by (cases "upload_all ev 0 roomId (fst question) as st")
  have w1: "storage w1 = Some st'" using saveGameResult_storage[OF ds up sg] .
  have "st' p = st p"
    using upload_all_store[OF up] p unfolding uploaded_def answer_path_def by blast
  then show ?thesis by (simp add: blob_at_def w1 ds)
qed

lemma saveGameResult_stored_mono:
  assumes "saveGameResult ev newId now roomId code host question as w = (res, w1)" "stored w p"
  shows "stored w1 p"
proof -
  obtain st where st: "storage w = Some st" "st p \<noteq> None"
    using assms(2) by (cases "storage w") (auto simp: stored_def)
  show ?thesis
  proof (cases "db w")
    case None
    then show ?thesis using assms by (simp add: saveGameResult_def)
  next
    case (Some database)
    obtain rs st' where up: "upload_all ev 0 roomId (fst question) as st = (rs, st')"
      by (cases "upload_all ev 0 roomId (fst question) as st")
    have "st' p \<noteq> None" using upload_all_kept[OF up st(2)] .
    moreover have "storage w1 = Some st'"
      using saveGameResult_storage[OF Some st(1) up assms(1)] .
    ultimately show ?thesis by (simp add: stored_def)
  qed
qed

lemma room_status_of_gameResults [simp]:
  "room_status_of roomId (w\<lparr>db := Some (database\<lparr>gameResults := gs\<rparr>)\<rparr>)
     = room_status_of roomId (w\<lparr>db := Some database\<rparr>)"
  by (simp add: room_status_of_def)


text \<open>
  C7 (amended). With a room, a current question and a user on the host page, \<open>handleOpen\<close>
  runs \<open>saveGameResult\<close> and then, only if that returned, \<open>openAnswers\<close>. When
  \<open>saveGameResult\<close> returns, the world it leaves has the room status still unchanged and
  one new game result holding one entry per answer; every answer was uploaded, the blob
  at its path is the decoded drawing of an answer uploaded to that path, and the entry's
  image URL is the URL of that path; then the status becomes open. When it throws,
  \<open>handleOpen\<close> stops there: the document database is what it was (no game result,
  status unchanged). It throws whenever some answer is not uploaded: with the decoding
  error when some drawing does not decode, with the upload error when all decode and
  some upload fails; it returns when all are uploaded and the new id is free. Whether it
  returns or throws, the blob store afterwards holds, at the path of every answer whose
  upload went through, a decoded drawing uploaded to that path (the answer's own when
  no other answer shares the path), is unchanged at every other path, and has lost no
  blob: uploads that went through stay after a failure.
\<close>

theorem close_question:
  "hp_room hp = Some room \<and> hp_currentQuestion hp = Some question \<and> hp_user hp = Some uid
   \<and> saveGameResult ev newId now roomId (roomCode (snd room)) uid question (hp_answers hp) w = (res, w1)
   \<longrightarrow>
     (\<forall>r. res = Inr r \<longrightarrow>
        handleOpen ev newId now roomId hp w = snd (openAnswers roomId w1)
      \<and> room_status_of roomId w1 = room_status_of roomId w
      \<and> (\<exists>doc. r = (newId, Some doc)
            \<and> game_results_of w1 = game_results_of w @ [(newId, doc)]
            \<and> length (g_answers doc) = length (hp_answers hp)
            \<and> (\<forall>j<length (hp_answers hp).
                  uploaded ev roomId (fst question) (hp_answers hp) j
                \<and> stored w1 (answer_path ev roomId (fst question) (hp_answers hp) j)
                \<and> (\<exists>i<length (hp_answers hp).
                       answer_path ev roomId (fst question) (hp_answers hp) i
                         = answer_path ev roomId (fst question) (hp_answers hp) j
                     \<and> blob_at w1 (answer_path ev roomId (fst question) (hp_answers hp) j)
                         = drawing_of ev (hp_answers hp ! i))
                \<and> gra_imageURL (g_answers doc ! j)
                    = url_of ev (answer_path ev roomId (fst question) (hp_answers hp) j)
                \<and> gra_odId (g_answers doc ! j) = a_odId (snd (hp_answers hp ! j))
                \<and> gra_isCorrect (g_answers doc ! j) = isCorrect (snd (hp_answers hp ! j))))
      \<and> (room_status_of roomId w \<noteq> None \<longrightarrow>
            room_status_of roomId (handleOpen ev newId now roomId hp w) = Some Open))
   \<and> (\<forall>e. res = Inl e \<longrightarrow>
        handleOpen ev newId now roomId hp w = w1 \<and> db w1 = db w
      \<and> game_results_of w1 = game_results_of w
      \<and> room_status_of roomId w1 = room_status_of roomId w)
   \<and> ((\<exists>j<length (hp_answers hp). \<not> uploaded ev roomId (fst question) (hp_answers hp) j)
        \<longrightarrow> (\<exists>e. res = Inl e))
   \<and> (db w = None \<longrightarrow> res = Inl NotConfigured \<and> w1 = w)
   \<and> (db w \<noteq> None \<and> storage w = None \<longrightarrow> res = Inl StorageNotConfigured \<and> w1 = w)
   \<and> (db w \<noteq> None \<and> storage w \<noteq> None \<longrightarrow>
        ((\<exists>j<length (hp_answers hp). \<not> decodes ev (hp_answers hp ! j)) \<longrightarrow> res = Inl InvalidCharacter)
      \<and> ((\<forall>j<length (hp_answers hp). decodes ev (hp_answers hp ! j))
           \<and> (\<exists>j<length (hp_answers hp).
                 \<not> upload_ok ev (answer_path ev roomId (fst question) (hp_answers hp) j))
           \<longrightarrow> res = Inl UploadFailed)
      \<and> ((\<forall>j<length (hp_answers hp). uploaded ev roomId (fst question) (hp_answers hp) j)
           \<and> newId \<notin> fst ` set (game_results_of w) \<longrightarrow> (\<exists>r. res = Inr r))
      \<and> (\<forall>j<length (hp_answers hp). uploaded ev roomId (fst question) (hp_answers hp) j \<longrightarrow>
             stored w1 (answer_path ev roomId (fst question) (hp_answers hp) j)
           \<and> (\<exists>i<length (hp_answers hp). uploaded ev roomId (fst question) (hp_answers hp) i
                 \<and> answer_path ev roomId (fst question) (hp_answers hp) i
                     = answer_path ev roomId (fst question) (hp_answers hp) j
                 \<and> blob_at w1 (answer_path ev roomId (fst question) (hp_answers hp) j)
                     = drawing_of ev (hp_answers hp ! i)))
      \<and> (\<forall>j<length (hp_answers hp).
             uploaded ev roomId (fst question) (hp_answers hp) j
           \<and> alone ev roomId (fst question) (hp_answers hp) j \<longrightarrow>
             blob_at w1 (answer_path ev roomId (fst question) (hp_answers hp) j)
               = drawing_of ev (hp_answers hp ! j)))
   \<and> (\<forall>p. (\<forall>j<length (hp_answers hp). uploaded ev roomId (fst question) (hp_answers hp) j
               \<longrightarrow> answer_path ev roomId (fst question) (hp_answers hp) j \<noteq> p)
          \<longrightarrow> blob_at w1 p = blob_at w p)
   \<and> (\<forall>p. stored w p \<longrightarrow> stored w1 p)"
proof (intro impI)
  assume a: "hp_room hp = Some room \<and> hp_currentQuestion hp = Some question \<and> hp_user hp = Some uid
   \<and> saveGameResult ev newId now roomId (roomCode (snd room)) uid question (hp_answers hp) w = (res, w1)"
  then have hp: "hp_room hp = Some room" "hp_currentQuestion hp = Some question" "hp_user hp = Some uid"
    and sg: "saveGameResult ev newId now roomId (roomCode (snd room)) uid question (hp_answers hp) w = (res, w1)"
    by simp_all
  let ?as = "hp_answers hp"
  let ?q = "fst question"
  have ho: "handleOpen ev newId now roomId hp w =
      (case res of Inl e \<Rightarrow> w1 | Inr r \<Rightarrow> snd (openAnswers roomId w1))"
    using hp sg by (simp add: handleOpen_def split: sum.splits)
  have ok: "handleOpen ev newId now roomId hp w = snd (openAnswers roomId w1)
      \<and> room_status_of roomId w1 = room_status_of roomId w
      \<and> (\<exists>doc. r = (newId, Some doc)
            \<and> game_results_of w1 = game_results_of w @ [(newId, doc)]
            \<and> length (g_answers doc) = length ?as
            \<and> (\<forall>j<length ?as.
                  uploaded ev roomId ?q ?as j
                \<and> stored w1 (answer_path ev roomId ?q ?as j)
                \<and> (\<exists>i<length ?as.
                       answer_path ev roomId ?q ?as i = answer_path ev roomId ?q ?as j
                     \<and> blob_at w1 (answer_path ev roomId ?q ?as j) = drawing_of ev (?as ! i))
                \<and> gra_imageURL (g_answers doc ! j) = url_of ev (answer_path ev roomId ?q ?as j)
                \<and> gra_odId (g_answers doc ! j) = a_odId (snd (?as ! j))
                \<and> gra_isCorrect (g_answers doc ! j) = isCorrect (snd (?as ! j))))
      \<and> (room_status_of roomId w \<noteq> None \<longrightarrow>
            room_status_of roomId (handleOpen ev newId now roomId hp w) = Some Open)"
    if r: "res = Inr r" for r
  proof -
    from saveGameResult_Inr[OF sg[unfolded r]] obtain database st st' doc where
      d: "db w = Some database" "storage w = Some st"
      and up: "upload_all ev 0 roomId ?q ?as st = (map Fulfilled (g_answers doc), st')"
      and rd: "r = (newId, Some doc)"
      and w1: "db w1 = Some (database\<lparr>gameResults := gameResults database @ [(newId, doc)]\<rparr>)"
        "storage w1 = Some st'"
      by blast
    have cfg: "db w \<noteq> None" "storage w \<noteq> None" using d by simp_all
    note bl = saveGameResult_blobs(1)[OF cfg sg]
    have len: "length (g_answers doc) = length ?as" using upload_all_results[OF up] by simp
    have each: "uploaded ev roomId ?q ?as j
                \<and> stored w1 (answer_path ev roomId ?q ?as j)
                \<and> (\<exists>i<length ?as.
                       answer_path ev roomId ?q ?as i = answer_path ev roomId ?q ?as j
                     \<and> blob_at w1 (answer_path ev roomId ?q ?as j) = drawing_of ev (?as ! i))
                \<and> gra_imageURL (g_answers doc ! j) = url_of ev (answer_path ev roomId ?q ?as j)
                \<and> gra_odId (g_answers doc ! j) = a_odId (snd (?as ! j))
                \<and> gra_isCorrect (g_answers doc ! j) = isCorrect (snd (?as ! j))"
      if j: "j < length ?as" for j
    proof -
      have jl: "j < length (g_answers doc)" using j len by simp
      have rj: "map Fulfilled (g_answers doc) ! j = Fulfilled (g_answers doc ! j)" using jl by simp
      note o = outcome_at[OF up j, unfolded rj]
      have dec: "decodes ev (?as ! j)" using o by (auto split: if_splits)
      have uok: "upload_ok ev (answer_path ev roomId ?q ?as j)" using o by (auto split: if_splits)
      have val: "g_answers doc ! j = \<lparr>gra_odId = a_odId (snd (?as ! j)),
             gra_displayName = a_displayName (snd (?as ! j)),
             gra_photoURL = None, gra_imageURL = url_of ev (answer_path ev roomId ?q ?as j),
             gra_isCorrect = isCorrect (snd (?as ! j))\<rparr>"
        using o dec uok by simp
      have upl: "uploaded ev roomId ?q ?as j"
        using dec uok by (simp add: uploaded_def uploaded_from_def answer_path_def)
      have f: "gra_imageURL (g_answers doc ! j) = url_of ev (answer_path ev roomId ?q ?as j)"
         "gra_odId (g_answers doc ! j) = a_odId (snd (?as ! j))"
         "gra_isCorrect (g_answers doc ! j) = isCorrect (snd (?as ! j))"
        by (simp_all add: val)
      from bl j upl f show ?thesis by blast
    qed
    have st1: "room_status_of roomId w1 = room_status_of roomId w"
      by (simp add: room_status_of_def w1 d)
    have gr: "game_results_of w1 = game_results_of w @ [(newId, doc)]"
      by (simp add: game_results_of_def w1 d)
    have fin: "room_status_of roomId (handleOpen ev newId now roomId hp w) = Some Open"
      if ex: "room_status_of roomId w \<noteq> None"
    proof -
      obtain st0 where "room_status_of roomId w1 = Some st0" using ex st1 by auto
      then obtain v where v: "update_room roomId (\<lambda>r. r\<lparr>status := Open\<rparr>) w1 = (Inr (), v)"
        using update_room_exists by blast
      have "room_status_of roomId v = Some Open"
        using update_room_status[OF v] by simp
      then show ?thesis using ho r v by (simp add: openAnswers_def)
    qed
    have h1: "handleOpen ev newId now roomId hp w = snd (openAnswers roomId w1)"
      using ho r by simp
    from h1 st1 rd gr len each fin show ?thesis by blast
  qed
  have bad: "handleOpen ev newId now roomId hp w = w1 \<and> db w1 = db w
      \<and> game_results_of w1 = game_results_of w
      \<and> room_status_of roomId w1 = room_status_of roomId w"
    if e: "res = Inl e" for e
  proof -
    have "db w1 = db w" using saveGameResult_Inl sg e by blast
    then show ?thesis using ho e by (simp add: game_results_of_def room_status_of_def)
  qed
  have fail: "\<exists>e. res = Inl e"
    if "\<exists>j<length ?as. \<not> uploaded ev roomId ?q ?as j"
    using that saveGameResult_not_uploaded[OF sg] by blast
  note unc = saveGameResult_unconfigured[OF sg]
  have cfg: "((\<exists>j<length ?as. \<not> decodes ev (?as ! j)) \<longrightarrow> res = Inl InvalidCharacter)
      \<and> ((\<forall>j<length ?as. decodes ev (?as ! j))
           \<and> (\<exists>j<length ?as. \<not> upload_ok ev (answer_path ev roomId ?q ?as j))
           \<longrightarrow> res = Inl UploadFailed)
      \<and> ((\<forall>j<length ?as. uploaded ev roomId ?q ?as j)
           \<and> newId \<notin> fst ` set (game_results_of w) \<longrightarrow> (\<exists>r. res = Inr r))
      \<and> (\<forall>j<length ?as. uploaded ev roomId ?q ?as j \<longrightarrow>
             stored w1 (answer_path ev roomId ?q ?as j)
           \<and> (\<exists>i<length ?as. uploaded ev roomId ?q ?as i
                 \<and> answer_path ev roomId ?q ?as i = answer_path ev roomId ?q ?as j
                 \<and> blob_at w1 (answer_path ev roomId ?q ?as j) = drawing_of ev (?as ! i)))
      \<and> (\<forall>j<length ?as. uploaded ev roomId ?q ?as j \<and> alone ev roomId ?q ?as j \<longrightarrow>
             blob_at w1 (answer_path ev roomId ?q ?as j) = drawing_of ev (?as ! j))"
    if c: "db w \<noteq> None \<and> storage w \<noteq> None"
    using saveGameResult_errors[OF c[THEN conjunct1] c[THEN conjunct2] sg]
      saveGameResult_blobs[OF c[THEN conjunct1] c[THEN conjunct2] sg]
    by (intro conjI)
  have frame: "\<forall>p. (\<forall>j<length ?as. uploaded ev roomId ?q ?as j
               \<longrightarrow> answer_path ev roomId ?q ?as j \<noteq> p) \<longrightarrow> blob_at w1 p = blob_at w p"
    using saveGameResult_frame[OF sg] by blast
  have keep: "\<forall>p. stored w p \<longrightarrow> stored w1 p"
    using saveGameResult_stored_mono[OF sg] by blast
  show "(\<forall>r. res = Inr r \<longrightarrow>
        handleOpen ev newId now roomId hp w = snd (openAnswers roomId w1)
      \<and> room_status_of roomId w1 = room_status_of roomId w
      \<and> (\<exists>doc. r = (newId, Some doc)
            \<and> game_results_of w1 = game_results_of w @ [(newId, doc)]
            \<and> length (g_answers doc) = length (hp_answers hp)
            \<and> (\<forall>j<length (hp_answers hp).
                  uploaded ev roomId (fst question) (hp_answers hp) j
                \<and> stored w1 (answer_path ev roomId (fst question) (hp_answers hp) j)
                \<and> (\<exists>i<length (hp_answers hp).
                       answer_path ev roomId (fst question) (hp_answers hp) i
                         = answer_path ev roomId (fst question) (hp_answers hp) j
                     \<and> blob_at w1 (answer_path ev roomId (fst question) (hp_answers hp) j)
                         = drawing_of ev (hp_answers hp ! i))
                \<and> gra_imageURL (g_answers doc ! j)
                    = url_of ev (answer_path ev roomId (fst question) (hp_answers hp) j)
                \<and> gra_odId (g_answers doc ! j) = a_odId (snd (hp_answers hp ! j))
                \<and> gra_isCorrect (g_answers doc ! j) = isCorrect (snd (hp_answers hp ! j))))
      \<and> (room_status_of roomId w \<noteq> None \<longrightarrow>
            room_status_of roomId (handleOpen ev newId now roomId hp w) = Some Open))
   \<and> (\<forall>e. res = Inl e \<longrightarrow>
        handleOpen ev newId now roomId hp w = w1 \<and> db w1 = db w
      \<and> game_results_of w1 = game_results_of w
      \<and> room_status_of roomId w1 = room_status_of roomId w)
   \<and> ((\<exists>j<length (hp_answers hp). \<not> uploaded ev roomId (fst question) (hp_answers hp) j)
        \<longrightarrow> (\<exists>e. res = Inl e))
   \<and> (db w = None \<longrightarrow> res = Inl NotConfigured \<and> w1 = w)
   \<and> (db w \<noteq> None \<and> storage w = None \<longrightarrow> res = Inl StorageNotConfigured \<and> w1 = w)
   \<and> (db w \<noteq> None \<and> storage w \<noteq> None \<longrightarrow>
        ((\<exists>j<length (hp_answers hp). \<not> decodes ev (hp_answers hp ! j)) \<longrightarrow> res = Inl InvalidCharacter)
      \<and> ((\<forall>j<length (hp_answers hp). decodes ev (hp_answers hp ! j))
           \<and> (\<exists>j<length (hp_answers hp).
                 \<not> upload_ok ev (answer_path ev roomId (fst question) (hp_answers hp) j))
           \<longrightarrow> res = Inl UploadFailed)
      \<and> ((\<forall>j<length (hp_answers hp). uploaded ev roomId (fst question) (hp_answers hp) j)
           \<and> newId \<notin> fst ` set (game_results_of w) \<longrightarrow> (\<exists>r. res = Inr r))
      \<and> (\<forall>j<length (hp_answers hp). uploaded ev roomId (fst question) (hp_answers hp) j \<longrightarrow>
             stored w1 (answer_path ev roomId (fst question) (hp_answers hp) j)
           \<and> (\<exists>i<length (hp_answers hp). uploaded ev roomId (fst question) (hp_answers hp) i
                 \<and> answer_path ev roomId (fst question) (hp_answers hp) i
                     = answer_path ev roomId (fst question) (hp_answers hp) j
                 \<and> blob_at w1 (answer_path ev roomId (fst question) (hp_answers hp) j)
                     = drawing_of ev (hp_answers hp ! i)))
      \<and> (\<forall>j<length (hp_answers hp).
             uploaded ev roomId (fst question) (hp_answers hp) j
           \<and> alone ev roomId (fst question) (hp_answers hp) j \<longrightarrow>
             blob_at w1 (answer_path ev roomId (fst question) (hp_answers hp) j)
               = drawing_of ev (hp_answers hp ! j)))
   \<and> (\<forall>p. (\<forall>j<length (hp_answers hp). uploaded ev roomId (fst question) (hp_answers hp) j
               \<longrightarrow> answer_path ev roomId (fst question) (hp_answers hp) j \<noteq> p)
          \<longrightarrow> blob_at w1 p = blob_at w p)
   \<and> (\<forall>p. stored w p \<longrightarrow> stored w1 p)"
    apply (intro conjI)
    subgoal using ok by blast
    subgoal using bad by blast
    subgoal using fail by blast
    subgoal using unc(1) .
    subgoal using unc(2) .
    subgoal using cfg by blast
    subgoal using frame .
    subgoal using keep .
    done
qed

lemmas close_defs = saveGameResult_def upload_answer_def base64ToBlob_def example_env_def
  example_defs example_question_def example_answer_def example_host_page_def addDoc_def getDoc_def
  handleOpen_def openAnswers_def update_room_def updateDoc_def room_status_of_def
  game_results_of_def stored_def answer_path_def alice_only_env_def history_path_def
  promise_all_def path_from_def clock_reads_def decodes_def uploaded_def uploaded_from_def
  blob_at_def drawing_of_def decode_env_def bad_answer_def

lemma show_nat_hundreds: "show_nat 100 = ''100''" "show_nat 200 = ''200''"
  by code_simp+

text \<open>
  C7 (as the claim states it, refuted). Two answers, the upload for the second fails:
  \<open>saveGameResult\<close> throws, but the first answer's blob is in the store afterwards, so
  the state is not unchanged.
\<close>

theorem close_question_counterexample:
  "fst (saveGameResult alice_only_env ''g1'' 9 ''r1'' ''SSSSSS'' ''host'' (''q1'', example_question)
         [(''a1'', example_answer ''alice''), (''a2'', example_answer ''bob'')] (example_world 10 [] []))
     = Inl UploadFailed
   \<and> \<not> stored (example_world 10 [] []) (history_path example_env 0 ''r1'' ''q1'' ''alice'')
   \<and> stored (handleOpen alice_only_env ''g1'' 9 ''r1''
         (example_host_page [(''a1'', example_answer ''alice''), (''a2'', example_answer ''bob'')])
         (example_world 10 [] []))
       (history_path example_env 0 ''r1'' ''q1'' ''alice'')
   \<and> handleOpen alice_only_env ''g1'' 9 ''r1''
         (example_host_page [(''a1'', example_answer ''alice''), (''a2'', example_answer ''bob'')])
         (example_world 10 [] [])
       \<noteq> example_world 10 [] []"
proof -
  let ?w = "example_world 10 [] []"
  let ?hp = "example_host_page [(''a1'', example_answer ''alice''), (''a2'', example_answer ''bob'')]"
  let ?p = "history_path example_env 0 ''r1'' ''q1'' ''alice''"
  have a: "fst (saveGameResult alice_only_env ''g1'' 9 ''r1'' ''SSSSSS'' ''host'' (''q1'', example_question)
         [(''a1'', example_answer ''alice''), (''a2'', example_answer ''bob'')] ?w) = Inl UploadFailed"
    by (simp add: close_defs Let_def)
  have b: "\<not> stored ?w ?p" by (simp add: stored_def example_world_def)
  have c: "stored (handleOpen alice_only_env ''g1'' 9 ''r1'' ?hp ?w) ?p"
    by (simp add: close_defs Let_def)
  from b c have "handleOpen alice_only_env ''g1'' 9 ''r1'' ?hp ?w \<noteq> ?w" by auto
  with a b c show ?thesis by blast
qed

theorem close_question_witness:
  "(\<exists>r. fst (saveGameResult example_env ''g1'' 9 ''r1'' ''SSSSSS'' ''host'' (''q1'', example_question)
         [(''a1'', example_answer ''alice'')] (example_world 10 [] [])) = Inr r)
   \<and> room_status_of ''r1'' (snd (saveGameResult example_env ''g1'' 9 ''r1'' ''SSSSSS'' ''host'' (''q1'', example_question)
         [(''a1'', example_answer ''alice'')] (example_world 10 [] []))) = Some Waiting
   \<and> length (game_results_of (snd (saveGameResult example_env ''g1'' 9 ''r1'' ''SSSSSS'' ''host'' (''q1'', example_question)
         [(''a1'', example_answer ''alice'')] (example_world 10 [] [])))) = 1
   \<and> stored (snd (saveGameResult example_env ''g1'' 9 ''r1'' ''SSSSSS'' ''host'' (''q1'', example_question)
         [(''a1'', example_answer ''alice'')] (example_world 10 [] []))) (answer_path example_env ''r1'' ''q1'' [(''a1'', example_answer ''alice'')] 0)
   \<and> blob_at (snd (saveGameResult example_env ''g1'' 9 ''r1'' ''SSSSSS'' ''host'' (''q1'', example_question)
         [(''a1'', example_answer ''alice'')] (example_world 10 [] []))) (answer_path example_env ''r1'' ''q1'' [(''a1'', example_answer ''alice'')] 0) = Some \<lparr>mime = ''image/png'', bytes = ''AAAA''\<rparr>
   \<and> room_status_of ''r1'' (handleOpen example_env ''g1'' 9 ''r1''
         (example_host_page [(''a1'', example_answer ''alice'')]) (example_world 10 [] [])) = Some Open
   \<and> \<not> upload_ok alice_only_env (answer_path alice_only_env ''r1'' ''q1'' [(''a1'', example_answer ''alice''), (''a2'', example_answer ''bob'')] 1)
   \<and> fst (saveGameResult alice_only_env ''g1'' 9 ''r1'' ''SSSSSS'' ''host'' (''q1'', example_question)
         [(''a1'', example_answer ''alice''), (''a2'', example_answer ''bob'')] (example_world 10 [] [])) = Inl UploadFailed
   \<and> game_results_of (handleOpen alice_only_env ''g1'' 9 ''r1''
         (example_host_page [(''a1'', example_answer ''alice''), (''a2'', example_answer ''bob'')]) (example_world 10 [] [])) = []
   \<and> room_status_of ''r1'' (handleOpen alice_only_env ''g1'' 9 ''r1''
         (example_host_page [(''a1'', example_answer ''alice''), (''a2'', example_answer ''bob'')]) (example_world 10 [] [])) = Some Waiting
   \<and> blob_at (handleOpen alice_only_env ''g1'' 9 ''r1''
         (example_host_page [(''a1'', example_answer ''alice''), (''a2'', example_answer ''bob'')]) (example_world 10 [] [])) (answer_path alice_only_env ''r1'' ''q1'' [(''a1'', example_answer ''alice''), (''a2'', example_answer ''bob'')] 0) = Some \<lparr>mime = ''image/png'', bytes = ''AAAA''\<rparr>
   \<and> blob_at (handleOpen alice_only_env ''g1'' 9 ''r1''
         (example_host_page [(''a1'', example_answer ''alice''), (''a2'', example_answer ''bob'')]) (example_world 10 [] [])) (answer_path alice_only_env ''r1'' ''q1'' [(''a1'', example_answer ''alice''), (''a2'', example_answer ''bob'')] 1) = None
   \<and> \<not> decodes decode_env (''a2'', bad_answer ''dan'')
   \<and> fst (saveGameResult decode_env ''g1'' 9 ''r1'' ''SSSSSS'' ''host'' (''q1'', example_question)
         [(''a1'', example_answer ''carol''), (''a2'', bad_answer ''dan''), (''a3'', example_answer ''bob'')] (example_world 10 [] [])) = Inl InvalidCharacter
   \<and> answer_path decode_env ''r1'' ''q1'' [(''a1'', example_answer ''carol''), (''a2'', bad_answer ''dan''), (''a3'', example_answer ''bob'')] 2 = ''history/r1/q1/bob_200.png''
   \<and> blob_at (handleOpen decode_env ''g1'' 9 ''r1''
         (example_host_page [(''a1'', example_answer ''carol''), (''a2'', bad_answer ''dan''), (''a3'', example_answer ''bob'')]) (example_world 10 [] [])) ''history/r1/q1/bob_200.png'' = Some \<lparr>mime = ''image/png'', bytes = ''AAAA''\<rparr>
   \<and> blob_at (handleOpen decode_env ''g1'' 9 ''r1''
         (example_host_page [(''a1'', example_answer ''carol''), (''a2'', bad_answer ''dan''), (''a3'', example_answer ''bob'')]) (example_world 10 [] [])) ''history/r1/q1/carol_100.png'' = None
   \<and> game_results_of (handleOpen decode_env ''g1'' 9 ''r1''
         (example_host_page [(''a1'', example_answer ''carol''), (''a2'', bad_answer ''dan''), (''a3'', example_answer ''bob'')]) (example_world 10 [] [])) = []
   \<and> room_status_of ''r1'' (handleOpen decode_env ''g1'' 9 ''r1''
         (example_host_page [(''a1'', example_answer ''carol''), (''a2'', bad_answer ''dan''), (''a3'', example_answer ''bob'')]) (example_world 10 [] [])) = Some Waiting"
proof -
  let ?w = "example_world 10 [] []"
  let ?one = "[(''a1'', example_answer ''alice'')]"
  let ?two = "[(''a1'', example_answer ''alice''), (''a2'', example_answer ''bob'')]"
  let ?three = "[(''a1'', example_answer ''carol''), (''a2'', bad_answer ''dan''), (''a3'', example_answer ''bob'')]"
  let ?s = "saveGameResult example_env ''g1'' 9 ''r1'' ''SSSSSS'' ''host'' (''q1'', example_question) ?one ?w"
  let ?f = "saveGameResult alice_only_env ''g1'' 9 ''r1'' ''SSSSSS'' ''host'' (''q1'', example_question) ?two ?w"
  let ?g = "saveGameResult decode_env ''g1'' 9 ''r1'' ''SSSSSS'' ''host'' (''q1'', example_question) ?three ?w"
  let ?blob = "Some \<lparr>mime = ''image/png'', bytes = ''AAAA''\<rparr>"
  have w0: "room_status_of ''r1'' ?w = Some Waiting" "game_results_of ?w = []"
      "db ?w \<noteq> None \<and> storage ?w \<noteq> None" "blob_at ?w p = None" for p
    by (simp_all add: room_status_of_def game_results_of_def getDoc_def example_defs blob_at_def)
  have draw: "drawing_of example_env (i, example_answer x) = ?blob"
      "drawing_of alice_only_env (i, example_answer x) = ?blob"
      "drawing_of decode_env (i, example_answer x) = ?blob" for i x
    by (simp_all add: close_defs)
  have pre: "hp_room (example_host_page as) = Some (''r1'', example_room 10)
     \<and> hp_currentQuestion (example_host_page as) = Some (''q1'', example_question)
     \<and> hp_user (example_host_page as) = Some ''host''
     \<and> saveGameResult ev ''g1'' 9 ''r1'' (roomCode (snd (''r1'', example_room 10))) ''host''
          (''q1'', example_question) (hp_answers (example_host_page as)) ?w
        = (fst (saveGameResult ev ''g1'' 9 ''r1'' ''SSSSSS'' ''host'' (''q1'', example_question) as ?w),
           snd (saveGameResult ev ''g1'' 9 ''r1'' ''SSSSSS'' ''host'' (''q1'', example_question) as ?w))"
    for ev as
    by (simp add: example_host_page_def example_room_def)
  have hpa: "hp_answers (example_host_page as) = as" for as
    by (simp add: example_host_page_def)
  have q: "fst (''q1'', example_question) = ''q1''" by simp
  have fresh: "''g1'' \<notin> fst ` set (game_results_of ?w)" by (simp add: w0)
  note t1 = close_question [where hp = "example_host_page ?one" and room = "(''r1'', example_room 10)"
      and question = "(''q1'', example_question)" and uid = "''host''" and ev = example_env
      and newId = "''g1''" and now = 9 and roomId = "''r1''" and w = ?w and res = "fst ?s"
      and ?w1.0 = "snd ?s", THEN mp, OF pre, unfolded hpa q]
  note t1_ok = t1[THEN conjunct1]
  note t1_cfg = t1[THEN conjunct2, THEN conjunct2, THEN conjunct2, THEN conjunct2, THEN conjunct2,
      THEN conjunct1, THEN mp, OF w0(3)]
  note t1_ret = t1_cfg[THEN conjunct2, THEN conjunct2, THEN conjunct1]
  note t1_own = t1_cfg[THEN conjunct2, THEN conjunct2, THEN conjunct2, THEN conjunct2]
  have u1: "\<forall>j<length ?one. uploaded example_env ''r1'' ''q1'' ?one j"
    by (simp add: close_defs)
  have al1: "alone example_env ''r1'' ''q1'' ?one 0"
    by (simp add: alone_def)
  obtain r where r: "fst ?s = Inr r"
    using t1_ret u1 fresh by blast
  have ok: "room_status_of ''r1'' (snd ?s) = room_status_of ''r1'' ?w
      \<and> (\<exists>doc. game_results_of (snd ?s) = game_results_of ?w @ [(''g1'', doc)])
      \<and> stored (snd ?s) (answer_path example_env ''r1'' ''q1'' ?one 0)
      \<and> room_status_of ''r1'' (handleOpen example_env ''g1'' 9 ''r1'' (example_host_page ?one) ?w)
          = Some Open"
    using t1_ok[rule_format, OF r] w0(1) by force
  have b1: "blob_at (snd ?s) (answer_path example_env ''r1'' ''q1'' ?one 0) = ?blob"
    using t1_own[rule_format, of 0] u1 al1 draw(1)[of "''a1''" "''alice''"] by simp
  note t2 = close_question [where hp = "example_host_page ?two" and room = "(''r1'', example_room 10)"
      and question = "(''q1'', example_question)" and uid = "''host''" and ev = alice_only_env
      and newId = "''g1''" and now = 9 and roomId = "''r1''" and w = ?w and res = "fst ?f"
      and ?w1.0 = "snd ?f", THEN mp, OF pre, unfolded hpa q]
  note t2_bad = t2[THEN conjunct2, THEN conjunct1]
  note t2_cfg = t2[THEN conjunct2, THEN conjunct2, THEN conjunct2, THEN conjunct2, THEN conjunct2,
      THEN conjunct1, THEN mp, OF w0(3)]
  note t2_rej = t2_cfg[THEN conjunct2, THEN conjunct1]
  note t2_own = t2_cfg[THEN conjunct2, THEN conjunct2, THEN conjunct2, THEN conjunct2]
  note t2_frame = t2[THEN conjunct2, THEN conjunct2, THEN conjunct2, THEN conjunct2, THEN conjunct2,
      THEN conjunct2, THEN conjunct1]
  have nf: "\<not> upload_ok alice_only_env (answer_path alice_only_env ''r1'' ''q1'' ?two 1)"
    by (simp add: close_defs)
  have dec2: "\<forall>j<length ?two. decodes alice_only_env (?two ! j)"
    by (auto simp: less_Suc_eq close_defs)
  have up2: "uploaded alice_only_env ''r1'' ''q1'' ?two 0"
      "\<not> uploaded alice_only_env ''r1'' ''q1'' ?two 1"
    by (simp_all add: close_defs)
  have al2: "alone alice_only_env ''r1'' ''q1'' ?two 0"
    using up2(2) by (auto simp: alone_def less_Suc_eq)
  have f2: "fst ?f = Inl UploadFailed"
  proof -
    have "\<exists>j<length ?two. \<not> upload_ok alice_only_env (answer_path alice_only_env ''r1'' ''q1'' ?two j)"
      using nf by (intro exI[of _ 1]) simp
    then show ?thesis using t2_rej dec2 by blast
  qed
  note bad2 = t2_bad[rule_format, OF f2]
  have h2: "handleOpen alice_only_env ''g1'' 9 ''r1'' (example_host_page ?two) ?w = snd ?f"
    using bad2 by blast
  have g2: "game_results_of (snd ?f) = []" "room_status_of ''r1'' (snd ?f) = Some Waiting"
    using bad2 w0(1,2) by simp_all
  have b2: "blob_at (snd ?f) (answer_path alice_only_env ''r1'' ''q1'' ?two 0) = ?blob"
    using t2_own[rule_format, of 0] up2(1) al2 draw(2)[of "''a1''" "''alice''"] by simp
  have "\<forall>j<length ?two. uploaded alice_only_env ''r1'' ''q1'' ?two j \<longrightarrow>
      answer_path alice_only_env ''r1'' ''q1'' ?two j \<noteq> answer_path alice_only_env ''r1'' ''q1'' ?two 1"
    using up2(2) by (auto simp: less_Suc_eq close_defs)
  then have n2: "blob_at (snd ?f) (answer_path alice_only_env ''r1'' ''q1'' ?two 1) = None"
    using t2_frame[rule_format, of "answer_path alice_only_env ''r1'' ''q1'' ?two 1"] w0(4) by simp
  note t3 = close_question [where hp = "example_host_page ?three" and room = "(''r1'', example_room 10)"
      and question = "(''q1'', example_question)" and uid = "''host''" and ev = decode_env
      and newId = "''g1''" and now = 9 and roomId = "''r1''" and w = ?w and res = "fst ?g"
      and ?w1.0 = "snd ?g", THEN mp, OF pre, unfolded hpa q]
  note t3_bad = t3[THEN conjunct2, THEN conjunct1]
  note t3_cfg = t3[THEN conjunct2, THEN conjunct2, THEN conjunct2, THEN conjunct2, THEN conjunct2,
      THEN conjunct1, THEN mp, OF w0(3)]
  note t3_thr = t3_cfg[THEN conjunct1]
  note t3_own = t3_cfg[THEN conjunct2, THEN conjunct2, THEN conjunct2, THEN conjunct2]
  note t3_frame = t3[THEN conjunct2, THEN conjunct2, THEN conjunct2, THEN conjunct2, THEN conjunct2,
      THEN conjunct2, THEN conjunct1]
  have nd: "\<not> decodes decode_env (''a2'', bad_answer ''dan'')"
    by (simp add: close_defs)
  have p3: "answer_path decode_env ''r1'' ''q1'' ?three 0 = ''history/r1/q1/carol_100.png''"
      "answer_path decode_env ''r1'' ''q1'' ?three 2 = ''history/r1/q1/bob_200.png''"
    by (simp_all add: close_defs show_nat_hundreds)
  have up3: "\<not> uploaded decode_env ''r1'' ''q1'' ?three 0"
      "\<not> uploaded decode_env ''r1'' ''q1'' ?three 1"
      "uploaded decode_env ''r1'' ''q1'' ?three 2"
    by (simp_all add: close_defs show_nat_hundreds)
  have al3: "alone decode_env ''r1'' ''q1'' ?three 2"
    using up3(1,2) by (auto simp: alone_def less_Suc_eq)
  have f3: "fst ?g = Inl InvalidCharacter"
  proof -
    have "\<exists>j<length ?three. \<not> decodes decode_env (?three ! j)"
      using nd by (intro exI[of _ 1]) simp
    then show ?thesis using t3_thr by blast
  qed
  note bad3 = t3_bad[rule_format, OF f3]
  have h3: "handleOpen decode_env ''g1'' 9 ''r1'' (example_host_page ?three) ?w = snd ?g"
    using bad3 by blast
  have g3: "game_results_of (snd ?g) = []" "room_status_of ''r1'' (snd ?g) = Some Waiting"
    using bad3 w0(1,2) by simp_all
  have b3: "blob_at (snd ?g) ''history/r1/q1/bob_200.png'' = ?blob"
    using t3_own[rule_format, of 2] up3(3) al3 draw(3)[of "''a3''" "''bob''"] p3(2) by simp
  have "\<forall>j<length ?three. uploaded decode_env ''r1'' ''q1'' ?three j \<longrightarrow>
      answer_path decode_env ''r1'' ''q1'' ?three j \<noteq> ''history/r1/q1/carol_100.png''"
    using up3(1,2) p3(2)[unfolded numeral_2_eq_2] by (auto simp: less_Suc_eq)
  then have n3: "blob_at (snd ?g) ''history/r1/q1/carol_100.png'' = None"
    using t3_frame[rule_format, of "''history/r1/q1/carol_100.png''"] w0(4) by simp
  have one: "(\<exists>r. fst ?s = Inr r)" "room_status_of ''r1'' (snd ?s) = Some Waiting"
      "length (game_results_of (snd ?s)) = 1"
      "stored (snd ?s) (answer_path example_env ''r1'' ''q1'' ?one 0)"
      "room_status_of ''r1'' (handleOpen example_env ''g1'' 9 ''r1'' (example_host_page ?one) ?w) = Some Open"
    using r ok w0(1,2) by auto
  show ?thesis
    unfolding h2 h3
    apply (intro conjI)
    subgoal using one(1) .
    subgoal using one(2) .
    subgoal using one(3) .
    subgoal using one(4) .
    subgoal using b1 .
    subgoal using one(5) .
    subgoal using nf .
    subgoal using f2 .
    subgoal using g2(1) .
    subgoal using g2(2) .
    subgoal using b2 .
    subgoal using n2 .
    subgoal using nd .
    subgoal using f3 .
    subgoal using p3(2) .
    subgoal using b3 .
    subgoal using n3 .
    subgoal using g3(1) .
    subgoal using g3(2) .
    done
qed

end
